(* ===== verification/Prelude.thy ===== *)
theory Prelude
  imports Main "HOL-Library.Multiset" "HOL-Library.Char_ord" "HOL-Library.List_Lexorder"
begin

text \<open>
  Shared vocabulary of the development. JavaScript strings are modelled as HOL
  \<open>string\<close>s (lists of 8-bit \<open>char\<close>s): the file names, front-matter keys and
  metric values of the delegates repository are ASCII, where a UTF-16 code unit and a
  byte coincide. The string operations the script and the Node libraries use
  (\<open>startsWith\<close>, \<open>endsWith\<close>, \<open>split\<close>, \<open>join\<close>, \<open>trim\<close>, the decimal rendering of a
  count) are defined here once, with the lemmas every component relies on; the
  collections \<open>path_simps\<close> and \<open>json_simps\<close> gather the evaluation rules that the
  path and serialisation components contribute, so that witnesses on concrete
  inputs are discharged by \<open>simp add: path_simps\<close> or \<open>json_simps\<close>.
\<close>

named_theorems path_simps "evaluation rules for path strings"
named_theorems json_simps "evaluation rules for JSON serialisation"

section \<open>Prefixes and suffixes\<close>

text \<open>\<open>s.startsWith(p)\<close> and \<open>s.endsWith(p)\<close> of ECMAScript.\<close>

definition starts_with :: "string \<Rightarrow> string \<Rightarrow> bool" where
  "starts_with s p \<longleftrightarrow> take (length p) s = p"

definition ends_with :: "string \<Rightarrow> string \<Rightarrow> bool" where
  "ends_with s p \<longleftrightarrow> length p \<le> length s \<and> drop (length s - length p) s = p"

section \<open>Splitting and joining on a separator\<close>

text \<open>\<open>s.split(c)\<close> for a one-character separator: never empty, and the empty
  string splits into one empty piece.\<close>

fun split_on :: "char \<Rightarrow> string \<Rightarrow> string list" where
  "split_on c [] = [[]]"
| "split_on c (x # xs) =
     (if x = c then [] # split_on c xs
      else (let r = split_on c xs in (x # hd r) # tl r))"

text \<open>\<open>ws.join(c)\<close>.\<close>

fun join_with :: "char \<Rightarrow> string list \<Rightarrow> string" where
  "join_with c [] = []"
| "join_with c [w] = w"
| "join_with c (w # v # ws) = w @ c # join_with c (v # ws)"

section \<open>Whitespace and trimming\<close>

text \<open>The ASCII members of ECMAScript's WhiteSpace and LineTerminator sets
  (tab, line feed, vertical tab, form feed, carriage return, space).\<close>

definition is_space :: "char \<Rightarrow> bool" where
  "is_space ch \<longleftrightarrow> ch \<in> {CHR 0x09, CHR 0x0A, CHR 0x0B, CHR 0x0C, CHR 0x0D, CHR 0x20}"

definition trim :: "string \<Rightarrow> string" where
  "trim s = rev (dropWhile is_space (rev (dropWhile is_space s)))"

section \<open>Decimal rendering of counts\<close>

text \<open>\<open>String(n)\<close> for a non-negative integer, as a template literal prints it.\<close>

definition digit_char :: "nat \<Rightarrow> char" where
  "digit_char d = char_of (48 + d)"

fun dec_string :: "nat \<Rightarrow> string" where
  "dec_string n = (if n < 10 then [digit_char n] else dec_string (n div 10) @ [digit_char (n mod 10)])"

declare dec_string.simps [simp del]

section \<open>Lemmas\<close>

lemma starts_with_append [simp]: "starts_with (p @ s) p"
  by (simp add: starts_with_def)

lemma starts_with_iff: "starts_with s p \<longleftrightarrow> (\<exists>r. s = p @ r)"
  unfolding starts_with_def by (metis append_eq_conv_conj append_take_drop_id)

lemma starts_with_Nil [simp]: "starts_with s []"
  by (simp add: starts_with_def)

lemma starts_with_Cons_Cons [simp]:
  "starts_with (x # s) (y # p) \<longleftrightarrow> x = y \<and> starts_with s p"
  by (simp add: starts_with_def)

lemma starts_with_Nil_Cons [simp]: "\<not> starts_with [] (y # p)"
  by (simp add: starts_with_def)

lemma ends_with_iff: "ends_with s p \<longleftrightarrow> (\<exists>r. s = r @ p)"
proof
  assume "ends_with s p"
  then have "s = take (length s - length p) s @ p"
    unfolding ends_with_def by (metis append_take_drop_id)
  then show "\<exists>r. s = r @ p" by blast
next
  assume "\<exists>r. s = r @ p"
  then show "ends_with s p" by (auto simp: ends_with_def)
qed

lemma split_on_not_Nil [simp]: "split_on c s \<noteq> []"
  by (induction s) (auto simp: Let_def)

lemma split_on_no_sep: "c \<notin> set s \<Longrightarrow> split_on c s = [s]"
  by (induction s) (auto simp: Let_def)

lemma split_on_append_sep:
  "c \<notin> set w \<Longrightarrow> split_on c (w @ c # s) = w # split_on c s"
  by (induction w) (auto simp: Let_def)

text \<open>Splitting inverts joining when no piece contains the separator: the round
  trip between a path's segments and its string.\<close>

lemma split_on_join_with:
  "ws \<noteq> [] \<Longrightarrow> \<forall>w \<in> set ws. c \<notin> set w \<Longrightarrow> split_on c (join_with c ws) = ws"
proof (induction ws)
  case Nil
  then show ?case by simp
next
  case (Cons w ws)
  show ?case
  proof (cases ws)
    case Nil
    with Cons.prems show ?thesis by (simp add: split_on_no_sep)
  next
    case (Cons v vs)
    with Cons.IH Cons.prems show ?thesis by (simp add: split_on_append_sep)
  qed
qed

lemma join_with_split_on: "join_with c (split_on c s) = s"
proof (induction s)
  case Nil
  then show ?case by simp
next
  case (Cons x xs)
  obtain w ws where r: "split_on c xs = w # ws"
    by (cases "split_on c xs") auto
  show ?case
  proof (cases "x = c")
    case True
    with Cons.IH r show ?thesis by (cases ws) auto
  next
    case False
    with Cons.IH r show ?thesis by (cases ws) (auto simp: Let_def)
  qed
qed

lemma join_with_inj:
  assumes "\<forall>w \<in> set ws. c \<notin> set w" and "\<forall>w \<in> set vs. c \<notin> set w"
    and "ws \<noteq> []" and "vs \<noteq> []" and "join_with c ws = join_with c vs"
  shows "ws = vs"
  using assms by (metis split_on_join_with)

lemma set_join_with: "set (join_with c ws) \<subseteq> insert c (\<Union>w \<in> set ws. set w)"
  by (induction ws rule: induct_list012) auto

lemma join_with_Cons_not_Nil [simp]: "w \<noteq> [] \<Longrightarrow> join_with c (w # ws) \<noteq> []"
  by (cases ws) auto

lemma last_join_with:
  "\<forall>w \<in> set ws. w \<noteq> [] \<Longrightarrow> ws \<noteq> [] \<Longrightarrow> last (join_with c ws) = last (last ws)"
  by (induction c ws rule: join_with.induct) simp_all

text \<open>A string that starts with \<open>s\<close> followed by a separator \<open>c\<close>, split after a
  separator-free piece \<open>x\<close>, has \<open>x = s\<close>: a path starts with \<open>dir/\<close> exactly when
  its first segment is \<open>dir\<close>.\<close>

lemma starts_with_sep_piece:
  "c \<notin> set x \<Longrightarrow> c \<notin> set s \<Longrightarrow> starts_with (x @ r) (s @ [c]) \<Longrightarrow> r = [] \<or> hd r = c \<Longrightarrow> x = s"
proof (induction x arbitrary: s)
  case Nil
  then show ?case by (cases s; cases r) auto
next
  case (Cons y x)
  then show ?case by (cases s) auto
qed

lemma dec_string_not_Nil [simp]: "dec_string n \<noteq> []"
  by (subst dec_string.simps) simp

subsection \<open>Sorting through a projection\<close>

lemma map_insort_key_comp:
  "map f (insort_key (\<lambda>x. k (f x)) a xs) = insort_key k (f a) (map f xs)"
  by (induction xs) auto

lemma map_sort_key_comp:
  "map f (sort_key (\<lambda>x. k (f x)) xs) = sort_key k (map f xs)"
  by (induction xs) (simp_all add: map_insort_key_comp)

lemma nth_last_length: "length xs = Suc n \<Longrightarrow> xs ! n = last xs"
  by (cases xs rule: rev_cases) (simp_all add: nth_append)

end
