(* ===== verification/Paths.thy ===== *)
theory Paths
  imports Prelude
begin

text \<open>
  The parts of Node's \<open>path\<close> module (posix flavour) that the script calls:
  \<open>path.dirname\<close>, \<open>path.basename\<close> and the one-argument \<open>path.join(file)\<close>, which is
  \<open>path.normalize\<close>. Each definition follows Node's own algorithm (a backwards scan
  for the last separator, and the segment stack of \<open>normalizeString\<close>), written on
  reversed lists. The lemmas describe them on the paths the glob returns: a
  non-empty list of proper segments joined with \<open>/\<close>.
\<close>

abbreviation join_path :: "string list \<Rightarrow> string" where
  "join_path \<equiv> join_with CHR ''/''"

text \<open>A proper path segment: what a directory listing can return and glob can emit.\<close>

definition proper_seg :: "string \<Rightarrow> bool" where
  "proper_seg s \<longleftrightarrow> s \<noteq> [] \<and> CHR ''/'' \<notin> set s \<and> s \<noteq> ''.'' \<and> s \<noteq> ''..''"

section \<open>dirname and basename\<close>

text \<open>
  \<open>dirname(path)\<close>: scanning from the end down to index 1, skip trailing slashes,
  then the last segment; the slash found then ends the result. With no such slash
  the result is \<open>/\<close> for a rooted path and \<open>.\<close> otherwise; \<open>//\<close> when the slash is
  at index 1 of a rooted path. \<open>s\<close> below is the reversed string from that slash down
  to index 1, so the slash sits at index \<open>length s\<close>.
\<close>

definition posix_dirname :: "string \<Rightarrow> string" where
  "posix_dirname p =
     (if p = [] then ''.''
      else
        let has_root = (hd p = CHR ''/'');
            s = dropWhile (\<lambda>c. c \<noteq> CHR ''/'') (dropWhile (\<lambda>c. c = CHR ''/'') (rev (tl p)))
        in if s = [] then (if has_root then ''/'' else ''.'')
           else if has_root \<and> length s = 1 then ''//''
           else take (length s) p)"

text \<open>\<open>basename(path)\<close>: drop trailing slashes, keep what follows the last slash.\<close>

definition posix_basename :: "string \<Rightarrow> string" where
  "posix_basename p = rev (takeWhile (\<lambda>c. c \<noteq> CHR ''/'') (dropWhile (\<lambda>c. c = CHR ''/'') (rev p)))"

section \<open>normalize and join\<close>

text \<open>One step of \<open>normalizeString\<close>, on the stack of kept segments (last on top):
  empty and \<open>.\<close> segments vanish, \<open>..\<close> pops a segment that is not itself \<open>..\<close>,
  and is kept only where the path may climb above its start.\<close>

fun norm_step :: "bool \<Rightarrow> string list \<Rightarrow> string \<Rightarrow> string list" where
  "norm_step climb st seg =
     (if seg = [] \<or> seg = ''.'' then st
      else if seg = ''..'' then
        (case st of
           s # st' \<Rightarrow> if s \<noteq> ''..'' then st' else (if climb then ''..'' # st else st)
         | [] \<Rightarrow> if climb then [''..''] else [])
      else seg # st)"

definition posix_normalize :: "string \<Rightarrow> string" where
  "posix_normalize p =
     (if p = [] then ''.''
      else
        let is_abs = (hd p = CHR ''/'');
            trailing = (last p = CHR ''/'');
            body = join_path (rev (foldl (norm_step (\<not> is_abs)) [] (split_on CHR ''/'' p)))
        in if body = [] then (if is_abs then ''/'' else if trailing then ''./'' else ''.'')
           else (if is_abs then CHR ''/'' # body else body) @ (if trailing then ''/'' else []))"

text \<open>\<open>path.join(file)\<close>: the non-empty arguments joined and normalised.\<close>

definition path_join1 :: "string \<Rightarrow> string" where
  "path_join1 f = (if f = [] then ''.'' else posix_normalize f)"

section \<open>Lemmas on joined segments\<close>

lemma proper_seg_no_slash: "proper_seg s \<Longrightarrow> CHR ''/'' \<notin> set s"
  by (simp add: proper_seg_def)

lemma proper_segs_no_slash: "\<forall>s \<in> set ss. proper_seg s \<Longrightarrow> \<forall>s \<in> set ss. CHR ''/'' \<notin> set s"
  by (simp add: proper_seg_def)

lemma dropWhile_slash_free [simp]:
  "CHR ''/'' \<notin> set s \<Longrightarrow> dropWhile (\<lambda>c. c = CHR ''/'') s = s"
  by (induction s) auto

lemma dropWhile_not_slash_free [simp]:
  "CHR ''/'' \<notin> set s \<Longrightarrow> dropWhile (\<lambda>c. c \<noteq> CHR ''/'') s = []"
  by (induction s) auto

lemma takeWhile_not_slash_free [simp]:
  "CHR ''/'' \<notin> set s \<Longrightarrow> takeWhile (\<lambda>c. c \<noteq> CHR ''/'') s = s"
  by (induction s) auto

lemma takeWhile_not_slash_sep:
  "CHR ''/'' \<notin> set s \<Longrightarrow> takeWhile (\<lambda>c. c \<noteq> CHR ''/'') (s @ CHR ''/'' # r) = s"
  by (induction s) auto

lemma dropWhile_not_slash_sep:
  "CHR ''/'' \<notin> set s \<Longrightarrow> dropWhile (\<lambda>c. c \<noteq> CHR ''/'') (s @ CHR ''/'' # r) = CHR ''/'' # r"
  by (induction s) auto

lemma join_path_Cons_hd:
  "s \<noteq> [] \<Longrightarrow> hd (join_path (s # ss)) = hd s"
  by (cases ss) auto

lemma join_path_snoc: "ds \<noteq> [] \<Longrightarrow> join_path (ds @ [f]) = join_path ds @ CHR ''/'' # f"
  by (induction ds rule: induct_list012) auto

lemma join_path_not_Nil: "\<forall>s \<in> set ss. proper_seg s \<Longrightarrow> ss \<noteq> [] \<Longrightarrow> join_path ss \<noteq> []"
  by (induction ss rule: induct_list012) (auto simp: proper_seg_def)

lemma foldl_norm_step_proper:
  "\<forall>s \<in> set ss. proper_seg s \<Longrightarrow> foldl (norm_step climb) st ss = rev ss @ st"
  by (induction ss arbitrary: st) (auto simp: proper_seg_def)

lemma last_join_path: "\<forall>s \<in> set ss. proper_seg s \<Longrightarrow> ss \<noteq> [] \<Longrightarrow> last (join_path ss) = last (last ss)"
  by (simp add: last_join_with proper_seg_def)

lemma basename_join_path_snoc [path_simps]:
  assumes "\<forall>s \<in> set ds. proper_seg s" and "proper_seg f"
  shows "posix_basename (join_path (ds @ [f])) = f"
proof (cases "ds = []")
  case True
  with assms show ?thesis
    by (simp add: posix_basename_def proper_seg_def)
next
  case False
  have "f \<noteq> []" and nf: "CHR ''/'' \<notin> set f" using assms(2) by (auto simp: proper_seg_def)
  then have "dropWhile (\<lambda>c. c = CHR ''/'') (rev f @ CHR ''/'' # rev (join_path ds)) = rev f @ CHR ''/'' # rev (join_path ds)"
    by (cases "rev f") auto
  with False nf show ?thesis
    by (simp add: posix_basename_def join_path_snoc takeWhile_not_slash_sep)
qed

lemma dirname_join_path_snoc [path_simps]:
  assumes "\<forall>s \<in> set ds. proper_seg s" and "proper_seg f"
  shows "posix_dirname (join_path (ds @ [f])) = (if ds = [] then ''.'' else join_path ds)"
proof (cases "ds = []")
  case True
  with assms(2) show ?thesis
    by (cases f) (auto simp: posix_dirname_def proper_seg_def)
next
  case False
  obtain d ds' where ds: "ds = d # ds'" using False by (cases ds) auto
  have pd: "proper_seg d" and nd: "d \<noteq> []" using assms(1) ds by (auto simp: proper_seg_def)
  have nf: "CHR ''/'' \<notin> set f" "f \<noteq> []" using assms(2) by (auto simp: proper_seg_def)
  have hd_ne: "hd d \<noteq> CHR ''/''" using pd nd by (cases d) (auto simp: proper_seg_def)
  let ?p = "join_path ds @ CHR ''/'' # f"
  have jne: "join_path ds \<noteq> []" using assms(1) False by (rule join_path_not_Nil)
  have tl_p: "rev (tl ?p) = rev f @ CHR ''/'' # rev (tl (join_path ds))"
    using jne by (cases "join_path ds") auto
  have s1: "dropWhile (\<lambda>c. c = CHR ''/'') (rev (tl ?p)) = rev (tl ?p)"
    using nf tl_p by (cases "rev f") auto
  have s2: "dropWhile (\<lambda>c. c \<noteq> CHR ''/'') (rev (tl ?p)) = CHR ''/'' # rev (tl (join_path ds))"
    using nf tl_p by (simp add: dropWhile_not_slash_sep)
  have len: "length (CHR ''/'' # rev (tl (join_path ds))) = length (join_path ds)"
    using jne by (cases "join_path ds") auto
  have hd_p: "hd ?p = hd d" using jne ds nd by (simp add: join_path_Cons_hd)
  with False s1 s2 len hd_p hd_ne show ?thesis
    by (simp add: posix_dirname_def join_path_snoc Let_def)
qed

lemma normalize_join_path [path_simps]:
  assumes "\<forall>s \<in> set ss. proper_seg s" and "ss \<noteq> []"
  shows "posix_normalize (join_path ss) = join_path ss"
proof -
  obtain s ss' where ss: "ss = s # ss'" using assms(2) by (cases ss) auto
  have ps: "proper_seg s" using assms(1) ss by simp
  have ne: "join_path ss \<noteq> []" using assms by (rule join_path_not_Nil)
  have hd_ne: "hd (join_path ss) \<noteq> CHR ''/''"
    using ps ss by (cases s) (auto simp: proper_seg_def join_path_Cons_hd)
  have last_ne: "last (join_path ss) \<noteq> CHR ''/''"
  proof -
    have "proper_seg (last ss)" using assms by simp
    then have "last (last ss) \<noteq> CHR ''/''"
      by (auto simp: proper_seg_def dest: last_in_set)
    with assms show ?thesis by (simp add: last_join_path)
  qed
  have "split_on CHR ''/'' (join_path ss) = ss"
    using assms by (simp add: split_on_join_with proper_segs_no_slash)
  then have "rev (foldl (norm_step True) [] (split_on CHR ''/'' (join_path ss))) = ss"
    using assms(1) by (simp add: foldl_norm_step_proper)
  with ne hd_ne last_ne show ?thesis
    by (simp add: posix_normalize_def Let_def)
qed

lemma path_join1_join_path [path_simps]:
  "\<forall>s \<in> set ss. proper_seg s \<Longrightarrow> ss \<noteq> [] \<Longrightarrow> path_join1 (join_path ss) = join_path ss"
  by (simp add: path_join1_def normalize_join_path join_path_not_Nil)

end
