(* ===== verification/FileTree.thy ===== *)
theory FileTree
  imports Paths "HOL-Library.AList"
begin

text \<open>
  The directory tree under \<open>delegateDirectory\<close> and the synchronous \<open>fs\<close> calls the
  script makes on it. A directory is the list of its entries in the order
  \<open>readdirSync\<close> returns them; paths are lists of segments relative to the root (the
  script's absolute paths are \<open>path.join(delegateDirectory, file)\<close>, so each one is
  the root followed by such a list). Failures are the POSIX errors Node throws:
  \<open>ENOENT\<close> for a missing component, \<open>ENOTDIR\<close> for a file used as a directory,
  \<open>EISDIR\<close> for reading a directory as a file. Following Unix.thy's nested
  environments, \<open>resolve\<close> walks the tree and every operation is defined through it.
\<close>

datatype node = File string | Dir "(string \<times> node) list"

datatype fs_error = ENOENT "string list" | ENOTDIR "string list" | EISDIR "string list"

datatype walk_fail = Missing | NotDir

section \<open>Walking the tree\<close>

fun resolve :: "node \<Rightarrow> string list \<Rightarrow> walk_fail + node" where
  "resolve n [] = Inr n"
| "resolve (File c) (x # xs) = Inl NotDir"
| "resolve (Dir es) (x # xs) =
     (case map_of es x of None \<Rightarrow> Inl Missing | Some n \<Rightarrow> resolve n xs)"

definition walk_error :: "walk_fail \<Rightarrow> string list \<Rightarrow> fs_error" where
  "walk_error f p = (case f of Missing \<Rightarrow> ENOENT p | NotDir \<Rightarrow> ENOTDIR p)"

section \<open>The fs calls\<close>

text \<open>\<open>fs.readFileSync(p, 'utf8')\<close>.\<close>

definition read_file_sync :: "node \<Rightarrow> string list \<Rightarrow> fs_error + string" where
  "read_file_sync root p =
     (case resolve root p of
        Inl f \<Rightarrow> Inl (walk_error f p)
      | Inr (File c) \<Rightarrow> Inr c
      | Inr (Dir _) \<Rightarrow> Inl (EISDIR p))"

text \<open>\<open>fs.readdirSync(p, 'utf-8')\<close>: the names of the entries.\<close>

definition readdir_sync :: "node \<Rightarrow> string list \<Rightarrow> fs_error + string list" where
  "readdir_sync root p =
     (case resolve root p of
        Inl f \<Rightarrow> Inl (walk_error f p)
      | Inr (Dir es) \<Rightarrow> Inr (map fst es)
      | Inr (File _) \<Rightarrow> Inl (ENOTDIR p))"

text \<open>\<open>fs.writeFileSync(p, data)\<close> for a file \<open>p = [name]\<close> directly under the root:
  an existing file is overwritten where it stands, a new one is added to the
  directory, a directory of that name is \<open>EISDIR\<close>.\<close>

definition write_root_file :: "node \<Rightarrow> string \<Rightarrow> string \<Rightarrow> fs_error + node" where
  "write_root_file root name data =
     (case root of
        File _ \<Rightarrow> Inl (ENOTDIR [name])
      | Dir es \<Rightarrow>
          (case map_of es name of
             Some (Dir _) \<Rightarrow> Inl (EISDIR [name])
           | _ \<Rightarrow> Inr (Dir (AList.update name (File data) es))))"

section \<open>Well-formed trees\<close>

text \<open>What the operating system guarantees of a directory: its entry names are
  distinct proper segments.\<close>

fun wf_node :: "node \<Rightarrow> bool" where
  "wf_node (File c) = True"
| "wf_node (Dir es) = (distinct (map fst es) \<and> list_all (\<lambda>(k, n). proper_seg k \<and> wf_node n) es)"

section \<open>Lemmas\<close>

lemma resolve_append:
  "resolve n (p @ q) = (case resolve n p of Inl f \<Rightarrow> Inl f | Inr m \<Rightarrow> resolve m q)"
  by (induction n p rule: resolve.induct) (auto split: option.splits)

lemma resolve_Dir_Cons:
  "resolve (Dir es) (x # xs) = Inr m \<longleftrightarrow> (\<exists>n. map_of es x = Some n \<and> resolve n xs = Inr m)"
  by (auto split: option.splits)

lemma read_file_sync_Inr:
  "read_file_sync root p = Inr c \<longleftrightarrow> resolve root p = Inr (File c)"
  by (auto simp: read_file_sync_def split: sum.splits node.splits)

lemma read_file_sync_dir:
  "resolve root p = Inr (Dir es) \<Longrightarrow> read_file_sync root p = Inl (EISDIR p)"
  by (simp add: read_file_sync_def)

lemma readdir_sync_Inr:
  "readdir_sync root p = Inr ns \<longleftrightarrow> (\<exists>es. resolve root p = Inr (Dir es) \<and> ns = map fst es)"
  by (auto simp: readdir_sync_def split: sum.splits node.splits)

lemma map_of_update_other:
  "k' \<noteq> k \<Longrightarrow> map_of (AList.update k v es) k' = map_of es k'"
  by (simp add: update_conv')

text \<open>Writing \<open>index.json\<close> leaves every path that does not start with that name
  as it was: the frame property of the one write the script makes.\<close>

lemma write_root_file_resolve_other:
  assumes "write_root_file root name data = Inr root'" and "p = [] \<or> hd p \<noteq> name"
  shows "p \<noteq> [] \<Longrightarrow> resolve root' p = resolve root p"
proof -
  assume ne: "p \<noteq> []"
  from assms(1) obtain es where root: "root = Dir es" and root': "root' = Dir (AList.update name (File data) es)"
    by (auto simp: write_root_file_def split: node.splits option.splits)
  obtain x xs where p: "p = x # xs" using ne by (cases p) auto
  with assms(2) have "x \<noteq> name" by simp
  then show ?thesis using root root' p by (simp add: map_of_update_other)
qed

lemma write_root_file_resolve_same:
  "write_root_file root name data = Inr root' \<Longrightarrow> resolve root' [name] = Inr (File data)"
  by (auto simp: write_root_file_def update_conv' split: node.splits option.splits)

lemma write_root_file_Inr_iff:
  "(\<exists>root'. write_root_file root name data = Inr root') \<longleftrightarrow>
     (\<exists>es. root = Dir es \<and> (\<forall>es'. map_of es name \<noteq> Some (Dir es')))"
  by (auto simp: write_root_file_def split: node.splits option.splits)

lemma distinct_update_keys:
  "distinct (map fst es) \<Longrightarrow> distinct (map fst (AList.update k v es))"
  by (simp add: distinct_update)

lemma list_all_update:
  "list_all P es \<Longrightarrow> P (k, v) \<Longrightarrow> list_all P (AList.update k v es)"
  by (induction es) auto

lemma write_root_file_wf:
  assumes "wf_node root" and "proper_seg name" and "write_root_file root name data = Inr root'"
  shows "wf_node root'"
proof -
  from assms(3) obtain es where root: "root = Dir es" and root': "root' = Dir (AList.update name (File data) es)"
    by (auto simp: write_root_file_def split: node.splits option.splits)
  with assms(1,2) show ?thesis
    by (simp add: distinct_update_keys list_all_update)
qed

lemma wf_resolve:
  "wf_node n \<Longrightarrow> resolve n p = Inr m \<Longrightarrow> wf_node m"
proof (induction n p rule: resolve.induct)
  case (3 es x xs)
  then obtain n where "map_of es x = Some n" and "resolve n xs = Inr m"
    by (auto split: option.splits)
  moreover from this(1) have "(x, n) \<in> set es" by (rule map_of_SomeD)
  ultimately show ?case using 3 by (auto simp: list_all_iff)
qed auto

lemma wf_resolve_names:
  "wf_node n \<Longrightarrow> resolve n p = Inr m \<Longrightarrow> \<forall>s \<in> set p. proper_seg s"
proof (induction n p rule: resolve.induct)
  case (3 es x xs)
  then obtain n where "map_of es x = Some n" and "resolve n xs = Inr m"
    by (auto split: option.splits)
  moreover from this(1) have "(x, n) \<in> set es" by (rule map_of_SomeD)
  ultimately show ?case using 3 by (auto simp: list_all_iff)
qed auto

text \<open>A name that resolves inside a directory is among the names \<open>readdirSync\<close>
  lists for it.\<close>

lemma readdir_sync_lists:
  assumes "resolve root (p @ [n]) = Inr x" and "readdir_sync root p = Inr names"
  shows "n \<in> set names"
proof -
  from assms(2) obtain es where d: "resolve root p = Inr (Dir es)" and names: "names = map fst es"
    by (auto simp: readdir_sync_Inr)
  from assms(1) d have "map_of es n = Some x" by (simp add: resolve_append split: option.splits)
  then have "(n, x) \<in> set es" by (rule map_of_SomeD)
  with names show ?thesis by force
qed

end
