(* ===== verification/Glob.thy ===== *)
theory Glob
  imports FileTree
begin

text \<open>
  The file enumerator, \<open>glob('**/*.md', {cwd, ignore: ['**/README.md', 'meta/**',
  'templates/**']})\<close> (glob with its defaults on Linux: case-sensitive, \<open>dot: false\<close>,
  directories matched like files, results relative to \<open>cwd\<close> with \<open>/\<close> separators).
  \<open>**\<close> spans any number of segments, none of them starting with a dot, and \<open>*.md\<close> is a
  last segment that ends in \<open>.md\<close> and does not start with a dot. The ignore patterns
  drop a path whose last segment is \<open>README.md\<close> (at any depth, the root included)
  and every path whose first segment is \<open>meta\<close> or \<open>templates\<close>: those two are
  anchored at the root. \<open>glob_matches\<close> enumerates the tree in directory order; glob
  itself promises no order, so the script is modelled over any enumeration with the
  same elements (\<open>valid_enum\<close>).
\<close>

definition dot_free :: "string list \<Rightarrow> bool" where
  "dot_free p \<longleftrightarrow> (\<forall>s \<in> set p. \<not> starts_with s ''.'')"

definition matches_md :: "string list \<Rightarrow> bool" where
  "matches_md p \<longleftrightarrow> p \<noteq> [] \<and> dot_free p \<and> ends_with (last p) ''.md''"

definition ignored :: "string list \<Rightarrow> bool" where
  "ignored p \<longleftrightarrow> p \<noteq> [] \<and> (last p = ''README.md'' \<or> hd p = ''meta'' \<or> hd p = ''templates'')"

definition selected :: "string list \<Rightarrow> bool" where
  "selected p \<longleftrightarrow> matches_md p \<and> \<not> ignored p"

text \<open>Every path of the tree (files and directories), in directory order.\<close>

fun all_paths :: "node \<Rightarrow> string list list" where
  "all_paths (File c) = [[]]"
| "all_paths (Dir es) = [] # concat (map (\<lambda>(k, n). map ((#) k) (all_paths n)) es)"

definition glob_matches :: "node \<Rightarrow> string list list" where
  "glob_matches t = filter selected (all_paths t)"

definition glob_result :: "node \<Rightarrow> string list" where
  "glob_result t = map join_path (glob_matches t)"

text \<open>An enumeration glob may return: the same matches, each once, in any order.\<close>

definition valid_enum :: "node \<Rightarrow> string list \<Rightarrow> bool" where
  "valid_enum t files \<longleftrightarrow> distinct files \<and> set files = set (glob_result t)"

section \<open>Lemmas\<close>

lemma set_all_paths:
  "wf_node t \<Longrightarrow> set (all_paths t) = {p. \<exists>n. resolve t p = Inr n}"
proof (induction t rule: all_paths.induct)
  case (1 c)
  show ?case
  proof (intro set_eqI iffI)
    fix p assume "p \<in> {p. \<exists>n. resolve (File c) p = Inr n}"
    then show "p \<in> set (all_paths (File c))" by (cases p) auto
  qed auto
next
  case (2 es)
  have dist: "distinct (map fst es)" and sub: "\<And>k n. (k, n) \<in> set es \<Longrightarrow> wf_node n"
    using "2.prems" by (auto simp: list_all_iff)
  show ?case
  proof (intro set_eqI iffI)
    fix p assume "p \<in> set (all_paths (Dir es))"
    then consider "p = []" | k n q where "(k, n) \<in> set es" "q \<in> set (all_paths n)" "p = k # q"
      by auto
    then show "p \<in> {p. \<exists>n. resolve (Dir es) p = Inr n}"
    proof cases
      case (2 k n q)
      then have "map_of es k = Some n" using dist by simp
      moreover obtain m where "resolve n q = Inr m" using "2.IH" 2 sub by fastforce
      ultimately show ?thesis using 2 by simp
    qed simp
  next
    fix p assume "p \<in> {p. \<exists>n. resolve (Dir es) p = Inr n}"
    then obtain m where r: "resolve (Dir es) p = Inr m" by blast
    show "p \<in> set (all_paths (Dir es))"
    proof (cases p)
      case (Cons k q)
      with r obtain n where kn: "map_of es k = Some n" and "resolve n q = Inr m"
        by (auto split: option.splits)
      moreover have "(k, n) \<in> set es" using kn by (rule map_of_SomeD)
      ultimately have "q \<in> set (all_paths n)" using "2.IH" sub by blast
      with \<open>(k, n) \<in> set es\<close> Cons show ?thesis by force
    qed simp
  qed
qed

lemma distinct_concat_map_prefix:
  "distinct (map fst es) \<Longrightarrow> (\<And>k n. (k, n) \<in> set es \<Longrightarrow> distinct (f n)) \<Longrightarrow>
   distinct (concat (map (\<lambda>(k, n). map ((#) k) (f n)) es))"
proof (induction es)
  case (Cons e es)
  obtain k n where e: "e = (k, n)" by fastforce
  have "distinct (f n)" using Cons.prems(2) [of k n] e by simp
  then have "distinct (map ((#) k) (f n))" by (simp add: distinct_map)
  moreover have "set (map ((#) k) (f n)) \<inter> set (concat (map (\<lambda>(k, n). map ((#) k) (f n)) es)) = {}"
    using Cons.prems(1) e by (force simp: image_iff)
  moreover have "distinct (concat (map (\<lambda>(k, n). map ((#) k) (f n)) es))"
    using Cons.prems by (intro Cons.IH) auto
  ultimately show ?case using e by simp
qed simp

lemma distinct_all_paths: "wf_node t \<Longrightarrow> distinct (all_paths t)"
proof (induction t rule: all_paths.induct)
  case (2 es)
  then have "distinct (concat (map (\<lambda>(k, n). map ((#) k) (all_paths n)) es))"
    by (intro distinct_concat_map_prefix) (auto simp: list_all_iff)
  then show ?case by auto
qed simp

lemma set_glob_matches:
  "wf_node t \<Longrightarrow> set (glob_matches t) = {p. selected p \<and> (\<exists>n. resolve t p = Inr n)}"
  by (auto simp: glob_matches_def set_all_paths)

lemma distinct_glob_matches: "wf_node t \<Longrightarrow> distinct (glob_matches t)"
  by (simp add: glob_matches_def distinct_all_paths)

lemma selected_not_Nil: "selected p \<Longrightarrow> p \<noteq> []"
  by (simp add: selected_def matches_md_def)

lemma glob_match_segments:
  "wf_node t \<Longrightarrow> p \<in> set (glob_matches t) \<Longrightarrow> p \<noteq> [] \<and> (\<forall>s \<in> set p. proper_seg s)"
  by (auto simp: set_glob_matches selected_not_Nil dest: wf_resolve_names)

text \<open>A path glob returns, split at its slashes, gives back the segments it was
  found at: the round trip that lets the script's string paths address the tree.\<close>

lemma split_glob_result:
  "wf_node t \<Longrightarrow> p \<in> set (glob_matches t) \<Longrightarrow> split_on CHR ''/'' (join_path p) = p"
proof -
  assume "wf_node t" and "p \<in> set (glob_matches t)"
  then have "p \<noteq> []" and "\<forall>s \<in> set p. proper_seg s" using glob_match_segments by blast+
  then show ?thesis by (simp add: split_on_join_with proper_segs_no_slash)
qed

lemma distinct_glob_result: "wf_node t \<Longrightarrow> distinct (glob_result t)"
proof -
  assume wf: "wf_node t"
  have "inj_on join_path (set (glob_matches t))"
    by (rule inj_onI) (metis split_glob_result wf)
  with wf show ?thesis by (simp add: glob_result_def distinct_map distinct_glob_matches)
qed

lemma valid_enum_glob_result: "wf_node t \<Longrightarrow> valid_enum t (glob_result t)"
  by (simp add: valid_enum_def distinct_glob_result)

lemma join_path_starts_with_dir:
  assumes "\<forall>s \<in> set p. proper_seg s" and "p \<noteq> []" and "CHR ''/'' \<notin> set d"
    and "starts_with (join_path p) (d @ ''/'')"
  shows "hd p = d"
proof -
  obtain x xs where p: "p = x # xs" using assms(2) by (cases p) auto
  have jp: "join_path p = x @ (if xs = [] then [] else CHR ''/'' # join_path xs)"
    using p by (cases xs) auto
  have "x = d"
    by (rule starts_with_sep_piece [of _ x d "if xs = [] then [] else CHR ''/'' # join_path xs"])
       (use assms p jp in \<open>auto simp: proper_seg_def\<close>)
  with p show ?thesis by simp
qed

lemma valid_enum_member:
  assumes "wf_node t" and "valid_enum t files" and "f \<in> set files"
  obtains p where "p \<in> set (glob_matches t)" and "f = join_path p" and "split_on CHR ''/'' f = p"
  using assms by (auto simp: valid_enum_def glob_result_def split_glob_result)

text \<open>\<open>path.join(file)\<close> leaves every path glob returns as it is.\<close>

lemma path_join1_enumerated:
  assumes "wf_node t" and "valid_enum t files" and "f \<in> set files"
  shows "path_join1 f = f"
proof -
  obtain p where "p \<in> set (glob_matches t)" and f: "f = join_path p"
    using assms by (rule valid_enum_member)
  with assms(1) have "p \<noteq> []" and "\<forall>s \<in> set p. proper_seg s" using glob_match_segments by blast+
  then show ?thesis unfolding f by (simp add: path_join1_join_path)
qed

lemma map_path_join1_enumerated:
  "wf_node t \<Longrightarrow> valid_enum t files \<Longrightarrow> map path_join1 files = files"
  by (rule map_idI) (rule path_join1_enumerated)

end
