(* ===== verification/JsValue.thy ===== *)
theory JsValue
  imports Prelude "HOL-Library.AList"
begin

text \<open>
  The JavaScript values the script builds and prints. An object is the ordered list
  of its own properties (insertion order, which is the order \<open>JSON.stringify\<close>
  visits them); \<open>undefined\<close> is a value of its own, so that an entry built as
  \<open>{path, metadata, ...{metrics: undefined}}\<close> has a \<open>metrics\<close> property holding it.
  Numbers are the integers front matter and metrics files use. Objects that the
  script mutates after creating them (the front-matter data of gray-matter) live in
  a heap of objects addressed by \<open>nat\<close>, as in Imperative_HOL's reference model:
  allocation appends, a property assignment rewrites one cell, and every holder of
  the address sees the change.

  \<open>stringify\<close> is \<open>JSON.stringify(v, null, 2)\<close> as ECMAScript specifies it
  (SerializeJSONProperty, QuoteJSONString, SerializeJSONObject and
  SerializeJSONArray with a gap of two spaces); \<open>None\<close> is the value \<open>undefined\<close>.
\<close>

datatype jval = JUndef | JNull | JBool bool | JNum int | JStr string
  | JArr "jval list" | JObj "(string \<times> jval) list"

type_synonym obj = "(string \<times> jval) list"

section \<open>Objects and the heap\<close>

text \<open>\<open>o[k] = v\<close> on an ordinary object: an existing property keeps its place,
  a new one goes last.\<close>

definition obj_set :: "string \<Rightarrow> jval \<Rightarrow> obj \<Rightarrow> obj" where
  "obj_set k v ob = AList.update k v ob"

type_synonym heap = "obj list"

definition heap_alloc :: "obj \<Rightarrow> heap \<Rightarrow> nat \<times> heap" where
  "heap_alloc ob h = (length h, h @ [ob])"

definition heap_modify :: "nat \<Rightarrow> (obj \<Rightarrow> obj) \<Rightarrow> heap \<Rightarrow> heap" where
  "heap_modify a f h = (if a < length h then h[a := f (h ! a)] else h)"

section \<open>JSON.stringify\<close>

abbreviation backslash :: char where
  "backslash \<equiv> CHR 0x5C"

abbreviation dquote :: char where
  "dquote \<equiv> CHR 0x22"

abbreviation newline :: char where
  "newline \<equiv> CHR 0x0A"

definition hex_digit :: "nat \<Rightarrow> char" where
  "hex_digit d = ''0123456789abcdef'' ! d"

text \<open>One code unit of QuoteJSONString: the short escapes, \<open>\u00XX\<close> with lower-case
  hex digits for the other control characters, everything else as it is.\<close>

definition quote_char :: "char \<Rightarrow> string" where
  "quote_char ch =
     (if ch = CHR 0x08 then [backslash, CHR ''b'']
      else if ch = CHR 0x09 then [backslash, CHR ''t'']
      else if ch = CHR 0x0A then [backslash, CHR ''n'']
      else if ch = CHR 0x0C then [backslash, CHR ''f'']
      else if ch = CHR 0x0D then [backslash, CHR ''r'']
      else if ch = dquote then [backslash, dquote]
      else if ch = backslash then [backslash, backslash]
      else if of_char ch < (32::nat) then
        [backslash, CHR ''u'', CHR ''0'', CHR ''0'', hex_digit (of_char ch div 16), hex_digit (of_char ch mod 16)]
      else [ch])"

definition json_quote :: "string \<Rightarrow> string" where
  "json_quote s = dquote # concat (map quote_char s) @ [dquote]"

text \<open>\<open>Number::toString\<close> on an integral value.\<close>

definition int_string :: "int \<Rightarrow> string" where
  "int_string n = (if n < 0 then CHR ''-'' # dec_string (nat (- n)) else dec_string (nat n))"

text \<open>\<open>Array.prototype.join\<close> with a separator string.\<close>

fun join_sep :: "string \<Rightarrow> string list \<Rightarrow> string" where
  "join_sep sep [] = []"
| "join_sep sep [x] = x"
| "join_sep sep (x # y # xs) = x @ sep @ join_sep sep (y # xs)"

definition gap :: string where
  "gap = ''  ''"

text \<open>The bracketing shared by SerializeJSONObject and SerializeJSONArray: nothing
  inside gives \<open>{}\<close> or \<open>[]\<close>; otherwise one member per line, indented one step
  deeper than the enclosing value, and the closing bracket back at its indent.\<close>

definition wrap_members :: "string \<Rightarrow> char \<Rightarrow> char \<Rightarrow> string list \<Rightarrow> string" where
  "wrap_members ind op cl items =
     (if items = [] then [op, cl]
      else op # newline # (ind @ gap) @ join_sep ('','' @ newline # ind @ gap) items
             @ newline # ind @ [cl])"

text \<open>SerializeJSONProperty at indent \<open>ind\<close>: \<open>undefined\<close> yields nothing; inside an
  array it is printed \<open>null\<close>, inside an object its property is left out.\<close>

fun ser :: "string \<Rightarrow> jval \<Rightarrow> string option" where
  "ser ind JUndef = None"
| "ser ind JNull = Some ''null''"
| "ser ind (JBool b) = Some (if b then ''true'' else ''false'')"
| "ser ind (JNum n) = Some (int_string n)"
| "ser ind (JStr s) = Some (json_quote s)"
| "ser ind (JArr vs) =
     Some (wrap_members ind CHR ''['' CHR '']''
       (map (\<lambda>v. case ser (ind @ gap) v of None \<Rightarrow> ''null'' | Some s \<Rightarrow> s) vs))"
| "ser ind (JObj ps) =
     Some (wrap_members ind CHR ''{'' CHR ''}''
       (concat (map (\<lambda>(k, v). case ser (ind @ gap) v of None \<Rightarrow> [] | Some s \<Rightarrow> [json_quote k @ '': '' @ s]) ps)))"

definition stringify :: "jval \<Rightarrow> string option" where
  "stringify v = ser [] v"

section \<open>Lemmas\<close>

lemma ser_None_iff [simp]: "ser ind v = None \<longleftrightarrow> v = JUndef"
  by (cases v) auto

lemma ser_obj_filter_undef:
  "ser ind (JObj ps) = ser ind (JObj (filter (\<lambda>(k, v). v \<noteq> JUndef) ps))"
proof -
  have "concat (map (\<lambda>(k, v). case ser (ind @ gap) v of None \<Rightarrow> [] | Some s \<Rightarrow> [json_quote k @ '': '' @ s]) ps) =
        concat (map (\<lambda>(k, v). case ser (ind @ gap) v of None \<Rightarrow> [] | Some s \<Rightarrow> [json_quote k @ '': '' @ s])
          (filter (\<lambda>(k, v). v \<noteq> JUndef) ps))"
    by (induction ps) (auto split: option.splits)
  then show ?thesis by simp
qed

lemma stringify_empty_array [json_simps]: "stringify (JArr []) = Some ''[]''"
  by (simp add: stringify_def wrap_members_def)

lemma map_of_obj_set: "map_of (obj_set k v ob) = (map_of ob)(k \<mapsto> v)"
  by (simp add: obj_set_def update_conv')

lemma keys_obj_set: "map fst (obj_set k v ob) = (if k \<in> fst ` set ob then map fst ob else map fst ob @ [k])"
  by (induction ob) (auto simp: obj_set_def)

lemma distinct_obj_set: "distinct (map fst ob) \<Longrightarrow> distinct (map fst (obj_set k v ob))"
  by (simp add: obj_set_def distinct_update)

lemma obj_set_idem: "obj_set k v (obj_set k v ob) = obj_set k v ob"
  by (induction ob) (auto simp: obj_set_def)

lemma length_heap_modify [simp]: "length (heap_modify a f h) = length h"
  by (simp add: heap_modify_def)

lemma nth_heap_modify:
  "b < length h \<Longrightarrow> heap_modify a f h ! b = (if b = a then f (h ! a) else h ! b)"
  by (auto simp: heap_modify_def)

lemma heap_alloc_fresh:
  "heap_alloc ob h = (a, h') \<Longrightarrow> a = length h \<and> h' ! a = ob \<and> length h' = Suc (length h)"
  by (auto simp: heap_alloc_def)

lemma heap_alloc_old:
  "heap_alloc ob h = (a, h') \<Longrightarrow> b < length h \<Longrightarrow> h' ! b = h ! b"
  by (auto simp: heap_alloc_def nth_append)

end
