(* ===== verification/GrayMatter.thy ===== *)
theory GrayMatter
  imports JsValue
begin

text \<open>
  \<open>matter(fileContent)\<close> of the gray-matter package, called without options. Two
  parts matter to the script. The split (\<open>parseMatter\<close>): a document opens with
  front matter when it starts with \<open>---\<close> not followed by a fourth \<open>-\<close>; an optional
  language name follows on that line; the matter runs to the first \<open>\n---\<close> (or to
  the end); a block that is empty once comment lines are removed and whitespace is
  trimmed gives \<open>{}\<close> without calling a parser; otherwise the engine registered
  for the language (YAML by default) parses it and may throw. The engines are not
  modelled: \<open>engine\<close> is the interface, a function from the language and the raw
  matter to the data object or the thrown message. And the cache: \<open>matter.cache\<close>
  is keyed by the whole input string; a hit returns a shallow copy of the cached
  file whose \<open>data\<close> is the cached object itself. The data object is therefore
  allocated in the shared heap, and the cache maps contents to its address.
\<close>

type_synonym engine = "string \<Rightarrow> string \<Rightarrow> string + obj"

record gm_state =
  heap :: heap
  cache :: "(string \<times> nat) list"

section \<open>Splitting off the front matter\<close>

definition fm_open :: string where
  "fm_open = ''---''"

text \<open>\<open>str.search(/\r?\n/)\<close>.\<close>

fun line_break_at :: "string \<Rightarrow> nat option" where
  "line_break_at [] = None"
| "line_break_at (c # cs) =
     (if c = newline \<or> (c = CHR 0x0D \<and> cs \<noteq> [] \<and> hd cs = newline) then Some 0
      else map_option Suc (line_break_at cs))"

text \<open>\<open>matter.language\<close>: \<open>str.slice(0, str.search(/\r?\n/))\<close>; with no line
  break the index is \<open>-1\<close> and the slice drops the last character.\<close>

definition language_raw :: "string \<Rightarrow> string" where
  "language_raw s = (case line_break_at s of Some i \<Rightarrow> take i s | None \<Rightarrow> butlast s)"

text \<open>\<open>str.indexOf(sub)\<close>.\<close>

fun index_of :: "string \<Rightarrow> string \<Rightarrow> nat option" where
  "index_of [] p = (if p = [] then Some 0 else None)"
| "index_of (c # cs) p = (if starts_with (c # cs) p then Some 0 else map_option Suc (index_of cs p))"

text \<open>\<open>block.replace(/^\s*#[^\n]+/gm, '').trim() === ''\<close>: every line is blank or a
  comment with at least one character after the \<open>#\<close>.\<close>

definition comment_line :: "string \<Rightarrow> bool" where
  "comment_line l \<longleftrightarrow> (let r = dropWhile is_space l in r \<noteq> [] \<and> hd r = CHR ''#'' \<and> tl r \<noteq> [])"

definition blank_block :: "string \<Rightarrow> bool" where
  "blank_block m \<longleftrightarrow> (\<forall>l \<in> set (split_on newline m). (\<forall>c \<in> set l. is_space c) \<or> comment_line l)"

definition parse_matter :: "engine \<Rightarrow> string \<Rightarrow> string + obj" where
  "parse_matter eng str =
     (if \<not> starts_with str fm_open then Inr []
      else if drop 3 str \<noteq> [] \<and> hd (drop 3 str) = CHR ''-'' then Inr []
      else
        let s0 = drop 3 str;
            raw = language_raw s0;
            name = trim raw;
            lang = (if name = [] then ''yaml'' else name);
            s = (if name = [] then s0 else drop (length raw) s0);
            ci = (case index_of s (newline # fm_open) of Some i \<Rightarrow> i | None \<Rightarrow> length s0);
            m = take ci s
        in if blank_block m then Inr [] else eng lang m)"

section \<open>The cached entry point\<close>

definition gray_matter :: "engine \<Rightarrow> string \<Rightarrow> 'a gm_state_scheme \<Rightarrow> string + nat \<times> 'a gm_state_scheme" where
  "gray_matter eng input st =
     (if input = [] then
        (let (a, h) = heap_alloc [] (heap st) in Inr (a, st\<lparr>heap := h\<rparr>))
      else
        (case map_of (cache st) input of
           Some a \<Rightarrow> Inr (a, st)
         | None \<Rightarrow>
             (case parse_matter eng input of
                Inl e \<Rightarrow> Inl e
              | Inr d \<Rightarrow>
                  (let (a, h) = heap_alloc d (heap st)
                   in Inr (a, st\<lparr>heap := h, cache := (input, a) # cache st\<rparr>)))))"

text \<open>Every cached address points into the heap.\<close>

definition gm_inv :: "'a gm_state_scheme \<Rightarrow> bool" where
  "gm_inv st \<longleftrightarrow> (\<forall>(c, a) \<in> set (cache st). a < length (heap st))"

text \<open>Every cached content is one the engine parsed: a throw is never cached.\<close>

definition cache_parses :: "engine \<Rightarrow> 'a gm_state_scheme \<Rightarrow> bool" where
  "cache_parses eng st \<longleftrightarrow> (\<forall>(c, a) \<in> set (cache st). \<exists>d. parse_matter eng c = Inr d)"

section \<open>Lemmas\<close>

lemma parse_matter_plain [simp]:
  "\<not> starts_with str fm_open \<Longrightarrow> parse_matter eng str = Inr []"
  by (simp add: parse_matter_def)

lemma gray_matter_hit:
  "input \<noteq> [] \<Longrightarrow> map_of (cache st) input = Some a \<Longrightarrow> gray_matter eng input st = Inr (a, st)"
  by (simp add: gray_matter_def)

lemma gray_matter_miss:
  "input \<noteq> [] \<Longrightarrow> map_of (cache st) input = None \<Longrightarrow> parse_matter eng input = Inr d \<Longrightarrow>
   gray_matter eng input st =
     Inr (length (heap st), st\<lparr>heap := heap st @ [d], cache := (input, length (heap st)) # cache st\<rparr>)"
  by (simp add: gray_matter_def heap_alloc_def)

lemma gray_matter_empty:
  "gray_matter eng [] st = Inr (length (heap st), st\<lparr>heap := heap st @ [[]]\<rparr>)"
  by (simp add: gray_matter_def heap_alloc_def)

lemma gray_matter_cases:
  assumes "gray_matter eng input st = Inr (a, st')"
  obtains (fresh) d where "heap st' = heap st @ [d]" and "a = length (heap st)"
      and "cache st' = cache st \<or> cache st' = (input, a) # cache st"
      and "more st' = more st"
    | (hit) "st' = st" and "map_of (cache st) input = Some a"
  using assms by (auto simp: gray_matter_def heap_alloc_def split: if_splits option.splits sum.splits)

lemma gray_matter_inv:
  assumes "gray_matter eng input st = Inr (a, st')" and "gm_inv st"
  shows "gm_inv st'" and "a < length (heap st')"
  using assms by (cases rule: gray_matter_cases; force simp: gm_inv_def dest: map_of_SomeD)+

lemma gray_matter_heap_extends:
  "gray_matter eng input st = Inr (a, st') \<Longrightarrow> \<exists>ext. heap st' = heap st @ ext"
  by (cases rule: gray_matter_cases) auto

lemma gray_matter_Inl:
  "gray_matter eng input st = Inl e \<longleftrightarrow>
     input \<noteq> [] \<and> map_of (cache st) input = None \<and> parse_matter eng input = Inl e"
  by (auto simp: gray_matter_def split: if_splits option.splits sum.splits prod.splits)

lemma cache_parses_step:
  assumes "gray_matter eng input st = Inr (a, st')" and "cache_parses eng st"
  shows "cache_parses eng st'"
  using assms(1)
proof (cases rule: gray_matter_cases)
  case (fresh d)
  show ?thesis
  proof (cases "cache st' = cache st")
    case False
    with fresh(3) have c: "cache st' = (input, a) # cache st" by simp
    from assms(1) c have "\<exists>d. parse_matter eng input = Inr d"
      by (auto simp: gray_matter_def heap_alloc_def split: if_splits option.splits sum.splits)
    with c assms(2) show ?thesis by (simp add: cache_parses_def)
  qed (use assms(2) in \<open>simp add: cache_parses_def\<close>)
qed (use assms(2) in simp)

text \<open>A front-matter block the engine rejects throws on its first occurrence, and
  every later one, since it is never cached.\<close>

lemma gray_matter_parse_fail:
  assumes "cache_parses eng st" and "parse_matter eng input = Inl m"
  shows "gray_matter eng input st = Inl m"
proof -
  have ne: "input \<noteq> []" using assms(2) by (auto simp: parse_matter_def starts_with_def fm_open_def)
  have "map_of (cache st) input = None"
  proof (rule ccontr)
    assume "map_of (cache st) input \<noteq> None"
    then obtain a where "(input, a) \<in> set (cache st)" by (auto dest: map_of_SomeD)
    with assms show False by (auto simp: cache_parses_def)
  qed
  with ne assms(2) show ?thesis by (simp add: gray_matter_Inl)
qed

end
