(* ===== verification/JsSort.thy ===== *)
theory JsSort
  imports Prelude
begin

text \<open>
  \<open>indexData.sort((a, b) => a.path.localeCompare(b.path))\<close>. ECMAScript requires
  \<open>Array.prototype.sort\<close> to be stable, and for a consistent comparator that fixes its
  result: the elements in comparator order, ties in their original order.
  \<open>js_sort\<close> is that stable sort, written as the insertion sort the comparator
  drives. \<open>String.prototype.localeCompare\<close> is ICU collation: it compares the
  collation sort keys of the two strings, so it is modelled by the sort key
  \<open>key :: string \<Rightarrow> 'k\<close> of the host's locale, an arbitrary function into a
  linear order. Distinct strings may share a key (ICU ignores some code points),
  which is where a tie can arise between distinct paths.

  The lemmas show that \<open>js_sort\<close> refines the library's stable \<open>sort_key\<close>, and
  that any list that is a sorted, stable permutation of the input equals it: any
  conforming engine computes the same array.
\<close>

definition locale_compare :: "(string \<Rightarrow> 'k::linorder) \<Rightarrow> string \<Rightarrow> string \<Rightarrow> int" where
  "locale_compare key a b = (if key a < key b then -1 else if key a = key b then 0 else 1)"

fun ins_cmp :: "('a \<Rightarrow> 'a \<Rightarrow> int) \<Rightarrow> 'a \<Rightarrow> 'a list \<Rightarrow> 'a list" where
  "ins_cmp c x [] = [x]"
| "ins_cmp c x (y # ys) = (if c x y \<le> 0 then x # y # ys else y # ins_cmp c x ys)"

definition js_sort :: "('a \<Rightarrow> 'a \<Rightarrow> int) \<Rightarrow> 'a list \<Rightarrow> 'a list" where
  "js_sort c xs = foldr (ins_cmp c) xs []"

text \<open>The comparator the script passes, on a projection of the elements.\<close>

definition by_key :: "(string \<Rightarrow> 'k::linorder) \<Rightarrow> ('a \<Rightarrow> string) \<Rightarrow> 'a \<Rightarrow> 'a \<Rightarrow> int" where
  "by_key key f a b = locale_compare key (f a) (f b)"

section \<open>Lemmas\<close>

lemma locale_compare_le_0: "locale_compare key a b \<le> 0 \<longleftrightarrow> key a \<le> key b"
  by (auto simp: locale_compare_def)

lemma ins_cmp_insort_key:
  "ins_cmp (by_key key f) x ys = insort_key (\<lambda>a. key (f a)) x ys"
  by (induction ys) (auto simp: by_key_def locale_compare_le_0)

lemma js_sort_sort_key:
  "js_sort (by_key key f) xs = sort_key (\<lambda>a. key (f a)) xs"
  by (simp add: js_sort_def sort_key_def ins_cmp_insort_key [abs_def])

lemma mset_js_sort: "mset (js_sort (by_key key f) xs) = mset xs"
  by (simp add: js_sort_sort_key)

lemma sorted_js_sort: "sorted (map (\<lambda>a. key (f a)) (js_sort (by_key key f) xs))"
  by (simp add: js_sort_sort_key)

lemma stable_js_sort:
  "filter (\<lambda>y. key (f y) = k) (js_sort (by_key key f) xs) = filter (\<lambda>y. key (f y) = k) xs"
  by (simp add: js_sort_sort_key sort_key_stable)

text \<open>Uniqueness: every stable sorted permutation is the one \<open>js_sort\<close> computes.\<close>

lemma js_sort_unique:
  assumes "mset ys = mset xs"
    and "\<And>k. filter (\<lambda>y. key (f y) = k) ys = filter (\<lambda>y. key (f y) = k) xs"
    and "sorted (map (\<lambda>a. key (f a)) ys)"
  shows "js_sort (by_key key f) xs = ys"
  unfolding js_sort_sort_key
proof (rule properties_for_sort_key)
  show "mset ys = mset xs" by (rule assms(1))
  show "sorted (map (\<lambda>a. key (f a)) ys)" by (rule assms(3))
  fix k assume "k \<in> set ys"
  have "(\<lambda>x. key (f k) = key (f x)) = (\<lambda>y. key (f y) = key (f k))" by auto
  then show "filter (\<lambda>x. key (f k) = key (f x)) ys = filter (\<lambda>x. key (f k) = key (f x)) xs"
    using assms(2) [of "key (f k)"] by simp
qed

text \<open>Without ties the order of the input does not matter.\<close>

lemma js_sort_perm_invariant:
  assumes "mset xs = mset xs'" and "inj_on (\<lambda>a. key (f a)) (set xs)"
  shows "js_sort (by_key key f) xs = js_sort (by_key key f) xs'"
proof -
  have "set xs = set xs'" using assms(1) by (rule mset_eq_setD)
  have "sort_key (\<lambda>a. key (f a)) xs = sort_key (\<lambda>a. key (f a)) xs'"
  proof (rule sort_key_inj_key_eq)
    show "mset xs = mset (sort_key (\<lambda>a. key (f a)) xs')" using assms(1) by simp
    show "inj_on (\<lambda>a. key (f a)) (set xs)" by (rule assms(2))
    show "sorted (map (\<lambda>a. key (f a)) (sort_key (\<lambda>a. key (f a)) xs'))" by simp
  qed
  then show ?thesis by (simp add: js_sort_sort_key)
qed

end
