(* ===== verification/Entry.thy ===== *)
theory Entry
  imports Glob GrayMatter JsSort
begin

text \<open>
  The entry builder: the body of the \<open>for (const file of files)\<close> loop of
  \<open>generateDelegateIndex\<close> (lines 60--108) and the loop itself. The state it threads
  is the gray-matter state (the object heap and the content cache), the
  \<open>indexData\<close> array and the console lines written so far. Every \<open>fs\<close> call and
  \<open>matter\<close> may throw; a throw leaves the loop (\<open>Inl\<close>) with the state reached
  before the failing file, and the script's outer \<open>catch\<close> takes over. The only
  recovered error is a \<open>JSON.parse\<close> failure on \<open>metrics.json\<close>, which is logged.
  The libraries the script calls and the host it runs on form the interface
  \<open>env\<close>: the directory, gray-matter's engines, \<open>JSON.parse\<close>, and the collation
  key of \<open>localeCompare\<close>.
\<close>

record 'k env =
  dir_path :: string
  engine :: engine
  json_parse :: "string \<Rightarrow> string + jval"
  collate :: "string \<Rightarrow> 'k"

record entry =
  e_path :: string
  e_metadata :: nat
  e_metrics :: jval

datatype line = Out string | Err string

datatype exn = FsExn fs_error | MatterExn string | TypeExn string

record run_state = gm_state +
  index_data :: "entry list"
  log :: "line list"

definition metrics_file_name :: string where
  "metrics_file_name = ''metrics.json''"

section \<open>The steps of one file\<close>

text \<open>Lines 68--93: if the folder lists \<open>metrics.json\<close>, read it (a failed read
  throws) and parse it; a parse failure is logged with the document's relative path
  and the entry gets no metrics. \<open>JSON.parse\<close> throws a \<open>SyntaxError\<close>, an \<open>Error\<close>,
  so the message branch is the one taken.\<close>

definition load_metrics ::
  "'k env \<Rightarrow> node \<Rightarrow> string list \<Rightarrow> string list \<Rightarrow> string \<Rightarrow> exn + jval \<times> line list" where
  "load_metrics L root folder contents rel =
     (if metrics_file_name \<in> set contents then
        (case read_file_sync root (folder @ [metrics_file_name]) of
           Inl e \<Rightarrow> Inl (FsExn e)
         | Inr txt \<Rightarrow>
             (case json_parse L txt of
                Inr v \<Rightarrow> Inr (v, [])
              | Inl msg \<Rightarrow> Inr (JUndef, [Err (''Error parsing metrics file for '' @ rel @ '': '' @ msg)])))
      else Inr (JUndef, []))"

text \<open>Lines 95--101: the name of the document's folder, and the assignment
  \<open>metadata.address = dirName\<close> when it starts with \<open>0x\<close>. The assignment
  acts on the heap object the metadata reference points to (\<open>heap_modify\<close> in
  \<open>process_file\<close>); otherwise the object is left as it is.\<close>

definition dir_name :: "string \<Rightarrow> string" where
  "dir_name rel = posix_basename (posix_dirname rel)"

definition with_address :: "string \<Rightarrow> obj \<Rightarrow> obj" where
  "with_address rel md =
     (let dn = dir_name rel in if starts_with dn ''0x'' then obj_set ''address'' (JStr dn) md else md)"

text \<open>Lines 60--108 in order: read the document, \<open>matter\<close>, list its folder, the
  relative path, the metrics, the address, the push.\<close>

definition process_file :: "'k env \<Rightarrow> node \<Rightarrow> string \<Rightarrow> run_state \<Rightarrow> exn + run_state" where
  "process_file L root file st =
     (let segs = split_on CHR ''/'' file; folder = butlast segs in
      case read_file_sync root segs of
        Inl e \<Rightarrow> Inl (FsExn e)
      | Inr content \<Rightarrow>
          (case gray_matter (engine L) content st of
             Inl m \<Rightarrow> Inl (MatterExn m)
           | Inr (md, st1) \<Rightarrow>
               (case readdir_sync root folder of
                  Inl e \<Rightarrow> Inl (FsExn e)
                | Inr contents \<Rightarrow>
                    (let rel = path_join1 file in
                     case load_metrics L root folder contents rel of
                       Inl e \<Rightarrow> Inl e
                     | Inr (metrics, errs) \<Rightarrow>
                         (let st2 = st1\<lparr>heap := heap_modify md (with_address rel) (heap st1)\<rparr> in
                          Inr (st2\<lparr>index_data := index_data st2 @ [\<lparr>e_path = rel, e_metadata = md, e_metrics = metrics\<rparr>],
                                   log := log st2 @ errs\<rparr>))))))"

text \<open>The loop (lines 60--108): one file after the other, stopping at the first throw.\<close>

fun process_files :: "'k env \<Rightarrow> node \<Rightarrow> string list \<Rightarrow> run_state \<Rightarrow> (exn \<times> run_state) + run_state" where
  "process_files L root [] st = Inr st"
| "process_files L root (f # fs) st =
     (case process_file L root f st of
        Inl e \<Rightarrow> Inl (e, st)
      | Inr st' \<Rightarrow> process_files L root fs st')"

text \<open>The state invariant: every address the cache or an entry holds is allocated.\<close>

definition run_inv :: "run_state \<Rightarrow> bool" where
  "run_inv st \<longleftrightarrow> gm_inv st \<and> (\<forall>e \<in> set (index_data st). e_metadata e < length (heap st))"

section \<open>Lemmas\<close>

lemma load_metrics_Inr:
  "load_metrics L root folder contents rel = Inr (m, errs) \<longleftrightarrow>
     (metrics_file_name \<notin> set contents \<and> m = JUndef \<and> errs = []) \<or>
     (metrics_file_name \<in> set contents \<and>
      (\<exists>txt. read_file_sync root (folder @ [metrics_file_name]) = Inr txt \<and>
        ((json_parse L txt = Inr m \<and> errs = []) \<or>
         (\<exists>msg. json_parse L txt = Inl msg \<and> m = JUndef \<and>
            errs = [Err (''Error parsing metrics file for '' @ rel @ '': '' @ msg)]))))"
  by (auto simp: load_metrics_def split: sum.splits)

lemma process_file_Inr_E:
  assumes "process_file L root file st = Inr st'"
  obtains content md st1 contents m errs where
    "read_file_sync root (split_on CHR ''/'' file) = Inr content"
    "gray_matter (engine L) content st = Inr (md, st1)"
    "readdir_sync root (butlast (split_on CHR ''/'' file)) = Inr contents"
    "load_metrics L root (butlast (split_on CHR ''/'' file)) contents (path_join1 file) = Inr (m, errs)"
    "st' = st1\<lparr>heap := heap_modify md (with_address (path_join1 file)) (heap st1),
              index_data := index_data st1 @ [\<lparr>e_path = path_join1 file, e_metadata = md, e_metrics = m\<rparr>],
              log := log st1 @ errs\<rparr>"
  using assms by (auto simp: process_file_def Let_def split: sum.splits prod.splits)

lemma gray_matter_run_fields:
  "gray_matter eng c (st :: run_state) = Inr (md, st1) \<Longrightarrow> index_data st1 = index_data st \<and> log st1 = log st"
  by (auto simp: gray_matter_def heap_alloc_def split: if_splits option.splits sum.splits)

lemma process_file_inv:
  assumes "process_file L root file st = Inr st'" and "run_inv st"
  shows "run_inv st'"
  using assms(1)
proof (cases rule: process_file_Inr_E)
  case (1 content md st1 contents m errs)
  from 1(2) assms(2) have g: "gm_inv st1" and md: "md < length (heap st1)"
    by (auto simp: run_inv_def intro: gray_matter_inv)
  obtain ext where "heap st1 = heap st @ ext" using 1(2) by (blast dest: gray_matter_heap_extends)
  moreover from 1(2) have "index_data st1 = index_data st"
    by (simp add: gray_matter_run_fields)
  ultimately show ?thesis using 1(5) g md assms(2) by (auto simp: run_inv_def gm_inv_def)
qed

lemma process_files_inv:
  "process_files L root fs st = Inr st' \<Longrightarrow> run_inv st \<Longrightarrow> run_inv st'"
  by (induction fs arbitrary: st) (auto split: sum.splits intro: process_file_inv)

lemma process_files_Inl_inv:
  "process_files L root fs st = Inl (e, st') \<Longrightarrow> run_inv st \<Longrightarrow> run_inv st'"
  by (induction fs arbitrary: st) (auto split: sum.splits intro: process_file_inv)

lemma process_file_paths:
  assumes "process_file L root file st = Inr st'"
  shows "map e_path (index_data st') = map e_path (index_data st) @ [path_join1 file]"
  using assms
proof (cases rule: process_file_Inr_E)
  case (1 content md st1 contents m errs)
  moreover from 1(2) have "index_data st1 = index_data st"
    by (simp add: gray_matter_run_fields)
  ultimately show ?thesis by simp
qed

lemma process_files_paths:
  "process_files L root fs st = Inr st' \<Longrightarrow>
   map e_path (index_data st') = map e_path (index_data st) @ map path_join1 fs"
  by (induction fs arbitrary: st) (auto split: sum.splits dest: process_file_paths)

lemma run_inv_init: "run_inv \<lparr>heap = [], cache = [], index_data = [], log = []\<rparr>"
  by (simp add: run_inv_def gm_inv_def)

lemma process_files_append:
  "process_files L root (fs1 @ fs2) st =
     (case process_files L root fs1 st of Inl x \<Rightarrow> Inl x | Inr st' \<Rightarrow> process_files L root fs2 st')"
  by (induction fs1 arbitrary: st) (auto split: sum.splits)

text \<open>A loop that went through read every document it was given.\<close>

lemma process_files_Inr_reads:
  "process_files L root fs st = Inr st' \<Longrightarrow> f \<in> set fs \<Longrightarrow> \<exists>c. read_file_sync root (split_on CHR ''/'' f) = Inr c"
proof (induction fs arbitrary: st)
  case (Cons g fs)
  then obtain st1 where s1: "process_file L root g st = Inr st1" and r: "process_files L root fs st1 = Inr st'"
    by (auto split: sum.splits)
  show ?case
  proof (cases "f = g")
    case True
    from s1 show ?thesis unfolding True by (cases rule: process_file_Inr_E) blast
  next
    case False
    with Cons.prems(2) r show ?thesis by (intro Cons.IH) auto
  qed
qed simp

lemma process_file_cache_parses:
  assumes "cache_parses (engine L) st" and "process_file L root file st = Inr st'"
  shows "cache_parses (engine L) st'"
  using assms(2)
proof (cases rule: process_file_Inr_E)
  case (1 content md st1 contents m errs)
  from cache_parses_step [OF 1(2) assms(1)] 1(5) show ?thesis by (simp add: cache_parses_def)
qed

text \<open>A loop that went through took a step at every file, from a state with any
  property the steps preserve.\<close>

lemma process_files_Inr_step:
  assumes "process_files L root fs st = Inr st'" and "P st"
    and "\<And>g s s'. P s \<Longrightarrow> process_file L root g s = Inr s' \<Longrightarrow> P s'" and "f \<in> set fs"
  shows "\<exists>s s'. P s \<and> process_file L root f s = Inr s'"
  using assms(1,2,4)
proof (induction fs arbitrary: st)
  case (Cons g fs)
  then obtain st1 where s1: "process_file L root g st = Inr st1" and r: "process_files L root fs st1 = Inr st'"
    by (auto split: sum.splits)
  show ?case
  proof (cases "f = g")
    case True
    with s1 Cons.prems(2) show ?thesis by blast
  next
    case False
    with Cons.prems(3) have "f \<in> set fs" by simp
    with Cons.IH [OF r] assms(3) [OF Cons.prems(2) s1] show ?thesis by blast
  qed
qed simp

end
