(* ===== verification/Generate.thy ===== *)
theory Generate
  imports Entry
begin

text \<open>
  \<open>generateDelegateIndex\<close> (lines 33--123) as a function on the world the process
  sees: the directory tree (absent when \<open>delegateDirectory\<close> does not exist), the
  console lines printed so far (\<open>Out\<close> for \<open>console.log\<close>, \<open>Err\<close> for
  \<open>console.error\<close>, in the order they are written) and the exit code. The glob's
  result is an argument, \<open>files\<close>: any valid enumeration of the tree may be the one
  glob returns. The run prints, reads, builds the entries, sorts them, serialises
  them and writes \<open>index.json\<close> once; a throw anywhere is caught, printed, and ends
  the process with code 1 before anything is written.
\<close>

record world =
  root :: "node option"
  console :: "line list"
  exit_code :: nat

definition index_name :: string where
  "index_name = ''index.json''"

text \<open>\<open>indexFilePath = path.join(__dirname, '..', 'index.json')\<close>.\<close>

definition index_file_path :: "'k env \<Rightarrow> string" where
  "index_file_path L = dir_path L @ ''/'' @ index_name"

text \<open>An index entry as the object literal of lines 103--107.\<close>

definition entry_json :: "heap \<Rightarrow> entry \<Rightarrow> jval" where
  "entry_json h e =
     JObj [(''path'', JStr (e_path e)), (''metadata'', JObj (h ! e_metadata e)), (''metrics'', e_metrics e)]"

text \<open>Line 111.\<close>

definition sort_entries :: "('k::linorder) env \<Rightarrow> entry list \<Rightarrow> entry list" where
  "sort_entries L es = js_sort (by_key (collate L) e_path) es"

text \<open>The argument of \<open>writeFileSync\<close> at line 114.\<close>

definition index_text :: "heap \<Rightarrow> entry list \<Rightarrow> string option" where
  "index_text h es = stringify (JArr (map (entry_json h) es))"

definition init_run :: run_state where
  "init_run = \<lparr>heap = [], cache = [], index_data = [], log = []\<rparr>"

text \<open>The message of a thrown error as the catch block prints it: its code and
  the path involved (Node adds the syscall and a stack trace).\<close>

fun show_fs_error :: "fs_error \<Rightarrow> string" where
  "show_fs_error (ENOENT p) = ''ENOENT: no such file or directory '' @ join_path p"
| "show_fs_error (ENOTDIR p) = ''ENOTDIR: not a directory '' @ join_path p"
| "show_fs_error (EISDIR p) = ''EISDIR: illegal operation on a directory '' @ join_path p"

fun show_exn :: "exn \<Rightarrow> string" where
  "show_exn (FsExn e) = show_fs_error e"
| "show_exn (MatterExn m) = m"
| "show_exn (TypeExn m) = m"

text \<open>Lines 119--122: \<open>console.error\<close> and \<open>process.exit(1)\<close>.\<close>

definition fail :: "world \<Rightarrow> exn \<Rightarrow> world" where
  "fail w e = w\<lparr>console := console w @ [Err (''Error generating delegates index: '' @ show_exn e)], exit_code := 1\<rparr>"

definition say :: "world \<Rightarrow> line list \<Rightarrow> world" where
  "say w ls = w\<lparr>console := console w @ ls\<rparr>"

text \<open>Lines 110--117: sort, serialise, write, report.\<close>

definition finish :: "('k::linorder) env \<Rightarrow> node \<Rightarrow> run_state \<Rightarrow> world \<Rightarrow> world" where
  "finish L t st w =
     (case index_text (heap st) (sort_entries L (index_data st)) of
        None \<Rightarrow> fail w (TypeExn ''The \"data\" argument must be of type string'')
      | Some text_out \<Rightarrow>
          (case write_root_file t index_name text_out of
             Inl e \<Rightarrow> fail w (FsExn e)
           | Inr t' \<Rightarrow> say (w\<lparr>root := Some t'\<rparr>)
                         [Out (''Successfully generated delegates index file at: '' @ index_file_path L)]))"

definition generate_delegate_index :: "('k::linorder) env \<Rightarrow> string list \<Rightarrow> world \<Rightarrow> world" where
  "generate_delegate_index L files w =
     (case root w of
        None \<Rightarrow> say w [Out (''Delegates directory not found: '' @ dir_path L @ ''. Skipping generation.'')]
      | Some t \<Rightarrow>
          (let w1 = say w [Out (''Searching for markdown files in: '' @ dir_path L)] in
           if files = [] then
             (let w2 = say w1 [Out ''No markdown files found in the delegates directory.''] in
              case write_root_file t index_name ''[]'' of
                Inl e \<Rightarrow> fail w2 (FsExn e)
              | Inr t' \<Rightarrow> w2\<lparr>root := Some t'\<rparr>)
           else
             (let w2 = say w1 [Out (''Found '' @ dec_string (length files) @ '' files. Processing...'')] in
              case process_files L t files init_run of
                Inl (e, st) \<Rightarrow> fail (say w2 (log st)) e
              | Inr st \<Rightarrow> finish L t st (say w2 (log st)))))"

text \<open>The console lines before the loop runs (lines 43 and 56).\<close>

abbreviation run_opening :: "('k::linorder) env \<Rightarrow> string list \<Rightarrow> world \<Rightarrow> world" where
  "run_opening L files w \<equiv>
     say (say w [Out (''Searching for markdown files in: '' @ dir_path L)])
       [Out (''Found '' @ dec_string (length files) @ '' files. Processing...'')]"

text \<open>The content of \<open>index.json\<close> in a world, if there is one.\<close>

definition index_content :: "world \<Rightarrow> string option" where
  "index_content w =
     (case root w of
        Some t \<Rightarrow> (case read_file_sync t [index_name] of Inr c \<Rightarrow> Some c | Inl _ \<Rightarrow> None)
      | None \<Rightarrow> None)"

section \<open>Lemmas\<close>

lemma stringify_JArr: "stringify (JArr vs) \<noteq> None"
  by (simp add: stringify_def)

lemma index_text_defined: "\<exists>text_out. index_text h es = Some text_out"
  using stringify_JArr by (auto simp: index_text_def)

lemma say_fields [simp]:
  "root (say w ls) = root w" "exit_code (say w ls) = exit_code w" "console (say w ls) = console w @ ls"
  by (simp_all add: say_def)

lemma fail_fields [simp]:
  "root (fail w e) = root w" "exit_code (fail w e) = 1"
  "console (fail w e) = console w @ [Err (''Error generating delegates index: '' @ show_exn e)]"
  by (simp_all add: fail_def)

lemma generate_no_root:
  "root w = None \<Longrightarrow>
   generate_delegate_index L files w = say w [Out (''Delegates directory not found: '' @ dir_path L @ ''. Skipping generation.'')]"
  by (simp add: generate_delegate_index_def)

lemma generate_no_files:
  "root w = Some t \<Longrightarrow>
   generate_delegate_index L [] w =
     (let w2 = say (say w [Out (''Searching for markdown files in: '' @ dir_path L)])
                 [Out ''No markdown files found in the delegates directory.''] in
      case write_root_file t index_name ''[]'' of Inl e \<Rightarrow> fail w2 (FsExn e) | Inr t' \<Rightarrow> w2\<lparr>root := Some t'\<rparr>)"
  by (simp add: generate_delegate_index_def)

lemma generate_threw:
  "root w = Some t \<Longrightarrow> files \<noteq> [] \<Longrightarrow> process_files L t files init_run = Inl (e, st) \<Longrightarrow>
   generate_delegate_index L files w = fail (say (run_opening L files w) (log st)) e"
  by (simp add: generate_delegate_index_def)

lemma generate_processed:
  "root w = Some t \<Longrightarrow> files \<noteq> [] \<Longrightarrow> process_files L t files init_run = Inr st \<Longrightarrow>
   generate_delegate_index L files w = finish L t st (say (run_opening L files w) (log st))"
  by (simp add: generate_delegate_index_def)

lemma index_content_written:
  assumes "write_root_file t index_name text_out = Inr t'" and "root w = Some t'"
  shows "index_content w = Some text_out"
proof -
  from assms(1) have "resolve t' [index_name] = Inr (File text_out)"
    by (rule write_root_file_resolve_same)
  with assms(2) show ?thesis by (simp add: index_content_def read_file_sync_def)
qed

lemma finish_cases:
  obtains (wrote) text_out t' where "index_text (heap st) (sort_entries L (index_data st)) = Some text_out"
      and "write_root_file t index_name text_out = Inr t'"
      and "finish L t st w = say (w\<lparr>root := Some t'\<rparr>)
             [Out (''Successfully generated delegates index file at: '' @ index_file_path L)]"
    | (write_failed) e where "finish L t st w = fail w (FsExn e)"
proof -
  obtain out where out: "index_text (heap st) (sort_entries L (index_data st)) = Some out"
    using index_text_defined by blast
  show thesis
  proof (cases "write_root_file t index_name out")
    case (Inl e)
    with out show thesis by (intro that(2) [of e]) (simp add: finish_def)
  next
    case (Inr t')
    with out show thesis by (intro that(1) [of out t']) (simp_all add: finish_def)
  qed
qed

lemma finish_exit_code:
  "exit_code (finish L t st w) = 0 \<Longrightarrow>
   \<exists>text_out t'. index_text (heap st) (sort_entries L (index_data st)) = Some text_out \<and>
     write_root_file t index_name text_out = Inr t' \<and> root (finish L t st w) = Some t'"
  by (cases rule: finish_cases [of st L t w]) auto

end
