(* ===== verification/RunFacts.thy ===== *)
theory RunFacts
  imports Generate
begin

text \<open>
  What one document contributes to a run, independently of the run state. When a
  document's content is new to gray-matter's cache (or empty, which is never
  cached), the loop body's result depends on the document alone: \<open>doc_outcome\<close> is
  that result (the content, the metadata object after the address assignment, the
  metrics, the lines logged) or the exception. The lemmas lift it to the loop: with
  pairwise distinct non-empty contents every document is fresh to the cache, each
  entry gets an object of its own, and the serialised entries are those of the
  documents alone. Without that hypothesis the cache shares objects between
  entries, which the last group of lemmas describes.
\<close>

definition matter_data :: "engine \<Rightarrow> string \<Rightarrow> string + obj" where
  "matter_data eng c = (if c = [] then Inr [] else parse_matter eng c)"

definition doc_outcome :: "'k env \<Rightarrow> node \<Rightarrow> string \<Rightarrow> exn + string \<times> obj \<times> jval \<times> line list" where
  "doc_outcome L t f =
     (let segs = split_on CHR ''/'' f; folder = butlast segs in
      case read_file_sync t segs of
        Inl e \<Rightarrow> Inl (FsExn e)
      | Inr c \<Rightarrow>
          (case matter_data (engine L) c of
             Inl m \<Rightarrow> Inl (MatterExn m)
           | Inr d \<Rightarrow>
               (case readdir_sync t folder of
                  Inl e \<Rightarrow> Inl (FsExn e)
                | Inr names \<Rightarrow>
                    (case load_metrics L t folder names (path_join1 f) of
                       Inl e \<Rightarrow> Inl e
                     | Inr (m, errs) \<Rightarrow> Inr (c, with_address (path_join1 f) d, m, errs)))))"

definition content_of :: "node \<Rightarrow> string \<Rightarrow> string" where
  "content_of t f = (case read_file_sync t (split_on CHR ''/'' f) of Inr c \<Rightarrow> c | Inl _ \<Rightarrow> [])"

definition distinct_docs :: "node \<Rightarrow> string list \<Rightarrow> bool" where
  "distinct_docs t fs \<longleftrightarrow> distinct (filter (\<lambda>c. c \<noteq> []) (map (content_of t) fs))"

definition fresh_in :: "(string \<times> nat) list \<Rightarrow> node \<Rightarrow> string list \<Rightarrow> bool" where
  "fresh_in cs t fs \<longleftrightarrow> (\<forall>f \<in> set fs. content_of t f = [] \<or> map_of cs (content_of t f) = None)"

definition cache_add :: "string \<Rightarrow> nat \<Rightarrow> (string \<times> nat) list \<Rightarrow> (string \<times> nat) list" where
  "cache_add c a cs = (if c = [] then cs else (c, a) # cs)"

text \<open>The serialised entry of a document that was processed fresh.\<close>

definition doc_json :: "'k env \<Rightarrow> node \<Rightarrow> string \<Rightarrow> jval" where
  "doc_json L t f =
     (case doc_outcome L t f of
        Inr (c, ob, m, errs) \<Rightarrow> JObj [(''path'', JStr (path_join1 f)), (''metadata'', JObj ob), (''metrics'', m)]
      | Inl _ \<Rightarrow> JNull)"

definition doc_errs :: "'k env \<Rightarrow> node \<Rightarrow> string \<Rightarrow> line list" where
  "doc_errs L t f = (case doc_outcome L t f of Inr (c, ob, m, errs) \<Rightarrow> errs | Inl _ \<Rightarrow> [])"

text \<open>The \<open>path\<close> member of a serialised entry, the first of its object.\<close>

fun json_path :: "jval \<Rightarrow> string" where
  "json_path (JObj ((_, JStr p) # _)) = p"
| "json_path _ = []"

section \<open>One document\<close>

lemma gray_matter_fresh:
  assumes "c = [] \<or> map_of (cache st) c = None" and "matter_data eng c = Inr d"
  shows "gray_matter eng c st = Inr (length (heap st), st\<lparr>heap := heap st @ [d], cache := cache_add c (length (heap st)) (cache st)\<rparr>)"
  using assms by (auto simp: gray_matter_def matter_data_def heap_alloc_def cache_add_def)

lemma gray_matter_fresh_fail:
  "c \<noteq> [] \<Longrightarrow> map_of (cache st) c = None \<Longrightarrow> matter_data eng c = Inl m \<Longrightarrow> gray_matter eng c st = Inl m"
  by (simp add: gray_matter_def matter_data_def)

lemma heap_modify_last: "heap_modify (length h) f (h @ [d]) = h @ [f d]"
  by (simp add: heap_modify_def)

lemma process_file_fresh:
  assumes "doc_outcome L t f = Inr (c, ob, m, errs)"
    and "c = [] \<or> map_of (cache st) c = None"
  shows "process_file L t f st =
           Inr (st\<lparr>heap := heap st @ [ob], cache := cache_add c (length (heap st)) (cache st),
                   index_data := index_data st @ [\<lparr>e_path = path_join1 f, e_metadata = length (heap st), e_metrics = m\<rparr>],
                   log := log st @ errs\<rparr>)"
  using assms
  by (auto simp: doc_outcome_def process_file_def Let_def gray_matter_fresh heap_modify_last
           split: sum.splits prod.splits)

lemma matter_data_Nil [simp]: "matter_data eng [] = Inr []"
  by (simp add: matter_data_def)

lemma process_file_fresh_fail:
  assumes "doc_outcome L t f = Inl e"
    and "content_of t f = [] \<or> map_of (cache st) (content_of t f) = None"
  shows "process_file L t f st = Inl e"
proof (cases "read_file_sync t (split_on CHR ''/'' f)")
  case (Inl e')
  with assms(1) show ?thesis by (simp add: doc_outcome_def process_file_def Let_def)
next
  case (Inr c)
  then have fresh: "c = [] \<or> map_of (cache st) c = None" using assms(2) by (simp add: content_of_def)
  show ?thesis
  proof (cases "matter_data (engine L) c")
    case (Inl m)
    then have "c \<noteq> []" by auto
    with fresh Inl have "gray_matter (engine L) c st = Inl m" by (simp add: gray_matter_fresh_fail)
    with Inr Inl assms(1) show ?thesis by (simp add: doc_outcome_def process_file_def Let_def)
  next
    case (Inr d)
    with fresh have "gray_matter (engine L) c st =
        Inr (length (heap st), st\<lparr>heap := heap st @ [d], cache := cache_add c (length (heap st)) (cache st)\<rparr>)"
      by (rule gray_matter_fresh)
    with \<open>read_file_sync t (split_on CHR ''/'' f) = Inr c\<close> Inr assms(1) show ?thesis
      by (auto simp: doc_outcome_def process_file_def Let_def split: sum.splits prod.splits)
  qed
qed

lemma doc_outcome_content:
  "doc_outcome L t f = Inr (c, ob, m, errs) \<Longrightarrow> content_of t f = c"
  by (auto simp: doc_outcome_def content_of_def Let_def split: sum.splits prod.splits)

lemma doc_outcome_Inr_E:
  assumes "doc_outcome L t f = Inr (c, ob, m, errs)"
  obtains d names where "read_file_sync t (split_on CHR ''/'' f) = Inr c"
    and "matter_data (engine L) c = Inr d"
    and "readdir_sync t (butlast (split_on CHR ''/'' f)) = Inr names"
    and "load_metrics L t (butlast (split_on CHR ''/'' f)) names (path_join1 f) = Inr (m, errs)"
    and "ob = with_address (path_join1 f) d"
  using assms by (auto simp: doc_outcome_def Let_def split: sum.splits prod.splits)

section \<open>The loop over fresh documents\<close>

lemma distinct_docs_Cons:
  "distinct_docs t (f # fs) \<longleftrightarrow>
     distinct_docs t fs \<and> (content_of t f = [] \<or> content_of t f \<notin> content_of t ` set fs)"
  by (auto simp: distinct_docs_def)

lemma fresh_in_step:
  assumes "fresh_in cs t (f # fs)" and "distinct_docs t (f # fs)"
  shows "fresh_in (cache_add (content_of t f) a cs) t fs"
proof -
  have d: "content_of t f = [] \<or> content_of t f \<notin> content_of t ` set fs"
    using assms(2) by (simp add: distinct_docs_Cons)
  show ?thesis unfolding fresh_in_def
  proof
    fix g assume g: "g \<in> set fs"
    show "content_of t g = [] \<or> map_of (cache_add (content_of t f) a cs) (content_of t g) = None"
    proof (cases "content_of t g = []")
      case False
      then have "content_of t g \<noteq> content_of t f \<or> content_of t f = []"
        using d g by (metis image_eqI)
      moreover have "map_of cs (content_of t g) = None" using assms(1) g False by (auto simp: fresh_in_def)
      ultimately show ?thesis by (auto simp: cache_add_def)
    qed simp
  qed
qed

lemma entry_json_heap_extend:
  "\<forall>e \<in> set es. e_metadata e < length h \<Longrightarrow> map (entry_json (h @ ext)) es = map (entry_json h) es"
  by (auto simp: entry_json_def nth_append)

lemma process_files_fresh:
  assumes "\<forall>f \<in> set fs. \<exists>r. doc_outcome L t f = Inr r"
    and "distinct_docs t fs" and "fresh_in (cache st) t fs" and "run_inv st"
  shows "\<exists>st'. process_files L t fs st = Inr st' \<and> run_inv st' \<and>
           map (entry_json (heap st')) (index_data st') = map (entry_json (heap st)) (index_data st) @ map (doc_json L t) fs \<and>
           log st' = log st @ concat (map (doc_errs L t) fs)"
  using assms
proof (induction fs arbitrary: st)
  case Nil
  then show ?case by simp
next
  case (Cons f fs)
  obtain c ob m errs where o: "doc_outcome L t f = Inr (c, ob, m, errs)"
    using Cons.prems(1) by force
  have c: "content_of t f = c" using o by (rule doc_outcome_content)
  have fr: "c = [] \<or> map_of (cache st) c = None" using Cons.prems(3) c by (simp add: fresh_in_def)
  define st1 where "st1 = st\<lparr>heap := heap st @ [ob], cache := cache_add c (length (heap st)) (cache st),
       index_data := index_data st @ [\<lparr>e_path = path_join1 f, e_metadata = length (heap st), e_metrics = m\<rparr>],
       log := log st @ errs\<rparr>"
  have step: "process_file L t f st = Inr st1" unfolding st1_def using o fr by (rule process_file_fresh)
  have inv1: "run_inv st1" using step Cons.prems(4) by (rule process_file_inv)
  have fr1: "fresh_in (cache st1) t fs"
    using fresh_in_step [OF Cons.prems(3) Cons.prems(2)] c by (simp add: st1_def)
  have d1: "distinct_docs t fs" using Cons.prems(2) by (simp add: distinct_docs_Cons)
  obtain st' where st': "process_files L t fs st1 = Inr st'" "run_inv st'"
    "map (entry_json (heap st')) (index_data st') = map (entry_json (heap st1)) (index_data st1) @ map (doc_json L t) fs"
    "log st' = log st1 @ concat (map (doc_errs L t) fs)"
    using Cons.IH [OF _ d1 fr1 inv1] Cons.prems(1) by auto
  have old: "map (entry_json (heap st @ [ob])) (index_data st) = map (entry_json (heap st)) (index_data st)"
    using Cons.prems(4) by (intro entry_json_heap_extend) (simp add: run_inv_def)
  have "map (entry_json (heap st1)) (index_data st1) = map (entry_json (heap st)) (index_data st) @ [doc_json L t f]"
    using old o by (simp add: st1_def entry_json_def doc_json_def)
  moreover have "log st1 = log st @ doc_errs L t f" using o by (simp add: st1_def doc_errs_def)
  ultimately show ?case using step st' by simp
qed

lemma process_files_fresh_outcomes:
  assumes "process_files L t fs st = Inr st'" and "distinct_docs t fs" and "fresh_in (cache st) t fs"
  shows "\<forall>f \<in> set fs. \<exists>r. doc_outcome L t f = Inr r"
  using assms
proof (induction fs arbitrary: st)
  case (Cons f fs)
  have frf: "content_of t f = [] \<or> map_of (cache st) (content_of t f) = None"
    using Cons.prems(3) by (simp add: fresh_in_def)
  show ?case
  proof (cases "doc_outcome L t f")
    case (Inl e)
    then have "process_file L t f st = Inl e" using frf by (rule process_file_fresh_fail)
    with Cons.prems(1) show ?thesis by simp
  next
    case (Inr r)
    then obtain c ob m errs where o: "doc_outcome L t f = Inr (c, ob, m, errs)" by (cases r) auto
    have c: "content_of t f = c" using o by (rule doc_outcome_content)
    have "process_file L t f st = Inr (st\<lparr>heap := heap st @ [ob], cache := cache_add c (length (heap st)) (cache st),
       index_data := index_data st @ [\<lparr>e_path = path_join1 f, e_metadata = length (heap st), e_metrics = m\<rparr>],
       log := log st @ errs\<rparr>)" (is "_ = Inr ?st1")
      using o frf c by (intro process_file_fresh) auto
    moreover have "fresh_in (cache ?st1) t fs"
      using fresh_in_step [OF Cons.prems(3) Cons.prems(2)] c by simp
    ultimately have "\<forall>g \<in> set fs. \<exists>r. doc_outcome L t g = Inr r"
      using Cons.prems(1,2) by (intro Cons.IH [of ?st1]) (auto simp: distinct_docs_Cons)
    with o show ?thesis by simp
  qed
qed simp

section \<open>Entries by position\<close>

lemma process_file_push:
  assumes "process_file L t f st = Inr st'"
  shows "index_data st' = index_data st @ [last (index_data st')]"
  using assms
proof (cases rule: process_file_Inr_E)
  case (1 content md st1 contents m errs)
  then show ?thesis using gray_matter_run_fields [OF 1(2)] by simp
qed

lemma process_files_prefix:
  "process_files L t fs st = Inr st' \<Longrightarrow> \<exists>new. index_data st' = index_data st @ new \<and> length new = length fs"
proof (induction fs arbitrary: st)
  case (Cons f fs)
  then obtain st1 where s1: "process_file L t f st = Inr st1" and r: "process_files L t fs st1 = Inr st'"
    by (auto split: sum.splits)
  from Cons.IH [OF r] obtain new where "index_data st' = index_data st1 @ new" "length new = length fs"
    by blast
  with process_file_push [OF s1] show ?case by (intro exI [of _ "last (index_data st1) # new"]) simp
qed simp

lemma process_files_nth:
  assumes "process_files L t fs st0 = Inr st" and "i < length fs"
  obtains sa sb where "process_files L t (take i fs) st0 = Inr sa"
    and "process_file L t (fs ! i) sa = Inr sb"
    and "process_files L t (drop (Suc i) fs) sb = Inr st"
    and "index_data st ! (length (index_data st0) + i) = last (index_data sb)"
proof -
  have fs: "fs = take i fs @ fs ! i # drop (Suc i) fs" using assms(2) by (simp add: id_take_nth_drop)
  from assms(1) have "process_files L t (take i fs @ fs ! i # drop (Suc i) fs) st0 = Inr st" using fs by simp
  then obtain sa sb where a: "process_files L t (take i fs) st0 = Inr sa"
    and b: "process_file L t (fs ! i) sa = Inr sb" and c: "process_files L t (drop (Suc i) fs) sb = Inr st"
    by (auto simp: process_files_append split: sum.splits)
  obtain n1 where n1: "index_data sa = index_data st0 @ n1" "length n1 = length (take i fs)"
    using process_files_prefix [OF a] by blast
  obtain n2 where n2: "index_data st = index_data sb @ n2" using process_files_prefix [OF c] by blast
  have "index_data sb = index_data sa @ [last (index_data sb)]" using b by (rule process_file_push)
  then have "index_data st = (index_data st0 @ n1) @ last (index_data sb) # n2" using n1(1) n2 by simp
  moreover have "length (index_data st0 @ n1) = length (index_data st0) + i" using n1(2) assms(2) by simp
  ultimately have "index_data st ! (length (index_data st0) + i) = last (index_data sb)"
    by (metis nth_append_length)
  with a b c show thesis by (rule that)
qed

section \<open>The cache across a run\<close>

lemma process_file_cache_keeps:
  assumes "process_file L t f st = Inr st'" and "map_of (cache st) c = Some a"
  shows "map_of (cache st') c = Some a"
  using assms(1)
proof (cases rule: process_file_Inr_E)
  case (1 content md st1 contents m errs)
  from 1(2) assms(2) have "map_of (cache st1) c = Some a"
    by (auto simp: gray_matter_def heap_alloc_def split: if_splits option.splits sum.splits prod.splits)
  with 1(5) show ?thesis by simp
qed

lemma process_files_cache_keeps:
  "process_files L t fs st = Inr st' \<Longrightarrow> map_of (cache st) c = Some a \<Longrightarrow> map_of (cache st') c = Some a"
  by (induction fs arbitrary: st) (auto split: sum.splits dest: process_file_cache_keeps)

text \<open>After a document with non-empty content is processed, its content is cached
  with the address of the entry's metadata; a later document with the same content
  gets that address back.\<close>

lemma process_file_caches:
  assumes "process_file L t f st = Inr st'" and "content_of t f = c" and "c \<noteq> []"
  shows "map_of (cache st') c = Some (e_metadata (last (index_data st')))"
  using assms(1)
proof (cases rule: process_file_Inr_E)
  case (1 content md st1 contents m errs)
  have "content = c" using 1(1) assms(2) by (simp add: content_of_def)
  with 1(2) assms(3) have "map_of (cache st1) c = Some md"
    by (auto simp: gray_matter_def heap_alloc_def split: option.splits sum.splits prod.splits)
  with 1(5) show ?thesis by simp
qed

lemma process_file_hit:
  assumes "process_file L t f st = Inr st'" and "content_of t f = c" and "c \<noteq> []"
    and "map_of (cache st) c = Some a"
  shows "e_metadata (last (index_data st')) = a"
  using assms(1)
proof (cases rule: process_file_Inr_E)
  case (1 content md st1 contents m errs)
  have "content = c" using 1(1) assms(2) by (simp add: content_of_def)
  with 1(2) assms(3,4) have "md = a" by (simp add: gray_matter_hit)
  with 1(5) show ?thesis by simp
qed

section \<open>A successful run\<close>

text \<open>A run that ends with exit code 0 went through the loop and the write: the
  entries are the loop's, and \<open>index.json\<close> holds their sorted serialisation.\<close>

lemma generate_success_cases:
  assumes "root w = Some t" and "files \<noteq> []" and "exit_code w = 0"
    and "exit_code (generate_delegate_index L files w) = 0"
  obtains st text_out t' where "process_files L t files init_run = Inr st"
    and "index_text (heap st) (sort_entries L (index_data st)) = Some text_out"
    and "write_root_file t index_name text_out = Inr t'"
    and "root (generate_delegate_index L files w) = Some t'"
    and "index_content (generate_delegate_index L files w) = Some text_out"
proof (cases "process_files L t files init_run")
  case (Inl x)
  then obtain e st where "process_files L t files init_run = Inl (e, st)" by (cases x) auto
  with assms(1,2,4) show thesis by (simp add: generate_threw)
next
  case (Inr st)
  let ?w = "say (run_opening L files w) (log st)"
  have g: "generate_delegate_index L files w = finish L t st ?w"
    using assms(1,2) Inr by (rule generate_processed)
  show thesis
  proof (cases rule: finish_cases [of st L t ?w])
    case (wrote text_out t')
    then have "root (generate_delegate_index L files w) = Some t'" using g by simp
    moreover from wrote(2) this have "index_content (generate_delegate_index L files w) = Some text_out"
      by (rule index_content_written)
    ultimately show thesis using that Inr wrote by blast
  next
    case (write_failed e)
    with g assms(4) show thesis by simp
  qed
qed

lemma fresh_in_init: "fresh_in (cache init_run) t fs"
  by (simp add: fresh_in_def init_run_def)

lemma run_inv_init_run: "run_inv init_run"
  by (simp add: init_run_def run_inv_init)

lemma process_files_fresh_run:
  assumes "process_files L t fs init_run = Inr st" and "distinct_docs t fs"
  shows "map (entry_json (heap st)) (index_data st) = map (doc_json L t) fs \<and>
         log st = concat (map (doc_errs L t) fs) \<and> (\<forall>f \<in> set fs. \<exists>r. doc_outcome L t f = Inr r)"
proof -
  have o: "\<forall>f \<in> set fs. \<exists>r. doc_outcome L t f = Inr r"
    using assms fresh_in_init by (rule process_files_fresh_outcomes)
  from process_files_fresh [OF o assms(2) fresh_in_init run_inv_init_run] assms(1) o show ?thesis
    by (auto simp: init_run_def)
qed

section \<open>The index of a run over fresh documents\<close>

lemma json_path_entry_json [simp]: "json_path (entry_json h e) = e_path e"
  by (simp add: entry_json_def)

lemma json_path_doc_json:
  "doc_outcome L t f = Inr r \<Longrightarrow> json_path (doc_json L t f) = path_join1 f"
  by (cases r) (auto simp: doc_json_def)

text \<open>Sorting the entries and serialising them is sorting their serialisations by
  the collation key of the \<open>path\<close> member.\<close>

lemma sort_entries_json:
  "map (entry_json h) (sort_entries L es) = sort_key (\<lambda>v. collate L (json_path v)) (map (entry_json h) es)"
  unfolding sort_entries_def js_sort_sort_key
  using map_sort_key_comp [of "entry_json h" "\<lambda>v. collate L (json_path v)" es] by simp

lemma process_files_fresh_Inr_iff:
  assumes "distinct_docs t fs"
  shows "(\<exists>st. process_files L t fs init_run = Inr st) \<longleftrightarrow> (\<forall>f \<in> set fs. \<exists>r. doc_outcome L t f = Inr r)"
  using process_files_fresh_outcomes [OF _ assms fresh_in_init]
    process_files_fresh [OF _ assms fresh_in_init run_inv_init_run] by blast

text \<open>The tree and the exit code a run over distinct documents leaves, computed
  from the documents alone: every document processes without a throw and the
  sorted serialisation of their entries is written, or the tree is untouched and
  the code is 1.\<close>

lemma generate_fresh_outcome:
  assumes "root w = Some t" and "fs \<noteq> []" and "distinct_docs t fs"
  shows "(root (generate_delegate_index L fs w), exit_code (generate_delegate_index L fs w)) =
    (if \<forall>f \<in> set fs. \<exists>r. doc_outcome L t f = Inr r then
       (case write_root_file t index_name
               (the (stringify (JArr (sort_key (\<lambda>v. collate L (json_path v)) (map (doc_json L t) fs))))) of
          Inl _ \<Rightarrow> (Some t, 1)
        | Inr t' \<Rightarrow> (Some t', exit_code w))
     else (Some t, 1))"
proof (cases "\<forall>f \<in> set fs. \<exists>r. doc_outcome L t f = Inr r")
  case True
  then obtain st where run: "process_files L t fs init_run = Inr st"
    using process_files_fresh_Inr_iff [OF assms(3)] by blast
  have j: "map (entry_json (heap st)) (index_data st) = map (doc_json L t) fs"
    using process_files_fresh_run [OF run assms(3)] by blast
  have "index_text (heap st) (sort_entries L (index_data st)) =
          Some (the (stringify (JArr (sort_key (\<lambda>v. collate L (json_path v)) (map (doc_json L t) fs)))))"
    using stringify_JArr by (simp add: index_text_def sort_entries_json j)
  then show ?thesis using generate_processed [OF assms(1,2) run] assms(1)
    unfolding if_P [OF True] by (simp add: finish_def split: sum.splits)
next
  case False
  then have "\<not> (\<exists>st. process_files L t fs init_run = Inr st)"
    using process_files_fresh_Inr_iff [OF assms(3), of L] by blast
  then obtain e st where "process_files L t fs init_run = Inl (e, st)"
    by (cases "process_files L t fs init_run") auto
  then have "generate_delegate_index L fs w = fail (say (run_opening L fs w) (log st)) e"
    by (rule generate_threw [OF assms(1,2)])
  with assms(1) show ?thesis unfolding if_not_P [OF False] by simp
qed

section \<open>Independence of the enumeration order\<close>

lemma distinct_docs_mset:
  assumes "mset fs = mset fs'"
  shows "distinct_docs t fs = distinct_docs t fs'"
  unfolding distinct_docs_def
  by (rule mset_eq_imp_distinct_iff) (simp add: assms)

lemma valid_enum_mset:
  "valid_enum t fs \<Longrightarrow> valid_enum t fs' \<Longrightarrow> mset fs = mset fs'"
  by (metis valid_enum_def set_eq_iff_mset_eq_distinct)

text \<open>Without collation ties between the documents' paths, sorting their
  serialisations does not depend on the order they came in.\<close>

lemma doc_json_sort_perm:
  assumes "mset fs = mset fs'" and "\<forall>f \<in> set fs. \<exists>r. doc_outcome L t f = Inr r"
    and "inj_on (\<lambda>f. collate L (path_join1 f)) (set fs)"
  shows "sort_key (\<lambda>v. collate L (json_path v)) (map (doc_json L t) fs) =
         sort_key (\<lambda>v. collate L (json_path v)) (map (doc_json L t) fs')"
proof (rule sort_key_inj_key_eq)
  show "mset (map (doc_json L t) fs) = mset (sort_key (\<lambda>v. collate L (json_path v)) (map (doc_json L t) fs'))"
    using assms(1) by simp
  show "sorted (map (\<lambda>v. collate L (json_path v)) (sort_key (\<lambda>v. collate L (json_path v)) (map (doc_json L t) fs')))"
    by simp
  show "inj_on (\<lambda>v. collate L (json_path v)) (set (map (doc_json L t) fs))"
  proof (rule inj_onI)
    fix u v assume "u \<in> set (map (doc_json L t) fs)" "v \<in> set (map (doc_json L t) fs)"
      and eq: "collate L (json_path u) = collate L (json_path v)"
    then obtain f g where f: "f \<in> set fs" "u = doc_json L t f" and g: "g \<in> set fs" "v = doc_json L t g"
      by auto
    have "collate L (path_join1 f) = collate L (path_join1 g)"
      using eq f g assms(2) json_path_doc_json by metis
    then have "f = g" using assms(3) f(1) g(1) by (auto dest: inj_onD)
    then show "u = v" using f g by simp
  qed
qed

section \<open>Entries of a run over fresh documents\<close>

text \<open>The \<open>i\<close>-th entry of a run over distinct documents is the \<open>i\<close>-th document's
  outcome: its path, its own metadata object, its metrics.\<close>

lemma fresh_run_entry:
  assumes "process_files L t fs init_run = Inr st" and "distinct_docs t fs" and "i < length fs"
  obtains c ob m errs where "doc_outcome L t (fs ! i) = Inr (c, ob, m, errs)"
    and "e_path (index_data st ! i) = path_join1 (fs ! i)"
    and "heap st ! e_metadata (index_data st ! i) = ob"
    and "e_metrics (index_data st ! i) = m"
proof -
  note r = process_files_fresh_run [OF assms(1,2)]
  then obtain c ob m errs where o: "doc_outcome L t (fs ! i) = Inr (c, ob, m, errs)"
    using assms(3) by (metis nth_mem surj_pair)
  from r have len: "length (index_data st) = length fs" by (metis length_map)
  from r have "map (entry_json (heap st)) (index_data st) ! i = map (doc_json L t) fs ! i" by simp
  then have "entry_json (heap st) (index_data st ! i) = doc_json L t (fs ! i)" using assms(3) len by simp
  with o show thesis by (intro that [OF o]) (simp_all add: entry_json_def doc_json_def)
qed

text \<open>With the same non-empty content at positions \<open>i < j\<close>, the two entries hold
  the same metadata object: gray-matter's cache returns the first document's.\<close>

lemma process_files_shared:
  assumes "process_files L t fs init_run = Inr st" and "i < j" and "j < length fs"
    and "content_of t (fs ! i) = c" and "content_of t (fs ! j) = c" and "c \<noteq> []"
  shows "e_metadata (index_data st ! i) = e_metadata (index_data st ! j)"
proof -
  have ilen: "i < length fs" using assms(2,3) by simp
  obtain sa sb where a: "process_files L t (take i fs) init_run = Inr sa"
    and b: "process_file L t (fs ! i) sa = Inr sb"
    and ei0: "index_data st ! (length (index_data init_run) + i) = last (index_data sb)"
    using process_files_nth [OF assms(1) ilen] by blast
  have ei: "index_data st ! i = last (index_data sb)" using ei0 by (simp add: init_run_def)
  obtain sa' sb' where a': "process_files L t (take j fs) init_run = Inr sa'"
    and b': "process_file L t (fs ! j) sa' = Inr sb'"
    and ej0: "index_data st ! (length (index_data init_run) + j) = last (index_data sb')"
    using process_files_nth [OF assms(1,3)] by blast
  have ej: "index_data st ! j = last (index_data sb')" using ej0 by (simp add: init_run_def)
  have cb: "map_of (cache sb) c = Some (e_metadata (index_data st ! i))"
    using process_file_caches [OF b assms(4,6)] ei by simp
  have tj: "take j fs = (take i fs @ [fs ! i]) @ drop (Suc i) (take j fs)"
    using assms(2,3) by (simp add: take_Suc_conv_app_nth [symmetric] min_def)
       (metis Suc_leI append_take_drop_id min.absorb1 take_take)
  from a' have "process_files L t ((take i fs @ [fs ! i]) @ drop (Suc i) (take j fs)) init_run = Inr sa'"
    by (simp only: tj [symmetric])
  then have "process_files L t (drop (Suc i) (take j fs)) sb = Inr sa'"
    using a b by (simp add: process_files_append)
  then have "map_of (cache sa') c = Some (e_metadata (index_data st ! i))"
    using cb by (rule process_files_cache_keeps)
  from process_file_hit [OF b' assms(5,6) this] ej show ?thesis by simp
qed

section \<open>The tree a run leaves\<close>

text \<open>A run changes the tree only by the one write of \<open>index.json\<close>.\<close>

lemma generate_root_cases:
  assumes "root w = Some t"
  obtains "root (generate_delegate_index L files w) = Some t"
    | text_out t' where "write_root_file t index_name text_out = Inr t'"
        and "root (generate_delegate_index L files w) = Some t'"
proof (cases "files = []")
  case True
  show thesis
  proof (cases "write_root_file t index_name ''[]''")
    case (Inl e)
    with True assms show thesis by (intro that(1)) (simp add: generate_no_files)
  next
    case (Inr t')
    with True assms show thesis by (intro that(2) [OF Inr]) (simp add: generate_no_files)
  qed
next
  case ne: False
  show thesis
  proof (cases "process_files L t files init_run")
    case (Inl x)
    then obtain e st where "process_files L t files init_run = Inl (e, st)" by (cases x) auto
    from generate_threw [OF assms ne this] assms show thesis by (intro that(1)) simp
  next
    case (Inr st)
    note g = generate_processed [OF assms ne Inr]
    show thesis
    proof (cases rule: finish_cases [of st L t "say (run_opening L files w) (log st)"])
      case (wrote text_out t')
      with g show thesis by (intro that(2) [OF wrote(2)]) simp
    next
      case (write_failed e)
      with g assms show thesis by (intro that(1)) simp
    qed
  qed
qed

lemma proper_seg_index_name [simp]: "proper_seg index_name"
  by (simp add: proper_seg_def index_name_def)

text \<open>The folder name the address comes from: the segment before the file name,
  or \<open>.\<close> for a document at the top level.\<close>

lemma dir_name_segments:
  assumes "p \<noteq> []" and "\<forall>s \<in> set p. proper_seg s"
  shows "dir_name (join_path p) = (if length p < 2 then ''.'' else last (butlast p))"
proof -
  obtain ds f where p: "p = ds @ [f]" using assms(1) by (cases p rule: rev_cases) auto
  have ds: "\<forall>s \<in> set ds. proper_seg s" and f: "proper_seg f" using assms(2) p by auto
  show ?thesis
  proof (cases "ds = []")
    case True
    then show ?thesis using dirname_join_path_snoc [of "[]" f] f p
      by (simp add: dir_name_def posix_basename_def)
  next
    case False
    then obtain ds' d where ds': "ds = ds' @ [d]" by (cases ds rule: rev_cases) auto
    have "posix_dirname (join_path ((ds' @ [d]) @ [f])) = join_path (ds' @ [d])"
      using dirname_join_path_snoc [of "ds' @ [d]" f] ds ds' f by simp
    moreover have "posix_basename (join_path (ds' @ [d])) = d"
      using basename_join_path_snoc [of ds' d] ds ds' by simp
    ultimately show ?thesis using p ds' by (simp add: dir_name_def butlast_append)
  qed
qed

text \<open>The metrics of the \<open>i\<close>-th entry of a run over distinct documents: what
  \<open>JSON.parse\<close> made of the folder's \<open>metrics.json\<close>, or \<open>undefined\<close> when it threw.\<close>

lemma fresh_run_metrics:
  assumes "process_files L t fs init_run = Inr st" and "distinct_docs t fs" and "i < length fs"
    and "read_file_sync t (butlast (split_on CHR ''/'' (fs ! i)) @ [metrics_file_name]) = Inr mtext"
  shows "e_metrics (index_data st ! i) = (case json_parse L mtext of Inr v \<Rightarrow> v | Inl msg \<Rightarrow> JUndef)"
proof -
  obtain c ob m errs where o: "doc_outcome L t (fs ! i) = Inr (c, ob, m, errs)"
    and "e_path (index_data st ! i) = path_join1 (fs ! i)"
    and "heap st ! e_metadata (index_data st ! i) = ob"
    and e: "e_metrics (index_data st ! i) = m"
    by (rule fresh_run_entry [OF assms(1-3)])
  obtain d names where "read_file_sync t (split_on CHR ''/'' (fs ! i)) = Inr c"
    and "matter_data (engine L) c = Inr d"
    and rd: "readdir_sync t (butlast (split_on CHR ''/'' (fs ! i))) = Inr names"
    and lm: "load_metrics L t (butlast (split_on CHR ''/'' (fs ! i))) names (path_join1 (fs ! i)) = Inr (m, errs)"
    and "ob = with_address (path_join1 (fs ! i)) d"
    by (rule doc_outcome_Inr_E [OF o])
  have "metrics_file_name \<in> set names"
    using assms(4) rd by (intro readdir_sync_lists) (simp_all add: read_file_sync_Inr)
  with lm assms(4) e show ?thesis by (simp add: load_metrics_def split: sum.splits)
qed

section \<open>Growth of the run state\<close>

lemma load_metrics_errs: "load_metrics L t folder ns rel = Inr (m, errs) \<Longrightarrow> length errs \<le> 1"
  by (auto simp: load_metrics_Inr)

text \<open>One document adds one entry, at most one log line and at most one heap object.\<close>

lemma process_file_growth:
  assumes "process_file L t f st = Inr st'"
  shows "length (index_data st') = Suc (length (index_data st)) \<and> length (log st') \<le> Suc (length (log st)) \<and>
         length (heap st') \<le> Suc (length (heap st))"
  using assms
proof (cases rule: process_file_Inr_E)
  case (1 content md st1 contents m errs)
  have f: "index_data st1 = index_data st \<and> log st1 = log st" by (rule gray_matter_run_fields [OF 1(2)])
  have h: "length (heap st1) \<le> Suc (length (heap st))"
    using 1(2) by (cases rule: gray_matter_cases) simp_all
  have "length errs \<le> 1" by (rule load_metrics_errs [OF 1(4)])
  with f h 1(5) show ?thesis by simp
qed

lemma process_files_growth:
  "process_files L t fs st = Inr st' \<Longrightarrow>
   length (index_data st') = length (index_data st) + length fs \<and> length (log st') \<le> length (log st) + length fs \<and>
   length (heap st') \<le> length (heap st) + length fs"
proof (induction fs arbitrary: st)
  case (Cons f fs)
  then obtain st1 where p: "process_file L t f st = Inr st1" and r: "process_files L t fs st1 = Inr st'"
    by (auto split: sum.splits)
  from Cons.IH [OF r] process_file_growth [OF p] show ?case by simp
qed simp

section \<open>The address a document leaves\<close>

lemma with_address_string:
  "starts_with (dir_name rel) ''0x'' \<Longrightarrow> map_of (with_address rel md) ''address'' = Some (JStr (dir_name rel))"
  by (simp add: with_address_def Let_def map_of_obj_set)

text \<open>The object a processed document's entry points to holds that document's
  address assignment as the last write (line 100).\<close>

lemma process_file_last_metadata:
  assumes "process_file L t f st = Inr st'" and "run_inv st"
  obtains ob where "heap st' ! e_metadata (last (index_data st')) = with_address (path_join1 f) ob"
  using assms(1)
proof (cases rule: process_file_Inr_E)
  case (1 content md st1 contents m errs)
  from 1(2) assms(2) have "md < length (heap st1)" by (auto simp: run_inv_def intro: gray_matter_inv)
  with 1(5) show thesis by (intro that [of "heap st1 ! md"]) (simp add: heap_modify_def)
qed

lemma last_document_address:
  assumes "process_files L t fs init_run = Inr st" and "fs \<noteq> []"
    and "starts_with (dir_name (path_join1 (last fs))) ''0x''"
  shows "map_of (heap st ! e_metadata (last (index_data st))) ''address'' = Some (JStr (dir_name (path_join1 (last fs))))"
proof -
  have "process_files L t (butlast fs @ [last fs]) init_run = Inr st" using assms(1,2) by simp
  then obtain sa where a: "process_files L t (butlast fs) init_run = Inr sa"
    and b: "process_file L t (last fs) sa = Inr st"
    by (auto simp: process_files_append split: sum.splits)
  obtain ob where "heap st ! e_metadata (last (index_data st)) = with_address (path_join1 (last fs)) ob"
    by (rule process_file_last_metadata [OF b process_files_inv [OF a run_inv_init_run]])
  with with_address_string [OF assms(3)] show ?thesis by simp
qed

text \<open>In a run over documents of distinct contents, the \<open>i\<close>-th entry's metadata is
  the \<open>i\<close>-th document's front matter with its address assignment.\<close>

lemma fresh_run_metadata:
  assumes "process_files L t fs init_run = Inr st" and "distinct_docs t fs" and "i < length fs"
  obtains c d where "read_file_sync t (split_on CHR ''/'' (fs ! i)) = Inr c"
    and "matter_data (engine L) c = Inr d"
    and "heap st ! e_metadata (index_data st ! i) = with_address (path_join1 (fs ! i)) d"
proof -
  obtain c ob m errs where o: "doc_outcome L t (fs ! i) = Inr (c, ob, m, errs)"
    and h: "heap st ! e_metadata (index_data st ! i) = ob"
    by (rule fresh_run_entry [OF assms])
  obtain d names where "read_file_sync t (split_on CHR ''/'' (fs ! i)) = Inr c"
    and "matter_data (engine L) c = Inr d"
    and "ob = with_address (path_join1 (fs ! i)) d"
    by (rule doc_outcome_Inr_E [OF o])
  with h show thesis by (intro that) simp_all
qed

end
