(* ===== verification/Rerun.thy ===== *)
theory Rerun
  imports RunFacts
begin

text \<open>
  Running the script again on the tree it left. The only change a run makes is the
  write of \<open>index.json\<close> at the root, a name glob does not match and no document
  path passes through; so the second run enumerates the same documents, reads the
  same contents and metrics, builds the same entries and writes the same text over
  the first one: a successful run is idempotent.
\<close>

section \<open>The write seen by glob\<close>

lemma update_keys_other:
  "x \<noteq> k \<Longrightarrow> x \<in> set (map fst (AList.update k v es)) \<longleftrightarrow> x \<in> set (map fst es)"
  by (induction es) auto

lemma update_update_same: "AList.update k v (AList.update k v es) = AList.update k v es"
  by (induction es) auto

lemma write_root_file_twice:
  assumes "write_root_file t n x = Inr t'"
  shows "write_root_file t' n x = Inr t'"
proof -
  from assms obtain es where t': "t' = Dir (AList.update n (File x) es)"
    by (auto simp: write_root_file_def split: node.splits option.splits)
  then show ?thesis by (simp add: write_root_file_def update_conv' update_update_same)
qed

lemma selected_single: "\<not> ends_with k ''.md'' \<Longrightarrow> \<not> selected [k]"
  by (simp add: selected_def matches_md_def)

text \<open>Replacing or adding a file whose name does not end in \<open>.md\<close> leaves the
  matches of a directory as they were.\<close>

lemma filter_selected_update:
  assumes "\<not> ends_with k ''.md''" and "\<forall>es'. map_of es k \<noteq> Some (Dir es')"
  shows "filter selected (concat (map (\<lambda>(k, n). map ((#) k) (all_paths n)) (AList.update k (File x) es))) =
         filter selected (concat (map (\<lambda>(k, n). map ((#) k) (all_paths n)) es))"
  using assms(2)
proof (induction es)
  case Nil
  then show ?case using selected_single [OF assms(1)] by simp
next
  case (Cons e es)
  obtain k' n where e: "e = (k', n)" by (cases e)
  show ?case
  proof (cases "k' = k")
    case True
    with Cons.prems e obtain c where "n = File c" by (cases n) auto
    with True e show ?thesis using selected_single [OF assms(1)] by simp
  next
    case False
    with Cons.prems e have "\<forall>es'. map_of es k \<noteq> Some (Dir es')" by auto
    with Cons.IH False e show ?thesis by simp
  qed
qed

lemma index_name_not_md: "\<not> ends_with index_name ''.md''"
  by (simp add: index_name_def ends_with_def)

lemma glob_result_write:
  assumes "write_root_file t index_name x = Inr t'"
  shows "glob_result t' = glob_result t"
proof -
  from assms obtain es where t: "t = Dir es" and t': "t' = Dir (AList.update index_name (File x) es)"
    and nd: "\<forall>es'. map_of es index_name \<noteq> Some (Dir es')"
    by (auto simp: write_root_file_def split: node.splits option.splits)
  have "\<not> selected []" by (simp add: selected_def matches_md_def)
  then show ?thesis
    using filter_selected_update [OF index_name_not_md nd, of x]
    by (simp add: t t' glob_result_def glob_matches_def)
qed

section \<open>The loop on a tree that agrees on what it reads\<close>

lemma load_metrics_cong:
  "(metrics_file_name \<in> set ns') = (metrics_file_name \<in> set ns) \<Longrightarrow>
   read_file_sync t' (folder @ [metrics_file_name]) = read_file_sync t (folder @ [metrics_file_name]) \<Longrightarrow>
   load_metrics L t' folder ns' rel = load_metrics L t folder ns rel"
  by (simp add: load_metrics_def)

text \<open>The loop body reads three things of the tree: the document, whether its
  folder lists \<open>metrics.json\<close>, and that file. Two trees that agree on them give
  the same step.\<close>

lemma process_file_cong:
  assumes "read_file_sync t' (split_on CHR ''/'' f) = read_file_sync t (split_on CHR ''/'' f)"
    and "map_sum id (\<lambda>ns. metrics_file_name \<in> set ns) (readdir_sync t' (butlast (split_on CHR ''/'' f))) =
         map_sum id (\<lambda>ns. metrics_file_name \<in> set ns) (readdir_sync t (butlast (split_on CHR ''/'' f)))"
    and "read_file_sync t' (butlast (split_on CHR ''/'' f) @ [metrics_file_name]) =
         read_file_sync t (butlast (split_on CHR ''/'' f) @ [metrics_file_name])"
  shows "process_file L t' f st = process_file L t f st"
proof (cases "readdir_sync t (butlast (split_on CHR ''/'' f))")
  case (Inl e)
  with assms(2) have "readdir_sync t' (butlast (split_on CHR ''/'' f)) = Inl e"
    by (cases "readdir_sync t' (butlast (split_on CHR ''/'' f))") auto
  with Inl assms(1) show ?thesis by (simp add: process_file_def Let_def split: sum.split prod.split)
next
  case (Inr ns)
  with assms(2) obtain ns' where ns': "readdir_sync t' (butlast (split_on CHR ''/'' f)) = Inr ns'"
    and m: "(metrics_file_name \<in> set ns') = (metrics_file_name \<in> set ns)"
    by (cases "readdir_sync t' (butlast (split_on CHR ''/'' f))") auto
  have lm: "load_metrics L t' (butlast (split_on CHR ''/'' f)) ns' (path_join1 f) =
             load_metrics L t (butlast (split_on CHR ''/'' f)) ns (path_join1 f)"
    by (rule load_metrics_cong [OF m assms(3)])
  show ?thesis unfolding process_file_def Let_def assms(1) ns' Inr sum.case lm ..
qed

lemma process_files_cong:
  "(\<And>f st. f \<in> set fs \<Longrightarrow> process_file L t' f st = process_file L t f st) \<Longrightarrow>
   process_files L t' fs st = process_files L t fs st"
  by (induction fs arbitrary: st) (auto split: sum.splits)

section \<open>The write seen by the loop\<close>

lemma hd_butlast_same: "butlast xs \<noteq> [] \<Longrightarrow> hd (butlast xs) = hd xs"
  by (cases xs) auto

lemma metrics_file_name_not_index [simp]: "metrics_file_name \<noteq> index_name"
  by (simp add: metrics_file_name_def index_name_def)

text \<open>No document glob returns lies under \<open>index.json\<close> when that name can be
  written: the first segment of its path is another name.\<close>

lemma enumerated_hd_not_index:
  assumes "wf_node t" and "p \<in> set (glob_matches t)" and "write_root_file t index_name x = Inr t'"
  shows "hd p \<noteq> index_name"
proof
  assume h: "hd p = index_name"
  from assms(1,2) obtain n where sel: "selected p" and r: "resolve t p = Inr n"
    by (auto simp: set_glob_matches)
  from assms(3) obtain es where t: "t = Dir es" and nd: "\<forall>es'. map_of es index_name \<noteq> Some (Dir es')"
    by (auto simp: write_root_file_def split: node.splits option.splits)
  obtain q where p: "p = index_name # q" using h sel selected_not_Nil by (cases p) auto
  show False
  proof (cases q)
    case Nil
    with sel p show False using selected_single [OF index_name_not_md] by simp
  next
    case (Cons y ys)
    from r t p obtain n0 where "map_of es index_name = Some n0" and "resolve n0 q = Inr n"
      by (auto split: option.splits)
    with Cons nd show False by (cases n0) auto
  qed
qed

lemma process_file_write_frame:
  assumes "wf_node t" and "valid_enum t files" and "f \<in> set files"
    and "write_root_file t index_name x = Inr t'"
  shows "process_file L t' f st = process_file L t f st"
proof -
  obtain p where pm: "p \<in> set (glob_matches t)" and sp: "split_on CHR ''/'' f = p"
    using assms(1-3) by (rule valid_enum_member)
  have ne: "p \<noteq> []" using glob_match_segments [OF assms(1) pm] by blast
  have hd: "hd p \<noteq> index_name" by (rule enumerated_hd_not_index [OF assms(1) pm assms(4)])
  from assms(4) obtain es where t: "t = Dir es" and t': "t' = Dir (AList.update index_name (File x) es)"
    by (auto simp: write_root_file_def split: node.splits option.splits)
  have other: "\<And>q. q \<noteq> [] \<Longrightarrow> hd q \<noteq> index_name \<Longrightarrow> resolve t' q = resolve t q"
    using write_root_file_resolve_other [OF assms(4)] by blast
  have r1: "read_file_sync t' p = read_file_sync t p"
    using other [OF ne hd] by (simp add: read_file_sync_def)
  have r3: "read_file_sync t' (butlast p @ [metrics_file_name]) = read_file_sync t (butlast p @ [metrics_file_name])"
  proof -
    have "hd (butlast p @ [metrics_file_name]) \<noteq> index_name"
      using hd by (cases "butlast p = []") (simp_all add: hd_butlast_same)
    then show ?thesis using other [of "butlast p @ [metrics_file_name]"] by (simp add: read_file_sync_def)
  qed
  have r2: "map_sum id (\<lambda>ns. metrics_file_name \<in> set ns) (readdir_sync t' (butlast p)) =
            map_sum id (\<lambda>ns. metrics_file_name \<in> set ns) (readdir_sync t (butlast p))"
  proof (cases "butlast p = []")
    case True
    then show ?thesis using update_keys_other [OF metrics_file_name_not_index]
      by (simp add: t t' readdir_sync_def)
  next
    case False
    then show ?thesis using other [OF False] hd ne by (simp add: readdir_sync_def hd_butlast_same)
  qed
  show ?thesis using r1 r2 r3 unfolding sp [symmetric] by (rule process_file_cong)
qed

lemma process_files_write_frame:
  assumes "wf_node t" and "valid_enum t files" and "write_root_file t index_name x = Inr t'"
  shows "process_files L t' files st = process_files L t files st"
  by (rule process_files_cong) (rule process_file_write_frame [OF assms(1,2) _ assms(3)])

lemma valid_enum_write:
  "write_root_file t index_name x = Inr t' \<Longrightarrow> valid_enum t' files = valid_enum t files"
  by (simp add: valid_enum_def glob_result_write)

end
