(* ===== verification/Interfaces.thy ===== *)
theory Interfaces
  imports RunFacts
begin

text \<open>
  The TypeScript interfaces of lines 7--26 as predicates on the values the script
  builds. TypeScript erases them: the script casts \<open>parsed.data\<close> to
  \<open>DelegateMetadata\<close> and assigns the result of \<open>JSON.parse\<close> to a
  \<open>DelegateMetrics\<close> variable without checking either, so they hold of an entry
  only where the code makes them hold. \<open>k?: string\<close> is \<open>opt_string\<close>: absent, or
  a string.
\<close>

definition opt_string :: "obj \<Rightarrow> string \<Rightarrow> bool" where
  "opt_string ob k = (case map_of ob k of None \<Rightarrow> True | Some (JStr s) \<Rightarrow> True | Some _ \<Rightarrow> False)"

text \<open>\<open>interface DelegateMetadata\<close>: \<open>name?\<close> and \<open>address?\<close> strings, any other key.\<close>

definition delegate_metadata_shape :: "obj \<Rightarrow> bool" where
  "delegate_metadata_shape ob \<longleftrightarrow> opt_string ob ''name'' \<and> opt_string ob ''address''"

text \<open>\<open>interface DelegateMetrics\<close>: five required string properties.\<close>

definition metrics_fields :: "string list" where
  "metrics_fields = [''combined_participation'', ''poll_participation'', ''exec_participation'',
                     ''communication'', ''start_date'']"

definition delegate_metrics_shape :: "jval \<Rightarrow> bool" where
  "delegate_metrics_shape v =
     (case v of
        JObj ps \<Rightarrow> (\<forall>k \<in> set metrics_fields. case map_of ps k of Some (JStr s) \<Rightarrow> True | _ \<Rightarrow> False)
      | _ \<Rightarrow> False)"

section \<open>Lemmas\<close>

lemma opt_string_obj_set:
  "opt_string (obj_set k v ob) k' = (if k' = k then opt_string [(k, v)] k else opt_string ob k')"
  by (simp add: opt_string_def map_of_obj_set)

lemma with_address_keeps_shape:
  "delegate_metadata_shape md \<Longrightarrow> delegate_metadata_shape (with_address rel md)"
  unfolding with_address_def Let_def delegate_metadata_shape_def
  by (simp add: opt_string_obj_set, simp add: opt_string_def)

text \<open>The entry's metadata conforms to \<open>DelegateMetadata\<close> exactly when the front
  matter's \<open>name\<close> does and its \<open>address\<close> does or is overwritten.\<close>

lemma with_address_shape_iff:
  "delegate_metadata_shape (with_address rel md) \<longleftrightarrow>
     opt_string md ''name'' \<and> (starts_with (dir_name rel) ''0x'' \<or> opt_string md ''address'')"
  by (simp add: with_address_def Let_def delegate_metadata_shape_def opt_string_obj_set) (simp add: opt_string_def)

end
