(* ===== verification/LoopMachine.thy ===== *)
theory LoopMachine
  imports Generate
begin

text \<open>
  The loop of lines 58--108 as a state machine. A state is the position of the
  \<open>for (const file of files)\<close> iterator (the files still to come) with the run state,
  or one of the two ways the loop is left: after the last file, or by a throw out of
  the body, which carries the state the throw left. One step runs the body once.
  The machine and \<open>process_files\<close> agree: the final state the steps reach is the
  answer of \<open>process_files\<close>, and every run of steps ends.
\<close>

datatype loop_state = Looping "string list" run_state | Done run_state | Threw exn run_state

inductive loop_step :: "'k env \<Rightarrow> node \<Rightarrow> loop_state \<Rightarrow> loop_state \<Rightarrow> bool" for L t where
  loop_exit: "loop_step L t (Looping [] st) (Done st)"
| loop_next: "process_file L t f st = Inr st' \<Longrightarrow> loop_step L t (Looping (f # fs) st) (Looping fs st')"
| loop_throw: "process_file L t f st = Inl e \<Longrightarrow> loop_step L t (Looping (f # fs) st) (Threw e st)"

code_pred loop_step .

fun loop_final :: "loop_state \<Rightarrow> bool" where
  "loop_final (Looping fs st) = False"
| "loop_final _ = True"

text \<open>What a final state says as an answer of \<open>process_files\<close>.\<close>

fun loop_outcome :: "loop_state \<Rightarrow> ((exn \<times> run_state) + run_state) option" where
  "loop_outcome (Looping fs st) = None"
| "loop_outcome (Done st) = Some (Inr st)"
| "loop_outcome (Threw e st) = Some (Inl (e, st))"

text \<open>Steps left: one per file still to come, and the exit.\<close>

fun loop_rank :: "loop_state \<Rightarrow> nat" where
  "loop_rank (Looping fs st) = Suc (length fs)"
| "loop_rank _ = 0"

text \<open>The states a run of the loop over \<open>files\<close> can be in.\<close>

inductive loop_reach :: "'k env \<Rightarrow> node \<Rightarrow> string list \<Rightarrow> loop_state \<Rightarrow> bool" for L t files where
  reach_start: "loop_reach L t files (Looping files init_run)"
| reach_step: "loop_reach L t files s \<Longrightarrow> loop_step L t s s' \<Longrightarrow> loop_reach L t files s'"

text \<open>What the loop keeps true: the entries pushed so far are those of the files
  already processed, in order, and the run state invariant holds.\<close>

fun loop_inv :: "string list \<Rightarrow> loop_state \<Rightarrow> bool" where
  "loop_inv files (Looping rest st) \<longleftrightarrow>
     (\<exists>pre. files = pre @ rest \<and> map e_path (index_data st) = map path_join1 pre) \<and> run_inv st"
| "loop_inv files (Done st) \<longleftrightarrow> map e_path (index_data st) = map path_join1 files \<and> run_inv st"
| "loop_inv files (Threw e st) \<longleftrightarrow>
     (\<exists>pre f rest. files = pre @ f # rest \<and> map e_path (index_data st) = map path_join1 pre) \<and> run_inv st"

inductive_cases loop_step_LoopingE: "loop_step L t (Looping fs st) s'"
inductive_cases loop_step_DoneE [elim!]: "loop_step L t (Done st) s'"
inductive_cases loop_step_ThrewE [elim!]: "loop_step L t (Threw e st) s'"

section \<open>Lemmas\<close>

lemma loop_step_deterministic: "loop_step L t s s1 \<Longrightarrow> loop_step L t s s2 \<Longrightarrow> s1 = s2"
  by (induction rule: loop_step.induct) (auto elim: loop_step_LoopingE)

lemma loop_final_no_step: "loop_final s \<Longrightarrow> \<not> loop_step L t s s'"
  by (cases s) auto

lemma loop_progress: "\<not> loop_final s \<Longrightarrow> \<exists>s'. loop_step L t s s'"
proof (cases s)
  case (Looping fs st)
  then show ?thesis
  proof (cases fs)
    case Nil
    with Looping show ?thesis by (blast intro: loop_exit)
  next
    case (Cons f fs')
    with Looping show ?thesis
      by (cases "process_file L t f st") (blast intro: loop_throw loop_next)+
  qed
qed simp_all

lemma loop_step_rank: "loop_step L t s s' \<Longrightarrow> loop_rank s' < loop_rank s"
  by (induction rule: loop_step.induct) simp_all

text \<open>The steps from a loop state end in the answer of \<open>process_files\<close>.\<close>

lemma loop_steps_process_files:
  "\<exists>s'. (loop_step L t)\<^sup>*\<^sup>* (Looping fs st) s' \<and> loop_outcome s' = Some (process_files L t fs st)"
proof (induction fs arbitrary: st)
  case Nil
  have "(loop_step L t)\<^sup>*\<^sup>* (Looping [] st) (Done st)" by (blast intro: loop_exit)
  then show ?case by fastforce
next
  case (Cons f fs)
  show ?case
  proof (cases "process_file L t f st")
    case (Inl e)
    then have "(loop_step L t)\<^sup>*\<^sup>* (Looping (f # fs) st) (Threw e st)" by (blast intro: loop_throw)
    with Inl show ?thesis by fastforce
  next
    case (Inr st')
    obtain s' where s': "(loop_step L t)\<^sup>*\<^sup>* (Looping fs st') s'" "loop_outcome s' = Some (process_files L t fs st')"
      using Cons.IH by blast
    have "loop_step L t (Looping (f # fs) st) (Looping fs st')" by (rule loop_next [OF Inr])
    then have "(loop_step L t)\<^sup>*\<^sup>* (Looping (f # fs) st) s'" by (rule converse_rtranclp_into_rtranclp [OF _ s'(1)])
    moreover have "loop_outcome s' = Some (process_files L t (f # fs) st)" using s'(2) Inr by simp
    ultimately show ?thesis by blast
  qed
qed

lemma loop_outcome_final: "loop_outcome s = Some r \<Longrightarrow> loop_final s"
  by (cases s) simp_all

lemma loop_final_outcome: "loop_final s \<Longrightarrow> \<exists>r. loop_outcome s = Some r"
  by (cases s) simp_all

text \<open>Determinism: a final state reachable from \<open>s\<close> is the only one.\<close>

lemma loop_final_unique:
  "(loop_step L t)\<^sup>*\<^sup>* s s1 \<Longrightarrow> loop_final s1 \<Longrightarrow> (loop_step L t)\<^sup>*\<^sup>* s s2 \<Longrightarrow> loop_final s2 \<Longrightarrow> s1 = s2"
proof (induction arbitrary: s2 rule: converse_rtranclp_induct)
  case base
  then show ?case by (auto elim: converse_rtranclpE dest: loop_final_no_step)
next
  case (step s u)
  note su = step.hyps(1) and IH = step.IH and fin1 = step.prems(1) and fin2 = step.prems(3)
  from step.prems(2) show ?case
  proof (cases rule: converse_rtranclpE)
    case base
    with fin2 su show ?thesis by (auto dest: loop_final_no_step)
  next
    case (step u')
    from su step(1) have "u' = u" by (rule loop_step_deterministic [rotated])
    with step(2) have "(loop_step L t)\<^sup>*\<^sup>* u s2" by simp
    from IH [OF fin1 this fin2] show ?thesis .
  qed
qed

lemma loop_steps_final_iff:
  "((loop_step L t)\<^sup>*\<^sup>* (Looping fs st) s' \<and> loop_final s') \<longleftrightarrow> loop_outcome s' = Some (process_files L t fs st) \<and>
     (loop_step L t)\<^sup>*\<^sup>* (Looping fs st) s'"
proof -
  obtain s0 where s0: "(loop_step L t)\<^sup>*\<^sup>* (Looping fs st) s0" "loop_outcome s0 = Some (process_files L t fs st)"
    using loop_steps_process_files by blast
  have f0: "loop_final s0" by (rule loop_outcome_final [OF s0(2)])
  show ?thesis
  proof
    assume a: "(loop_step L t)\<^sup>*\<^sup>* (Looping fs st) s' \<and> loop_final s'"
    then have "s' = s0" using loop_final_unique [OF _ _ s0(1) f0] by blast
    with a s0 show "loop_outcome s' = Some (process_files L t fs st) \<and> (loop_step L t)\<^sup>*\<^sup>* (Looping fs st) s'" by simp
  next
    assume "loop_outcome s' = Some (process_files L t fs st) \<and> (loop_step L t)\<^sup>*\<^sup>* (Looping fs st) s'"
    then show "(loop_step L t)\<^sup>*\<^sup>* (Looping fs st) s' \<and> loop_final s'" by (auto intro: loop_outcome_final)
  qed
qed

text \<open>No infinite run: the rank decreases at every step.\<close>

lemma loop_no_infinite_run: "\<not> (\<forall>i. loop_step L t (g i) (g (Suc i)))"
proof
  assume a: "\<forall>i. loop_step L t (g i) (g (Suc i))"
  have "loop_rank (g i) + i \<le> loop_rank (g 0)" for i
  proof (induction i)
    case (Suc i)
    from a have "loop_rank (g (Suc i)) < loop_rank (g i)" by (blast intro: loop_step_rank)
    with Suc show ?case by simp
  qed simp
  from this [of "Suc (loop_rank (g 0))"] show False by simp
qed

lemma loop_reaches_final: "\<exists>s'. (loop_step L t)\<^sup>*\<^sup>* s s' \<and> loop_final s'"
proof (cases s)
  case (Looping fs st)
  then show ?thesis using loop_steps_process_files [of L t fs st] by (blast intro: loop_outcome_final)
qed auto

lemma loop_steps_Done:
  assumes "process_files L t fs st = Inr st'"
  shows "(loop_step L t)\<^sup>*\<^sup>* (Looping fs st) (Done st')"
proof -
  obtain s' where s': "(loop_step L t)\<^sup>*\<^sup>* (Looping fs st) s'" "loop_outcome s' = Some (process_files L t fs st)"
    using loop_steps_process_files [of L t fs st] by blast
  from s'(2) assms have "loop_outcome s' = Some (Inr st')" by simp
  then have "s' = Done st'" by (cases s') simp_all
  with s' show ?thesis by simp
qed

section \<open>The loop invariant\<close>

lemma loop_inv_start: "loop_inv files (Looping files init_run)"
  by (auto simp: init_run_def run_inv_init)

lemma loop_step_inv: "loop_step L t s s' \<Longrightarrow> loop_inv files s \<Longrightarrow> loop_inv files s'"
proof (induction rule: loop_step.induct)
  case (loop_exit st)
  then show ?case by auto
next
  case (loop_next f st st' fs)
  then obtain pre where d: "files = pre @ f # fs" "map e_path (index_data st) = map path_join1 pre"
    and i: "run_inv st" by auto
  have p: "map e_path (index_data st') = map path_join1 (pre @ [f])"
    using process_file_paths [OF loop_next.hyps] d(2) by simp
  have i': "run_inv st'" by (rule process_file_inv [OF loop_next.hyps i])
  have e: "files = (pre @ [f]) @ fs" using d(1) by simp
  from e p have "\<exists>pre'. files = pre' @ fs \<and> map e_path (index_data st') = map path_join1 pre'" by blast
  with i' show ?case by simp
next
  case (loop_throw f st e fs)
  then show ?case by auto
qed

lemma loop_reach_inv: "loop_reach L t files s \<Longrightarrow> loop_inv files s"
proof (induction rule: loop_reach.induct)
  case reach_start
  show ?case by (rule loop_inv_start)
next
  case (reach_step s s')
  then show ?case by (blast intro: loop_step_inv)
qed

lemma loop_reach_steps: "(loop_step L t)\<^sup>*\<^sup>* (Looping files init_run) s \<Longrightarrow> loop_reach L t files s"
  by (induction rule: rtranclp_induct) (blast intro: loop_reach.intros)+

end
