(* ===== verification/JsonFuel.thy ===== *)
theory JsonFuel
  imports JsonParse
begin

text \<open>
  Termination of the \<open>JSON.parse\<close> model. Every successful call of \<open>pstr\<close>, \<open>pint\<close>,
  \<open>pval\<close>, \<open>pelems\<close> and \<open>pmembers\<close> consumes input; a call that does not run out
  of fuel gives the same answer with more fuel; and twice the length of the input
  is fuel enough. So \<open>parse_json\<close> never answers \<open>fuel_error\<close>, and its answer is
  the answer of the parser with unbounded fuel.
\<close>

section \<open>Consumption of the scanners\<close>

lemma pstr_consumes: "pstr acc s = Inr (x, r) \<Longrightarrow> length r < length s"
proof (induction acc s rule: pstr.induct)
  case (2 acc c cs)
  show ?case
  proof (cases "c = dquote")
    case True
    with "2.prems" show ?thesis by simp
  next
    case nq: False
    show ?thesis
    proof (cases "c = backslash")
      case True
      then obtain e r0 where cs: "cs = e # r0" using "2.prems" nq by (cases cs) auto
      show ?thesis
      proof (cases "e = CHR ''u''")
        case True
        then obtain h where "hex4 r0 = Some h" and "h < 256"
          and p: "pstr (char_of h # acc) (drop 4 r0) = Inr (x, r)"
          using "2.prems" nq \<open>c = backslash\<close> cs by (auto split: option.split_asm if_split_asm)
        then have "length r < length (drop 4 r0)" using "2.IH"(1) nq \<open>c = backslash\<close> cs True by simp
        then show ?thesis using cs by simp
      next
        case False
        then obtain d where "esc_char e = Some d" and p: "pstr (d # acc) r0 = Inr (x, r)"
          using "2.prems" nq \<open>c = backslash\<close> cs by (auto split: option.split_asm)
        then have "length r < length r0" using "2.IH"(2) nq \<open>c = backslash\<close> cs False by simp
        then show ?thesis using cs by simp
      qed
    next
      case False
      with nq "2.prems" have "pstr (c # acc) cs = Inr (x, r)" by (simp split: if_split_asm)
      then have "length r < length cs" using "2.IH"(3) nq False "2.prems" by (simp split: if_split_asm)
      then show ?thesis by simp
    qed
  qed
qed simp

section \<open>Consumption of the parser\<close>

lemma pint_consumes: "pint s = Inr (i, r) \<Longrightarrow> length r < length s"
proof -
  assume a: "pint s = Inr (i, r)"
  define s1 where "s1 = (if s \<noteq> [] \<and> hd s = CHR ''-'' then tl s else s)"
  from a have ne: "takeWhile is_digit s1 \<noteq> []" and r: "r = dropWhile is_digit s1"
    by (auto simp: pint_def Let_def s1_def split: if_splits)
  have "length (dropWhile is_digit s1) < length s1"
    using ne by (cases s1) (auto simp: less_Suc_eq_le length_dropWhile_le split: if_splits)
  then have "length r < length s1" using r by simp
  moreover have "length s1 \<le> length s" by (auto simp: s1_def)
  ultimately show ?thesis by linarith
qed

lemma length_skip_ws: "length (skip_ws s) \<le> length s"
  by (simp add: skip_ws_def length_dropWhile_le)

lemma parse_consumes:
  shows "pval n s = Inr (v, r) \<Longrightarrow> length r < length s"
    and "pelems n acc s = Inr (v, r) \<Longrightarrow> length r < length s"
    and "pmembers n ob s = Inr (v, r) \<Longrightarrow> length r < length s"
proof (induction n s and n acc s and n ob s arbitrary: v r and v r and v r rule: pval_pelems_pmembers.induct)
  case (2 n s)
  then obtain c r0 where s0: "skip_ws s = c # r0" by (cases "skip_ws s") auto
  have ls: "length (c # r0) \<le> length s" using length_skip_ws [of s] s0 by simp
  have "length r < length (c # r0)"
  proof -
    consider "c = CHR ''[''" | "c \<noteq> CHR ''[''" "c = CHR ''{''" | "c \<noteq> CHR ''[''" "c \<noteq> CHR ''{''" by blast
    then show ?thesis
    proof cases
      case 1
      show ?thesis
      proof (cases "starts_with (skip_ws r0) '']''")
        case True
        with "2.prems" s0 1 have "r = tl (skip_ws r0)" by simp
        then show ?thesis using length_skip_ws [of r0] by (cases "skip_ws r0") auto
      next
        case False
        with "2.prems" s0 1 have "pelems n [] r0 = Inr (v, r)" by simp
        with "2.IH"(1) [OF s0 1 False] show ?thesis by simp
      qed
    next
      case 2
      show ?thesis
      proof (cases "starts_with (skip_ws r0) ''}''")
        case True
        with "2.prems" s0 2 have "r = tl (skip_ws r0)" by simp
        then show ?thesis using length_skip_ws [of r0] by (cases "skip_ws r0") auto
      next
        case False
        with "2.prems" s0 2 have "pmembers n [] r0 = Inr (v, r)" by simp
        with "2.IH"(2) [OF s0 2 False] show ?thesis by simp
      qed
    next
      case 3
      consider (q) "c = dquote" | (w) "c \<noteq> dquote" "c = CHR ''t'' \<or> c = CHR ''f'' \<or> c = CHR ''n''"
        | (d) "c \<noteq> dquote" "\<not> (c = CHR ''t'' \<or> c = CHR ''f'' \<or> c = CHR ''n'')" by blast
      then show ?thesis
      proof cases
        case q
        with "2.prems" s0 3 have "(case pstr [] r0 of Inl e \<Rightarrow> Inl e | Inr (str, r') \<Rightarrow> Inr (JStr str, r')) = Inr (v, r)"
          by simp
        then obtain str where "pstr [] r0 = Inr (str, r)" by (auto split: sum.split_asm)
        then show ?thesis by (auto dest: pstr_consumes)
      next
        case w
        with "2.prems" s0 3 have "\<exists>wd u. pword wd u r0 = Inr (v, r)" by (auto split: if_split_asm)
        then show ?thesis by (auto simp: pword_def split: if_split_asm)
      next
        case d
        with "2.prems" s0 3 have "(case pint (c # r0) of Inl e \<Rightarrow> Inl e | Inr (i, r') \<Rightarrow> Inr (JNum i, r')) = Inr (v, r)"
          by (simp split: if_split_asm)
        then obtain i where "pint (c # r0) = Inr (i, r)" by (auto split: sum.split_asm)
        then show ?thesis by (rule pint_consumes)
      qed
    qed
  qed
  with ls show ?case by linarith
next
  case (4 n acc s)
  from "4.prems" obtain v0 r0 where p: "pval n s = Inr (v0, r0)"
    by (auto split: sum.split_asm)
  have l0: "length r0 < length s" using "4.IH"(1) [OF p] .
  from "4.prems" p obtain c r' where sk: "skip_ws r0 = c # r'"
    by (cases "skip_ws r0") auto
  have l1: "length r' < length r0" using length_skip_ws [of r0] sk by simp
  show ?case
  proof (cases "c = CHR '',''")
    case True
    with "4.prems" p sk have "pelems n (acc @ [v0]) r' = Inr (v, r)" by simp
    with "4.IH"(2) [OF p refl sk True] have "length r < length r'" by simp
    with l0 l1 show ?thesis by linarith
  next
    case False
    with "4.prems" p sk have "r = r'" by (simp split: if_split_asm)
    with l0 l1 show ?thesis by simp
  qed
next
  case (6 n ob s)
  from "6.prems" obtain c r0 where s0: "skip_ws s = c # r0" by (cases "skip_ws s") auto
  from "6.prems" s0 have q: "c = dquote" by (simp split: if_split_asm)
  from "6.prems" s0 q obtain k r1 where pk: "pstr [] r0 = Inr (k, r1)" by (auto split: sum.split_asm)
  from "6.prems" s0 q pk obtain d r2 where sk1: "skip_ws r1 = d # r2" by (cases "skip_ws r1") auto
  from "6.prems" s0 q pk sk1 have colon: "d = CHR '':''" by (simp split: if_split_asm)
  from "6.prems" s0 q pk sk1 colon obtain v0 r3 where pv: "pval n r2 = Inr (v0, r3)" by (auto split: sum.split_asm)
  from "6.prems" s0 q pk sk1 colon pv obtain e r4 where sk3: "skip_ws r3 = e # r4" by (cases "skip_ws r3") auto
  have l3: "length r3 < length r2" by (rule "6.IH"(1) [OF s0 _ pk refl sk1 _ pv]) (simp_all add: q colon)
  have "length r4 < length r3" using length_skip_ws [of r3] sk3 by simp
  moreover have "length r2 < length r1" using length_skip_ws [of r1] sk1 by simp
  moreover have "length r1 < length r0" using pk by (rule pstr_consumes)
  moreover have "length r0 < length s" using length_skip_ws [of s] s0 by simp
  moreover have "length r \<le> length r4"
  proof (cases "e = CHR '',''")
    case True
    with "6.prems" s0 q pk sk1 colon pv sk3 have pm: "pmembers n (obj_set k v0 ob) r4 = Inr (v, r)" by simp
    have "length r < length r4"
      by (rule "6.IH"(2) [OF s0 _ pk refl sk1 _ pv refl sk3 _ pm]) (simp_all add: q colon True)
    then show ?thesis by simp
  next
    case False
    with "6.prems" s0 q pk sk1 colon pv sk3 show ?thesis by (simp split: if_split_asm)
  qed
  ultimately show ?case using l3 by linarith
qed simp_all

section \<open>Fuel monotonicity\<close>

lemma fuel_error_distinct [simp]: "syntax_error \<noteq> fuel_error" "outside_model \<noteq> fuel_error"
  by (simp_all add: syntax_error_def outside_model_def fuel_error_def)

lemma pstr_not_fuel: "pstr acc s \<noteq> Inl fuel_error"
  by (induction acc s rule: pstr.induct) (auto split: list.split option.split)

lemma pint_not_fuel: "pint s \<noteq> Inl fuel_error"
  by (simp add: pint_def Let_def)

lemma pword_not_fuel: "pword w v s \<noteq> Inl fuel_error"
  by (simp add: pword_def)

text \<open>More fuel than a call used does not change its answer.\<close>

lemma parse_fuel_mono:
  shows "pval n s \<noteq> Inl fuel_error \<Longrightarrow> pval (Suc n) s = pval n s"
    and "pelems n acc s \<noteq> Inl fuel_error \<Longrightarrow> pelems (Suc n) acc s = pelems n acc s"
    and "pmembers n ob s \<noteq> Inl fuel_error \<Longrightarrow> pmembers (Suc n) ob s = pmembers n ob s"
proof (induction n s and n acc s and n ob s rule: pval_pelems_pmembers.induct)
  case (2 n s)
  show ?case
  proof (cases "skip_ws s")
    case (Cons c r0)
    consider "c = CHR ''[''" "\<not> starts_with (skip_ws r0) '']''" | "c = CHR ''{''" "\<not> starts_with (skip_ws r0) ''}''"
      | "\<not> (c = CHR ''['' \<and> \<not> starts_with (skip_ws r0) '']'')" "\<not> (c = CHR ''{'' \<and> \<not> starts_with (skip_ws r0) ''}'')"
      by blast
    then show ?thesis
    proof cases
      case 1
      with "2.prems" Cons have "pelems n [] r0 \<noteq> Inl fuel_error" by simp
      with "2.IH"(1) [OF Cons 1] Cons 1 show ?thesis by simp
    next
      case 2
      with "2.prems" Cons have "pmembers n [] r0 \<noteq> Inl fuel_error" by simp
      with "2.IH"(2) [OF Cons _ 2(1) 2(2)] Cons 2 show ?thesis by simp
    next
      case 3
      with Cons show ?thesis by auto
    qed
  qed simp
next
  case (4 n acc s)
  from "4.prems" have pv: "pval n s \<noteq> Inl fuel_error" by (auto split: sum.split_asm)
  note e = "4.IH"(1) [OF pv]
  show ?case
  proof (cases "pval n s")
    case (Inr x)
    obtain v r where x: "x = (v, r)" by (cases x)
    show ?thesis
    proof (cases "skip_ws r")
      case (Cons c r')
      show ?thesis
      proof (cases "c = CHR '',''")
        case True
        with "4.prems" Inr x Cons have "pelems n (acc @ [v]) r' \<noteq> Inl fuel_error" by simp
        with "4.IH"(2) [OF Inr x [symmetric] Cons True] e Inr x Cons True show ?thesis by simp
      qed (use e Inr x Cons in simp)
    qed (use e Inr x in simp)
  qed (use e in simp)
next
  case (6 n ob s)
  show ?case
  proof (cases "skip_ws s")
    case (Cons c r0)
    note s0 = Cons
    show ?thesis
    proof (cases "c = dquote \<and> (\<exists>k r1 r2. pstr [] r0 = Inr (k, r1) \<and> skip_ws r1 = CHR '':'' # r2)")
      case True
      then obtain k r1 r2 where q: "c = dquote" and pk: "pstr [] r0 = Inr (k, r1)"
        and sk1: "skip_ws r1 = CHR '':'' # r2" by blast
      from "6.prems" s0 q pk sk1 have pv: "pval n r2 \<noteq> Inl fuel_error" by (auto split: sum.split_asm)
      note e = "6.IH"(1) [OF s0 _ pk refl sk1 _ pv]
      show ?thesis
      proof (cases "pval n r2")
        case (Inr x)
        obtain v r3 where x: "x = (v, r3)" by (cases x)
        show ?thesis
        proof (cases "skip_ws r3")
          case (Cons e' r4)
          note Cons2 = Cons
          show ?thesis
          proof (cases "e' = CHR '',''")
            case True
            with "6.prems" s0 q pk sk1 Inr x Cons2
            have "pmembers n (obj_set k v ob) r4 \<noteq> Inl fuel_error" by simp
            with "6.IH"(2) [OF s0 _ pk refl sk1 _ Inr x [symmetric] Cons2 True] e s0 q pk sk1 Inr x Cons2 True
            show ?thesis by simp
          qed (use e s0 q pk sk1 Inr x Cons2 in simp)
        qed (use e s0 q pk sk1 Inr x in simp)
      qed (use e s0 q pk sk1 in simp)
    next
      case False
      show ?thesis
      proof (cases "c = dquote")
        case q: True
        show ?thesis
        proof (cases "pstr [] r0")
          case (Inr y)
          obtain k r1 where y: "y = (k, r1)" by (cases y)
          show ?thesis
          proof (cases "skip_ws r1")
            case (Cons d r2)
            with False q Inr y have "d \<noteq> CHR '':''" by auto
            with s0 q Inr y Cons show ?thesis by simp
          qed (use s0 q Inr y in simp)
        qed (use s0 q in simp)
      qed (use s0 in simp)
    qed
  qed simp
qed simp_all

section \<open>Enough fuel\<close>

lemma pval_fuel_add: "pval n s \<noteq> Inl fuel_error \<Longrightarrow> pval (n + k) s = pval n s"
  by (induction k) (simp_all add: parse_fuel_mono(1) del: pval.simps pelems.simps pmembers.simps)

lemma pelems_fuel_add: "pelems n acc s \<noteq> Inl fuel_error \<Longrightarrow> pelems (n + k) acc s = pelems n acc s"
  by (induction k) (simp_all add: parse_fuel_mono(2) del: pval.simps pelems.simps pmembers.simps)

lemma pmembers_fuel_add: "pmembers n ob s \<noteq> Inl fuel_error \<Longrightarrow> pmembers (n + k) ob s = pmembers n ob s"
  by (induction k) (simp_all add: parse_fuel_mono(3) del: pval.simps pelems.simps pmembers.simps)

text \<open>Twice the length of the input is fuel enough: every second call consumes a
  character.\<close>

lemma parse_fuel_enough:
  shows "2 * length s < n \<Longrightarrow> pval n s \<noteq> Inl fuel_error"
    and "2 * length s + 1 < n \<Longrightarrow> pelems n acc s \<noteq> Inl fuel_error"
    and "2 * length s + 1 < n \<Longrightarrow> pmembers n ob s \<noteq> Inl fuel_error"
proof (induction n s and n acc s and n ob s rule: pval_pelems_pmembers.induct)
  case (2 n s)
  show ?case
  proof (cases "skip_ws s")
    case (Cons c r0)
    have l: "length r0 < length s" using length_skip_ws [of s] Cons by simp
    consider "c = CHR ''['' \<and> \<not> starts_with (skip_ws r0) '']''" | "c = CHR ''{'' \<and> \<not> starts_with (skip_ws r0) ''}''"
      | "\<not> (c = CHR ''['' \<and> \<not> starts_with (skip_ws r0) '']'')" "\<not> (c = CHR ''{'' \<and> \<not> starts_with (skip_ws r0) ''}'')"
      by blast
    then show ?thesis
    proof cases
      case 1
      then have "pelems n [] r0 \<noteq> Inl fuel_error" using "2.IH"(1) [OF Cons] "2.prems" l by auto
      with 1 Cons show ?thesis by simp
    next
      case 2
      then have "pmembers n [] r0 \<noteq> Inl fuel_error" using "2.IH"(2) [OF Cons] "2.prems" l by auto
      with 2 Cons show ?thesis by simp
    next
      case 3
      show ?thesis
      proof (cases "c = CHR ''['' \<or> c = CHR ''{''")
        case True
        with 3 Cons show ?thesis by auto
      next
        case nb: False
        show ?thesis
        proof (cases "c = dquote")
          case True
          with nb Cons pstr_not_fuel [of "[]" r0] show ?thesis by (auto split: sum.split)
        next
          case False
          with nb Cons show ?thesis
            by (auto simp: pword_not_fuel pint_not_fuel split: sum.split)
        qed
      qed
    qed
  qed simp
next
  case (4 n acc s)
  have pv: "pval n s \<noteq> Inl fuel_error" using "4.IH"(1) "4.prems" by simp
  show ?case
  proof (cases "pval n s")
    case (Inr x)
    obtain v r where x: "x = (v, r)" by (cases x)
    have lr: "length r < length s" using parse_consumes(1) Inr x by simp
    show ?thesis
    proof (cases "skip_ws r")
      case (Cons c r')
      have lr': "length r' < length r" using length_skip_ws [of r] Cons by simp
      show ?thesis
      proof (cases "c = CHR '',''")
        case True
        have "pelems n (acc @ [v]) r' \<noteq> Inl fuel_error"
          using "4.IH"(2) [OF Inr x [symmetric] Cons True] "4.prems" lr lr' by simp
        with Inr x Cons True show ?thesis by simp
      qed (use Inr x Cons in simp)
    qed (use Inr x in simp)
  qed (use pv in simp)
next
  case (6 n ob s)
  show ?case
  proof (cases "skip_ws s")
    case (Cons c r0)
    note s0 = Cons
    have l0: "length r0 < length s" using length_skip_ws [of s] s0 by simp
    show ?thesis
    proof (cases "c = dquote")
      case q: True
      show ?thesis
      proof (cases "pstr [] r0")
        case (Inr y)
        obtain k r1 where y: "y = (k, r1)" by (cases y)
        have l1: "length r1 < length r0" using pstr_consumes Inr y by simp
        show ?thesis
        proof (cases "skip_ws r1")
          case (Cons d r2)
          note s1 = Cons
          have l2: "length r2 < length r1" using length_skip_ws [of r1] s1 by simp
          show ?thesis
          proof (cases "d = CHR '':''")
            case colon: True
            have pv: "pval n r2 \<noteq> Inl fuel_error"
              using "6.IH"(1) [OF s0 _ Inr y [symmetric] s1] q colon "6.prems" l0 l1 l2 by simp
            show ?thesis
            proof (cases "pval n r2")
              case (Inr x)
              obtain v r3 where x: "x = (v, r3)" by (cases x)
              have l3: "length r3 < length r2" using parse_consumes(1) Inr x by simp
              show ?thesis
              proof (cases "skip_ws r3")
                case (Cons e r4)
                have l4: "length r4 < length r3" using length_skip_ws [of r3] Cons by simp
                show ?thesis
                proof (cases "e = CHR '',''")
                  case True
                  have "pmembers n (obj_set k v ob) r4 \<noteq> Inl fuel_error"
                    using "6.IH"(2) [OF s0 _ \<open>pstr [] r0 = Inr y\<close> y [symmetric] s1 _ Inr x [symmetric] Cons True]
                      q colon "6.prems" l0 l1 l2 l3 l4 by simp
                  with s0 q \<open>pstr [] r0 = Inr y\<close> y s1 colon Inr x Cons True show ?thesis by simp
                qed (use s0 q \<open>pstr [] r0 = Inr y\<close> y s1 colon Inr x Cons in simp)
              qed (use s0 q \<open>pstr [] r0 = Inr y\<close> y s1 colon Inr x in simp)
            qed (use s0 q \<open>pstr [] r0 = Inr y\<close> y s1 colon pv in simp)
          qed (use s0 q Inr y s1 in simp)
        qed (use s0 q Inr y in simp)
      qed (use s0 q pstr_not_fuel in \<open>auto split: sum.split\<close>)
    qed (use s0 in simp)
  qed simp
qed simp_all

section \<open>The parser with unbounded fuel\<close>

text \<open>Two runs that both do not run out of fuel agree.\<close>

lemma pval_fuel_indep:
  assumes "pval n s \<noteq> Inl fuel_error" and "pval m s \<noteq> Inl fuel_error"
  shows "pval n s = pval m s"
proof -
  have "pval (n + m) s = pval n s" by (rule pval_fuel_add [OF assms(1)])
  moreover have "pval (m + n) s = pval m s" by (rule pval_fuel_add [OF assms(2)])
  ultimately show ?thesis by (simp add: add.commute)
qed

lemma pval_enough_indep: "2 * length s < n \<Longrightarrow> 2 * length s < m \<Longrightarrow> pval n s = pval m s"
  by (rule pval_fuel_indep) (simp_all add: parse_fuel_enough(1))

lemma parse_with_enough: "2 * length s < n \<Longrightarrow> parse_with n s = parse_json s"
  unfolding parse_json_def parse_with_def using pval_enough_indep [of s n "2 * length s + 1"] by simp

lemma parse_with_fuel_error: "parse_with n s = Inl fuel_error \<Longrightarrow> pval n s = Inl fuel_error"
  by (auto simp: parse_with_def split: sum.splits prod.splits if_splits)

lemma parse_json_not_fuel: "parse_json s \<noteq> Inl fuel_error"
proof
  assume "parse_json s = Inl fuel_error"
  then have "pval (2 * length s + 1) s = Inl fuel_error"
    unfolding parse_json_def by (rule parse_with_fuel_error)
  with parse_fuel_enough(1) [of s "2 * length s + 1"] show False by simp
qed

end
