(* ===== verification/JsonRoundtrip.thy ===== *)
theory JsonRoundtrip
  imports JsonFuel
begin

text \<open>
  \<open>JSON.parse\<close> reads back what \<open>JSON.stringify(v, null, 2)\<close> wrote. Printing loses
  the \<open>undefined\<close>s (an array prints them \<open>null\<close>, an object leaves their properties
  out), which \<open>jnorm\<close> applies to a value; and an object with a repeated key prints
  both members while parsing keeps one, which \<open>keys_ok\<close> excludes. Under these two
  the parser returns \<open>jnorm v\<close> for the text of \<open>v\<close>. The proof goes by induction
  on the value, through the text each printer emits: decimal digits
  (\<open>dec_string\<close>, \<open>int_string\<close>), quoted strings (\<open>quote_char\<close>), and the items of
  an array or object joined at an indent of spaces. \<open>follow_ok\<close> is what may follow
  a number without extending it.
\<close>

definition follow_ok :: "string \<Rightarrow> bool" where
  "follow_ok r \<longleftrightarrow> r = [] \<or> \<not> is_digit (hd r) \<and> hd r \<noteq> CHR ''.'' \<and> hd r \<noteq> CHR ''e'' \<and> hd r \<noteq> CHR ''E''"

fun jnorm :: "jval \<Rightarrow> jval" where
  "jnorm (JArr vs) = JArr (map (\<lambda>v. if v = JUndef then JNull else jnorm v) vs)"
| "jnorm (JObj ps) = JObj (map (\<lambda>(k, v). (k, jnorm v)) (filter (\<lambda>(k, v). v \<noteq> JUndef) ps))"
| "jnorm v = v"

fun keys_ok :: "jval \<Rightarrow> bool" where
  "keys_ok (JArr vs) = (\<forall>v \<in> set vs. keys_ok v)"
| "keys_ok (JObj ps) = (distinct (map fst (filter (\<lambda>(k, v). v \<noteq> JUndef) ps)) \<and> (\<forall>(k, v) \<in> set ps. keys_ok v))"
| "keys_ok v = True"

section \<open>Numbers\<close>

lemma of_char_digit_char: "d < 10 \<Longrightarrow> of_char (digit_char d) = 48 + d"
  by (simp add: digit_char_def)

lemma is_digit_digit_char: "d < 10 \<Longrightarrow> is_digit (digit_char d)"
  by (simp add: is_digit_def less_eq_char_def of_char_digit_char)

lemma digits_nat_snoc: "digits_nat (xs @ [c]) = 10 * digits_nat xs + (of_char c - 48)"
  by (simp add: digits_nat_def)

lemma dec_string_digits: "\<forall>c \<in> set (dec_string n). is_digit c"
proof (induction n rule: dec_string.induct)
  case (1 n)
  then show ?case
    by (subst dec_string.simps) (auto simp: is_digit_digit_char)
qed

lemma digits_nat_dec_string: "digits_nat (dec_string n) = n"
proof (induction n rule: dec_string.induct)
  case (1 n)
  show ?case
  proof (cases "n < 10")
    case True
    then show ?thesis by (subst dec_string.simps) (simp add: digits_nat_def of_char_digit_char)
  next
    case False
    with "1.IH" show ?thesis
      by (subst dec_string.simps) (simp add: digits_nat_snoc of_char_digit_char)
  qed
qed

lemma dec_string_leading_zero: "hd (dec_string n) = CHR ''0'' \<Longrightarrow> n = 0"
proof (induction n rule: dec_string.induct)
  case (1 n)
  show ?case
  proof (cases "n < 10")
    case True
    with "1.prems" have "digit_char n = CHR ''0''" by (simp add: dec_string.simps)
    then have "of_char (digit_char n) = (48::nat)" by simp
    with True show ?thesis by (simp add: of_char_digit_char)
  next
    case False
    then have "hd (dec_string (n div 10)) = CHR ''0''"
      using "1.prems" dec_string_not_Nil [of "n div 10"] by (simp add: dec_string.simps [of n])
    with "1.IH" False have "n div 10 = 0" by simp
    with False show ?thesis by simp
  qed
qed

lemma dec_string_single: "length (dec_string n) = 1 \<longleftrightarrow> n < 10"
proof (induction n rule: dec_string.induct)
  case (1 n)
  then show ?case using dec_string_not_Nil [of "n div 10"] by (subst dec_string.simps) auto
qed

lemma takeWhile_digits_append:
  "\<forall>c \<in> set ds. is_digit c \<Longrightarrow> r = [] \<or> \<not> is_digit (hd r) \<Longrightarrow>
   takeWhile is_digit (ds @ r) = ds \<and> dropWhile is_digit (ds @ r) = r"
  by (cases r) (simp_all add: takeWhile_append2 dropWhile_append2 takeWhile_eq_all_conv dropWhile_eq_self_iff)

lemma pint_int_string:
  assumes "follow_ok r"
  shows "pint (int_string i @ r) = Inr (i, r)"
proof -
  let ?n = "nat \<bar>i\<bar>"
  have tw: "takeWhile is_digit (dec_string ?n @ r) = dec_string ?n" and dw: "dropWhile is_digit (dec_string ?n @ r) = r"
    using takeWhile_digits_append [OF dec_string_digits] assms by (auto simp: follow_ok_def)
  have lz: "\<not> (hd (dec_string ?n) = CHR ''0'' \<and> 1 < length (dec_string ?n))"
    using dec_string_leading_zero [of ?n] dec_string_single [of ?n] by auto
  have nd: "hd (dec_string ?n @ r) \<noteq> CHR ''-''"
    using dec_string_digits [of ?n] dec_string_not_Nil [of ?n] by (cases "dec_string ?n") (auto simp: is_digit_def)
  show ?thesis
  proof (cases "i < 0")
    case True
    then have "int_string i = CHR ''-'' # dec_string ?n" by (simp add: int_string_def)
    with tw dw lz assms True show ?thesis
      by (auto simp: pint_def Let_def digits_nat_dec_string dec_string_not_Nil follow_ok_def)
  next
    case False
    then have "int_string i = dec_string ?n" by (simp add: int_string_def)
    with tw dw lz nd assms False show ?thesis
      by (auto simp: pint_def Let_def digits_nat_dec_string dec_string_not_Nil follow_ok_def)
  qed
qed

section \<open>Strings\<close>

lemma hex_val_hex_digit_all: "list_all (\<lambda>d. hex_val (hex_digit d) = Some d) [0..<16]"
  by code_simp

lemma hex_val_hex_digit: "d < 16 \<Longrightarrow> hex_val (hex_digit d) = Some d"
  using hex_val_hex_digit_all by (simp add: list_all_iff)

lemma hex4_control:
  assumes "of_char c < (32::nat)"
  shows "hex4 ([CHR ''0'', CHR ''0'', hex_digit (of_char c div 16), hex_digit (of_char c mod 16)] @ r) = Some (of_char c)"
proof -
  have h1: "hex_val (hex_digit (of_char c div 16)) = Some (of_char c div 16)"
    using assms by (intro hex_val_hex_digit) simp
  have h2: "hex_val (hex_digit (of_char c mod 16)) = Some (of_char c mod 16)"
    by (intro hex_val_hex_digit) simp
  have h0: "hex_val CHR ''0'' = Some 0" by (simp add: hex_val_def is_digit_def)
  have "16 * (of_char c div 16) + of_char c mod 16 = (of_char c :: nat)" by simp
  with h0 h1 h2 show ?thesis by (simp add: hex4_def)
qed

lemma pstr_quote_char: "pstr acc (quote_char c @ r) = pstr (c # acc) r"
proof -
  consider "c = CHR 0x08" | "c = CHR 0x09" | "c = CHR 0x0A" | "c = CHR 0x0C" | "c = CHR 0x0D" | "c = dquote"
    | "c = backslash" | "c \<notin> {CHR 0x08, CHR 0x09, CHR 0x0A, CHR 0x0C, CHR 0x0D, dquote, backslash}" "of_char c < (32::nat)"
    | "c \<notin> {CHR 0x08, CHR 0x09, CHR 0x0A, CHR 0x0C, CHR 0x0D, dquote, backslash}" "\<not> of_char c < (32::nat)"
    by blast
  then show ?thesis
  proof cases
    case 8
    have "of_char c < (256::nat)" using 8(2) by simp
    with 8 hex4_control [OF 8(2), of r] show ?thesis by (simp add: quote_char_def)
  next
    case 9
    then show ?thesis by (simp add: quote_char_def)
  qed (simp_all add: quote_char_def esc_char_def)
qed

lemma pstr_quoted: "pstr acc (concat (map quote_char s) @ dquote # r) = Inr (rev acc @ s, r)"
  by (induction s arbitrary: acc) (simp_all add: pstr_quote_char)

section \<open>Whitespace and the printer\<close>

lemma skip_ws_Cons: "\<not> json_ws c \<Longrightarrow> skip_ws (c # s) = c # s"
  by (simp add: skip_ws_def)

lemma skip_ws_spaces: "\<forall>c \<in> set w. json_ws c \<Longrightarrow> skip_ws (w @ s) = skip_ws s"
  by (induction w) (simp_all add: skip_ws_def)

lemma pval_skip_ws: "skip_ws s = skip_ws s' \<Longrightarrow> pval n s = pval n s'"
  by (cases n) simp_all

lemma ser_head:
  "ser ind v = Some s \<Longrightarrow> s \<noteq> [] \<and> \<not> json_ws (hd s) \<and> hd s \<noteq> CHR '']'' \<and> hd s \<noteq> CHR ''}'' \<and> hd s \<noteq> CHR '',''"
proof (cases v)
  case (JNum i)
  moreover assume "ser ind v = Some s"
  ultimately have s: "s = int_string i" by simp
  have "int_string i \<noteq> [] \<and> (hd (int_string i) = CHR ''-'' \<or> is_digit (hd (int_string i)))"
    using dec_string_digits [of "nat \<bar>i\<bar>"] dec_string_not_Nil [of "nat \<bar>i\<bar>"]
    by (cases "dec_string (nat \<bar>i\<bar>)") (auto simp: int_string_def)
  then show ?thesis using s by (auto simp: is_digit_def json_ws_def)
qed (auto simp: json_quote_def wrap_members_def json_ws_def split: if_splits)

section \<open>Arrays\<close>

lemma join_sep_Cons2: "xs \<noteq> [] \<Longrightarrow> join_sep sep (x # xs) = x @ sep @ join_sep sep xs"
  by (cases xs) simp_all

lemma json_ws_gap: "\<forall>c \<in> set ind. c = CHR '' '' \<Longrightarrow> \<forall>c \<in> set (newline # ind @ gap). json_ws c"
  by (auto simp: json_ws_def gap_def)

lemma follow_ok_Cons: "\<not> is_digit c \<Longrightarrow> c \<noteq> CHR ''.'' \<Longrightarrow> c \<noteq> CHR ''e'' \<Longrightarrow> c \<noteq> CHR ''E'' \<Longrightarrow> follow_ok (c # r)"
  by (simp add: follow_ok_def)

lemma follow_ok_newline [simp]: "follow_ok (newline # r)"
  by (simp add: follow_ok_def is_digit_def)

lemma follow_ok_comma [simp]: "follow_ok (CHR '','' # r)"
  by (simp add: follow_ok_def is_digit_def)

lemma skip_ws_close:
  "\<forall>c \<in> set ind. c = CHR '' '' \<Longrightarrow> \<not> json_ws cl \<Longrightarrow> skip_ws (newline # ind @ cl # r) = cl # r"
  by (induction ind) (auto simp: skip_ws_def json_ws_def)

text \<open>The elements of a serialised array, parsed one after the other.\<close>

lemma pelems_join:
  assumes "ps \<noteq> []"
    and "\<forall>(x, u) \<in> set ps. x \<noteq> [] \<and> \<not> json_ws (hd x) \<and> (\<forall>r'. follow_ok r' \<longrightarrow> (\<exists>n. pval n (x @ r') = Inr (u, r')))"
    and "\<forall>c \<in> set W. json_ws c" and "\<forall>c \<in> set ind. c = CHR '' ''"
  shows "\<exists>n. pelems n acc (W @ join_sep (CHR '','' # newline # ind @ gap) (map fst ps) @ newline # ind @ CHR '']'' # r) =
             Inr (JArr (acc @ map snd ps), r)"
  using assms(1-3)
proof (induction ps arbitrary: acc W)
  case (Cons p ps)
  obtain x u where p: "p = (x, u)" by (cases p)
  have px: "\<And>r'. follow_ok r' \<Longrightarrow> \<exists>n. pval n (x @ r') = Inr (u, r')" using Cons.prems(2) p by auto
  have hx: "x \<noteq> []" "\<not> json_ws (hd x)" using Cons.prems(2) p by auto
  have sk: "\<And>t. skip_ws (W @ x @ t) = skip_ws (x @ t)" using skip_ws_spaces [OF Cons.prems(3)] by simp
  let ?sep = "CHR '','' # newline # ind @ gap"
  show ?case
  proof (cases "ps = []")
    case True
    let ?T = "newline # ind @ CHR '']'' # r"
    obtain n1 where n1: "pval n1 (x @ ?T) = Inr (u, ?T)" using px [of ?T] by auto
    have "skip_ws ?T = CHR '']'' # r" using skip_ws_close [OF assms(4)] by (simp add: json_ws_def)
    then have e: "pelems (Suc n1) acc (W @ x @ ?T) = Inr (JArr (acc @ [u]), r)"
      using n1 pval_skip_ws [OF sk [of ?T], of n1] by simp
    have g: "W @ join_sep ?sep (map fst (p # ps)) @ ?T = W @ x @ ?T" "acc @ map snd (p # ps) = acc @ [u]"
      using True p by simp_all
    show ?thesis unfolding g using e by blast
  next
    case False
    let ?R = "join_sep ?sep (map fst ps) @ newline # ind @ CHR '']'' # r"
    obtain n1 where n1: "pval n1 (x @ ?sep @ ?R) = Inr (u, ?sep @ ?R)" using px [of "?sep @ ?R"] by auto
    obtain n2 where n2: "pelems n2 (acc @ [u]) ((newline # ind @ gap) @ ?R) = Inr (JArr ((acc @ [u]) @ map snd ps), r)"
      using Cons.IH [OF False _ json_ws_gap [OF assms(4)], of "acc @ [u]"] Cons.prems(2) by auto
    have e1: "pval (n1 + n2) (W @ x @ ?sep @ ?R) = Inr (u, ?sep @ ?R)"
      using pval_fuel_add [of n1 "x @ ?sep @ ?R" n2] n1 pval_skip_ws [OF sk [of "?sep @ ?R"]] by simp
    have e2: "pelems (n1 + n2) (acc @ [u]) ((newline # ind @ gap) @ ?R) = Inr (JArr ((acc @ [u]) @ map snd ps), r)"
      using pelems_fuel_add [of n2 "acc @ [u]" _ n1] n2 by (simp add: add.commute)
    have "skip_ws (?sep @ ?R) = ?sep @ ?R" by (simp add: skip_ws_Cons json_ws_def)
    then have e: "pelems (Suc (n1 + n2)) acc (W @ x @ ?sep @ ?R) = Inr (JArr (acc @ u # map snd ps), r)"
      using e1 e2 by simp
    have g: "W @ join_sep ?sep (map fst (p # ps)) @ newline # ind @ CHR '']'' # r = W @ x @ ?sep @ ?R"
      "acc @ map snd (p # ps) = acc @ u # map snd ps"
      using False p by (simp_all add: join_sep_Cons2)
    show ?thesis unfolding g using e by blast
  qed
qed simp

section \<open>Objects\<close>

lemma obj_set_new: "k \<notin> set (map fst ob) \<Longrightarrow> obj_set k v ob = ob @ [(k, v)]"
  by (induction ob) (auto simp: obj_set_def)

text \<open>One member of a serialised object: its key, the colon, its value.\<close>

lemma pmembers_member:
  assumes "\<forall>c \<in> set W. json_ws c" and "pval n (x @ t) = Inr (u, t)"
  shows "pmembers (Suc n) acc (W @ (json_quote k @ '': '' @ x) @ t) =
           (case skip_ws t of
              [] \<Rightarrow> Inl syntax_error
            | c # r' \<Rightarrow> (if c = CHR '','' then pmembers n (obj_set k u acc) r'
                         else if c = CHR ''}'' then Inr (JObj (obj_set k u acc), r') else Inl syntax_error))"
proof -
  have s0: "skip_ws (W @ (json_quote k @ '': '' @ x) @ t) = dquote # (concat (map quote_char k) @ dquote # '': '' @ x @ t)"
    using skip_ws_spaces [OF assms(1)] by (simp add: json_quote_def skip_ws_Cons json_ws_def)
  have pk: "pstr [] (concat (map quote_char k) @ dquote # '': '' @ x @ t) = Inr (k, '': '' @ x @ t)"
    using pstr_quoted [of "[]" k "'': '' @ x @ t"] by simp
  have s1: "skip_ws ('': '' @ x @ t) = CHR '':'' # '' '' @ x @ t" by (simp add: skip_ws_Cons json_ws_def)
  have pv: "pval n ('' '' @ x @ t) = Inr (u, t)"
    using assms(2) pval_skip_ws [of "'' '' @ x @ t" "x @ t" n] by (simp add: skip_ws_def json_ws_def)
  show ?thesis using s0 pk s1 pv by simp
qed

lemma pmembers_join:
  assumes "ps \<noteq> []"
    and "\<forall>(k, x, u) \<in> set ps. (\<forall>r'. follow_ok r' \<longrightarrow> (\<exists>n. pval n (x @ r') = Inr (u, r')))"
    and "distinct (map fst ps @ map fst acc)"
    and "\<forall>c \<in> set W. json_ws c" and "\<forall>c \<in> set ind. c = CHR '' ''"
  shows "\<exists>n. pmembers n acc (W @ join_sep (CHR '','' # newline # ind @ gap) (map (\<lambda>(k, x, u). json_quote k @ '': '' @ x) ps)
                 @ newline # ind @ CHR ''}'' # r) = Inr (JObj (acc @ map (\<lambda>(k, x, u). (k, u)) ps), r)"
  using assms(1-4)
proof (induction ps arbitrary: acc W)
  case (Cons p ps)
  obtain k x u where p: "p = (k, x, u)" by (cases p)
  have px: "\<And>r'. follow_ok r' \<Longrightarrow> \<exists>n. pval n (x @ r') = Inr (u, r')" using Cons.prems(2) p by auto
  have new: "k \<notin> set (map fst acc)" using Cons.prems(3) p by auto
  let ?sep = "CHR '','' # newline # ind @ gap"
  let ?m = "json_quote k @ '': '' @ x"
  show ?case
  proof (cases "ps = []")
    case True
    let ?T = "newline # ind @ CHR ''}'' # r"
    obtain n1 where n1: "pval n1 (x @ ?T) = Inr (u, ?T)" using px [of ?T] by auto
    have "skip_ws ?T = CHR ''}'' # r" using skip_ws_close [OF assms(5)] by (simp add: json_ws_def)
    then have e: "pmembers (Suc n1) acc (W @ ?m @ ?T) = Inr (JObj (acc @ [(k, u)]), r)"
      using pmembers_member [OF Cons.prems(4) n1, of acc k] obj_set_new [OF new] by simp
    have g: "W @ join_sep ?sep (map (\<lambda>(k, x, u). json_quote k @ '': '' @ x) (p # ps)) @ ?T = W @ ?m @ ?T"
      "acc @ map (\<lambda>(k, x, u). (k, u)) (p # ps) = acc @ [(k, u)]"
      using True p by simp_all
    show ?thesis unfolding g using e by blast
  next
    case False
    let ?R = "join_sep ?sep (map (\<lambda>(k, x, u). json_quote k @ '': '' @ x) ps) @ newline # ind @ CHR ''}'' # r"
    obtain n1 where n1: "pval n1 (x @ ?sep @ ?R) = Inr (u, ?sep @ ?R)" using px [of "?sep @ ?R"] by auto
    have d: "distinct (map fst ps @ map fst (acc @ [(k, u)]))" using Cons.prems(3) p by auto
    obtain n2 where n2: "pmembers n2 (acc @ [(k, u)]) ((newline # ind @ gap) @ ?R) =
                          Inr (JObj ((acc @ [(k, u)]) @ map (\<lambda>(k, x, u). (k, u)) ps), r)"
      using Cons.IH [OF False _ d json_ws_gap [OF assms(5)]] Cons.prems(2) by auto
    have e1: "pval (n1 + n2) (x @ ?sep @ ?R) = Inr (u, ?sep @ ?R)"
      using pval_fuel_add [of n1 "x @ ?sep @ ?R" n2] n1 by simp
    have e2: "pmembers (n1 + n2) (acc @ [(k, u)]) ((newline # ind @ gap) @ ?R) =
              Inr (JObj ((acc @ [(k, u)]) @ map (\<lambda>(k, x, u). (k, u)) ps), r)"
      using pmembers_fuel_add [of n2 "acc @ [(k, u)]" _ n1] n2 by (simp add: add.commute)
    have "skip_ws (?sep @ ?R) = ?sep @ ?R" by (simp add: skip_ws_Cons json_ws_def)
    then have e: "pmembers (Suc (n1 + n2)) acc (W @ ?m @ ?sep @ ?R) = Inr (JObj (acc @ (k, u) # map (\<lambda>(k, x, u). (k, u)) ps), r)"
      using pmembers_member [OF Cons.prems(4) e1, of acc k] obj_set_new [OF new] e2 by simp
    have g: "W @ join_sep ?sep (map (\<lambda>(k, x, u). json_quote k @ '': '' @ x) (p # ps)) @ newline # ind @ CHR ''}'' # r
               = W @ ?m @ ?sep @ ?R"
      "acc @ map (\<lambda>(k, x, u). (k, u)) (p # ps) = acc @ (k, u) # map (\<lambda>(k, x, u). (k, u)) ps"
      using False p by (simp_all add: join_sep_Cons2)
    show ?thesis unfolding g using e by blast
  qed
qed simp

section \<open>Scalars\<close>

lemma pval_null: "pval (Suc 0) (''null'' @ r) = Inr (JNull, r)"
  by (simp add: skip_ws_Cons json_ws_def pword_def starts_with_def)

lemma pval_bool: "pval (Suc 0) ((if b then ''true'' else ''false'') @ r) = Inr (JBool b, r)"
  by (cases b) (simp_all add: skip_ws_Cons json_ws_def pword_def starts_with_def)

lemma int_string_head: "int_string i \<noteq> [] \<and> (hd (int_string i) = CHR ''-'' \<or> is_digit (hd (int_string i)))"
  using dec_string_digits [of "nat \<bar>i\<bar>"] dec_string_not_Nil [of "nat \<bar>i\<bar>"]
  by (cases "dec_string (nat \<bar>i\<bar>)") (auto simp: int_string_def)

lemma pval_num:
  assumes "follow_ok r" shows "pval (Suc 0) (int_string i @ r) = Inr (JNum i, r)"
proof -
  obtain c r0 where i: "int_string i = c # r0" using int_string_head [of i] by (cases "int_string i") auto
  have c: "c = CHR ''-'' \<or> is_digit c" using int_string_head [of i] i by simp
  have p: "pint (c # r0 @ r) = Inr (i, r)" using pint_int_string [OF assms, of i] i by simp
  have n: "c \<noteq> CHR ''['' \<and> c \<noteq> CHR ''{'' \<and> c \<noteq> dquote \<and> c \<noteq> CHR ''t'' \<and> c \<noteq> CHR ''f'' \<and> c \<noteq> CHR ''n'' \<and> \<not> json_ws c"
    using c by (auto simp: is_digit_def json_ws_def less_eq_char_def)
  from i c n p show ?thesis by (simp add: skip_ws_Cons)
qed

lemma pval_str: "pval (Suc 0) (json_quote str @ r) = Inr (JStr str, r)"
  using pstr_quoted [of "[]" str r] by (simp add: json_quote_def skip_ws_Cons json_ws_def)

lemma ser_obj_items:
  "concat (map (\<lambda>(k, v). case ser ind v of None \<Rightarrow> [] | Some s \<Rightarrow> [json_quote k @ '': '' @ s]) ps) =
   map (\<lambda>(k, x, u). json_quote k @ '': '' @ x)
     (map (\<lambda>(k, v). (k, the (ser ind v), jnorm v)) (filter (\<lambda>(k, v). v \<noteq> JUndef) ps))"
  by (induction ps) (auto split: option.split)

section \<open>The roundtrip\<close>

lemma spaces_gap: "\<forall>c \<in> set ind. c = CHR '' '' \<Longrightarrow> \<forall>c \<in> set (ind @ gap). c = CHR '' ''"
  by (simp add: gap_def)

lemma join_sep_head:
  "x \<noteq> [] \<Longrightarrow> \<exists>t'. join_sep sep (x # xs) @ t = hd x # t'"
  by (cases xs; cases x) auto

text \<open>After the opening bracket of a non-empty array or object: the first item, not
  the closing bracket.\<close>

lemma open_not_close:
  assumes "\<forall>c \<in> set W. json_ws c" and "x \<noteq> []" and "\<not> json_ws (hd x)" and "hd x \<noteq> cl"
  shows "\<not> starts_with (skip_ws (W @ join_sep sep (x # xs) @ t)) [cl]"
proof -
  obtain t' where t': "join_sep sep (x # xs) @ t = hd x # t'" using join_sep_head [OF assms(2)] by blast
  have "skip_ws (W @ join_sep sep (x # xs) @ t) = hd x # t'"
    using skip_ws_spaces [OF assms(1)] t' skip_ws_Cons [OF assms(3)] by simp
  with assms(4) show ?thesis by (simp add: starts_with_def)
qed

lemma pval_open_array: "\<not> starts_with (skip_ws r) '']'' \<Longrightarrow> pval (Suc n) (CHR ''['' # r) = pelems n [] r"
  by (simp add: skip_ws_Cons json_ws_def)

lemma pval_open_object: "\<not> starts_with (skip_ws r) ''}'' \<Longrightarrow> pval (Suc n) (CHR ''{'' # r) = pmembers n [] r"
  by (simp add: skip_ws_Cons json_ws_def)

lemma ser_roundtrip:
  "ser ind v = Some s \<Longrightarrow> keys_ok v \<Longrightarrow> \<forall>c \<in> set ind. c = CHR '' '' \<Longrightarrow> follow_ok r \<Longrightarrow>
   \<exists>n. pval n (s @ r) = Inr (jnorm v, r)"
proof (induction v arbitrary: ind s r)
  case JNull
  from JNull.prems(1) have "s = ''null''" by simp
  moreover have "jnorm JNull = JNull" by simp
  ultimately have "pval (Suc 0) (s @ r) = Inr (jnorm JNull, r)" using pval_null [of r] by simp
  then show ?case by blast
next
  case JUndef
  from JUndef.prems(1) show ?case by simp
next
  case (JBool b)
  from JBool.prems(1) have "s = (if b then ''true'' else ''false'')" by simp
  moreover have "jnorm (JBool b) = JBool b" by simp
  ultimately have "pval (Suc 0) (s @ r) = Inr (jnorm (JBool b), r)" using pval_bool [of b r] by simp
  then show ?case by blast
next
  case (JNum i)
  from JNum.prems(1) have "s = int_string i" by simp
  moreover have "jnorm (JNum i) = JNum i" by simp
  ultimately have "pval (Suc 0) (s @ r) = Inr (jnorm (JNum i), r)" using pval_num [OF JNum.prems(4), of i] by simp
  then show ?case by blast
next
  case (JStr str)
  from JStr.prems(1) have "s = json_quote str" by simp
  moreover have "jnorm (JStr str) = JStr str" by simp
  ultimately have "pval (Suc 0) (s @ r) = Inr (jnorm (JStr str), r)" using pval_str [of str r] by simp
  then show ?case by blast
next
  case (JArr vs)
  let ?ind = "ind @ gap"
  let ?f = "\<lambda>v. case ser ?ind v of None \<Rightarrow> ''null'' | Some s \<Rightarrow> s"
  let ?g = "\<lambda>v. if v = JUndef then JNull else jnorm v"
  show ?case
  proof (cases vs)
    case Nil
    with JArr.prems(1) have "s = ''[]''" by (simp add: wrap_members_def)
    then have "pval (Suc 0) (s @ r) = Inr (jnorm (JArr vs), r)"
      using Nil by (simp add: skip_ws_Cons json_ws_def starts_with_def)
    then show ?thesis by blast
  next
    case (Cons v0 vs0)
    let ?ps = "map (\<lambda>v. (?f v, ?g v)) vs"
    let ?sep = "CHR '','' # newline # ind @ gap"
    let ?T = "newline # ind @ CHR '']'' # r"
    have s: "s @ r = CHR ''['' # (newline # ?ind) @ join_sep ?sep (map fst ?ps) @ ?T"
      using JArr.prems(1) Cons by (simp add: wrap_members_def comp_def)
    have each: "\<forall>v \<in> set vs. ?f v \<noteq> [] \<and> \<not> json_ws (hd (?f v)) \<and> hd (?f v) \<noteq> CHR '']'' \<and>
                   (\<forall>r'. follow_ok r' \<longrightarrow> (\<exists>n. pval n (?f v @ r') = Inr (?g v, r')))"
    proof
      fix v assume v: "v \<in> set vs"
      show "?f v \<noteq> [] \<and> \<not> json_ws (hd (?f v)) \<and> hd (?f v) \<noteq> CHR '']'' \<and>
              (\<forall>r'. follow_ok r' \<longrightarrow> (\<exists>n. pval n (?f v @ r') = Inr (?g v, r')))"
      proof (cases "v = JUndef")
        case True
        then have "?f v = ''null''" "?g v = JNull" by simp_all
        moreover have "\<forall>r'. follow_ok r' \<longrightarrow> (\<exists>n. pval n (''null'' @ r') = Inr (JNull, r'))"
          using pval_null by blast
        ultimately show ?thesis by (simp add: json_ws_def)
      next
        case False
        then obtain sv where sv: "ser ?ind v = Some sv" by (cases "ser ?ind v") auto
        have "keys_ok v" using JArr.prems(2) v by simp
        then have "\<forall>r'. follow_ok r' \<longrightarrow> (\<exists>n. pval n (sv @ r') = Inr (jnorm v, r'))"
          using JArr.IH [OF v sv] spaces_gap [OF JArr.prems(3)] by blast
        with sv False ser_head [OF sv] show ?thesis by simp
      qed
    qed
    then have items: "\<forall>(x, u) \<in> set ?ps. x \<noteq> [] \<and> \<not> json_ws (hd x) \<and> (\<forall>r'. follow_ok r' \<longrightarrow> (\<exists>n. pval n (x @ r') = Inr (u, r')))"
      by auto
    have ne: "?ps \<noteq> []" using Cons by simp
    obtain n where n: "pelems n [] ((newline # ?ind) @ join_sep ?sep (map fst ?ps) @ ?T) = Inr (JArr ([] @ map snd ?ps), r)"
      using pelems_join [OF ne items json_ws_gap [OF JArr.prems(3)] JArr.prems(3), of "[]" r] by auto
    have m: "map fst ?ps = ?f v0 # map ?f vs0" using Cons by simp
    have h: "?f v0 \<noteq> []" "\<not> json_ws (hd (?f v0))" "hd (?f v0) \<noteq> CHR '']''" using each Cons by auto
    have "\<not> starts_with (skip_ws ((newline # ?ind) @ join_sep ?sep (?f v0 # map ?f vs0) @ ?T)) [CHR '']'']"
      by (rule open_not_close [OF json_ws_gap [OF JArr.prems(3)] h])
    then have "\<not> starts_with (skip_ws ((newline # ?ind) @ join_sep ?sep (map fst ?ps) @ ?T)) '']''"
      by (simp only: m not_False_eq_True)
    then have "pval (Suc n) (s @ r) = pelems n [] ((newline # ?ind) @ join_sep ?sep (map fst ?ps) @ ?T)"
      unfolding s by (rule pval_open_array)
    with n have "pval (Suc n) (s @ r) = Inr (JArr (map ?g vs), r)" by simp
    moreover have "jnorm (JArr vs) = JArr (map ?g vs)" by simp
    ultimately show ?thesis by (intro exI [of _ "Suc n"]) simp
  qed
next
  case (JObj ps)
  let ?ind = "ind @ gap"
  let ?qs = "filter (\<lambda>(k, v). v \<noteq> JUndef) ps"
  let ?ts = "map (\<lambda>(k, v). (k, the (ser ?ind v), jnorm v)) ?qs"
  let ?item = "\<lambda>(k, x, u). json_quote k @ '': '' @ x"
  let ?sep = "CHR '','' # newline # ind @ gap"
  let ?T = "newline # ind @ CHR ''}'' # r"
  have s0: "s = wrap_members ind CHR ''{'' CHR ''}'' (map ?item ?ts)"
    using JObj.prems(1) ser_obj_items [of ?ind ps] by simp
  have jn: "jnorm (JObj ps) = JObj (map (\<lambda>(k, x, u). (k, u)) ?ts)" by (simp add: comp_def case_prod_beta)
  show ?case
  proof (cases ?ts)
    case Nil
    with s0 have "s = ''{}''" by (simp add: wrap_members_def)
    then have "pval (Suc 0) (s @ r) = Inr (jnorm (JObj ps), r)"
      using Nil jn by (simp add: skip_ws_Cons json_ws_def starts_with_def)
    then show ?thesis by blast
  next
    case (Cons t0 ts0)
    have s: "s @ r = CHR ''{'' # (newline # ?ind) @ join_sep ?sep (map ?item ?ts) @ ?T"
      using s0 Cons by (simp add: wrap_members_def)
    have ih: "\<exists>n. pval n (the (ser ?ind v) @ r') = Inr (jnorm v, r')"
      if kv: "(k, v) \<in> set ps" and nu: "v \<noteq> JUndef" and f: "follow_ok r'" for k v r'
    proof -
      obtain sv where sv: "ser ?ind v = Some sv" using nu by (cases "ser ?ind v") auto
      have "keys_ok v" using JObj.prems(2) kv by auto
      then have "\<exists>n. pval n (sv @ r') = Inr (jnorm v, r')"
        using JObj.IH [OF kv _ sv _ spaces_gap [OF JObj.prems(3)] f] by simp
      with sv show ?thesis by simp
    qed
    have each: "\<forall>(k, x, u) \<in> set ?ts. (\<forall>r'. follow_ok r' \<longrightarrow> (\<exists>n. pval n (x @ r') = Inr (u, r')))"
      using ih by auto
    have d: "distinct (map fst ?ts @ map fst [])"
      using JObj.prems(2) by (simp add: comp_def case_prod_beta)
    have ne: "?ts \<noteq> []" using Cons by simp
    obtain n where n: "pmembers n [] ((newline # ?ind) @ join_sep ?sep (map ?item ?ts) @ ?T) =
                        Inr (JObj ([] @ map (\<lambda>(k, x, u). (k, u)) ?ts), r)"
      using pmembers_join [OF ne each d json_ws_gap [OF JObj.prems(3)] JObj.prems(3), of r] by blast
    obtain k0 x0 u0 where t0: "t0 = (k0, x0, u0)" by (cases t0) auto
    have m: "map ?item ?ts = ?item t0 # map ?item ts0" using Cons by simp
    have h: "?item t0 \<noteq> []" "\<not> json_ws (hd (?item t0))" "hd (?item t0) \<noteq> CHR ''}''"
      using t0 by (simp_all add: json_quote_def json_ws_def)
    have "\<not> starts_with (skip_ws ((newline # ?ind) @ join_sep ?sep (?item t0 # map ?item ts0) @ ?T)) [CHR ''}'']"
      by (rule open_not_close [OF json_ws_gap [OF JObj.prems(3)] h])
    then have "\<not> starts_with (skip_ws ((newline # ?ind) @ join_sep ?sep (map ?item ?ts) @ ?T)) ''}''"
      by (simp only: m not_False_eq_True)
    then have "pval (Suc n) (s @ r) = pmembers n [] ((newline # ?ind) @ join_sep ?sep (map ?item ?ts) @ ?T)"
      unfolding s by (rule pval_open_object)
    with n jn have "pval (Suc n) (s @ r) = Inr (jnorm (JObj ps), r)" by simp
    then show ?thesis by blast
  qed
qed

text \<open>The whole text of a value, parsed with the fuel \<open>parse_json\<close> gives it.\<close>

lemma stringify_parse:
  assumes "stringify v = Some s" and "keys_ok v"
  shows "parse_json s = Inr (jnorm v)"
proof -
  have "follow_ok []" by (simp add: follow_ok_def)
  then have "\<exists>n. pval n (s @ []) = Inr (jnorm v, [])"
    using ser_roundtrip [of "[]" v s "[]"] assms by (simp add: stringify_def)
  then obtain n where n: "pval n s = Inr (jnorm v, [])" by auto
  have "pval (2 * length s + 1) s \<noteq> Inl fuel_error" by (rule parse_fuel_enough(1)) simp
  moreover have "pval n s \<noteq> Inl fuel_error" using n by simp
  ultimately have "pval (2 * length s + 1) s = Inr (jnorm v, [])" using n pval_fuel_indep by fastforce
  then show ?thesis by (simp add: parse_json_def parse_with_def skip_ws_def)
qed

end
