(* ===== verification/JsonTyped.thy ===== *)
theory JsonTyped
  imports JsonRoundtrip
begin

text \<open>
  The values \<open>JSON.parse\<close> returns: never \<open>undefined\<close>, and objects whose keys are
  distinct (\<open>json_value\<close>). Such a value is its own \<open>jnorm\<close> and satisfies
  \<open>keys_ok\<close>, so printing it and parsing the text gives it back.
\<close>

fun json_value :: "jval \<Rightarrow> bool" where
  "json_value JUndef = False"
| "json_value (JArr vs) = (\<forall>v \<in> set vs. json_value v)"
| "json_value (JObj ps) = (distinct (map fst ps) \<and> (\<forall>(k, v) \<in> set ps. json_value v))"
| "json_value v = True"

section \<open>The parser returns JSON values\<close>

lemma set_obj_set: "set (obj_set k v ob) \<subseteq> insert (k, v) (set ob)"
  by (induction ob) (auto simp: obj_set_def)

lemma json_value_obj_set:
  "json_value (JObj ob) \<Longrightarrow> json_value v \<Longrightarrow> json_value (JObj (obj_set k v ob))"
  using set_obj_set [of k v ob] by (auto simp: distinct_obj_set)

lemma parse_json_value:
  shows "pval n s = Inr (v, r) \<Longrightarrow> json_value v"
    and "pelems n acc s = Inr (v, r) \<Longrightarrow> \<forall>x \<in> set acc. json_value x \<Longrightarrow> json_value v"
    and "pmembers n ob s = Inr (v, r) \<Longrightarrow> json_value (JObj ob) \<Longrightarrow> json_value v"
proof (induction n s and n acc s and n ob s arbitrary: v r and v r and v r rule: pval_pelems_pmembers.induct)
  case (2 n s)
  show ?case
  proof (cases "skip_ws s")
    case Nil
    with "2.prems" show ?thesis by simp
  next
    case (Cons c r0)
    consider "c = CHR ''[''" | "c \<noteq> CHR ''[''" "c = CHR ''{''" | "c \<noteq> CHR ''[''" "c \<noteq> CHR ''{''" by blast
    then show ?thesis
    proof cases
      case 1
      show ?thesis
      proof (cases "starts_with (skip_ws r0) '']''")
        case True
        with "2.prems" Cons 1 show ?thesis by auto
      next
        case False
        with "2.prems" Cons 1 have "pelems n [] r0 = Inr (v, r)" by simp
        with "2.IH"(1) [OF Cons 1 False] show ?thesis by simp
      qed
    next
      case 2
      show ?thesis
      proof (cases "starts_with (skip_ws r0) ''}''")
        case True
        with "2.prems" Cons 2 show ?thesis by auto
      next
        case False
        with "2.prems" Cons 2 have "pmembers n [] r0 = Inr (v, r)" by simp
        with "2.IH"(2) [OF Cons 2 False] show ?thesis by simp
      qed
    next
      case 3
      have "(if c = dquote then (case pstr [] r0 of Inl e \<Rightarrow> Inl e | Inr (str, r') \<Rightarrow> Inr (JStr str, r'))
             else if c = CHR ''t'' then pword ''rue'' (JBool True) r0
             else if c = CHR ''f'' then pword ''alse'' (JBool False) r0
             else if c = CHR ''n'' then pword ''ull'' JNull r0
             else if c = CHR ''-'' \<or> is_digit c then
               (case pint (c # r0) of Inl e \<Rightarrow> Inl e | Inr (i, r') \<Rightarrow> Inr (JNum i, r'))
             else Inl syntax_error) = Inr (v, r)"
        using "2.prems" Cons 3 by simp
      then show ?thesis
        by (auto simp: pword_def split: if_split_asm sum.split_asm)
    qed
  qed
next
  case (4 n acc s)
  from "4.prems"(1) obtain v0 r0 where p: "pval n s = Inr (v0, r0)"
    by (auto split: sum.split_asm)
  have j0: "json_value v0" using "4.IH"(1) [OF p] .
  from "4.prems"(1) p obtain c r' where sk: "skip_ws r0 = c # r'"
    by (cases "skip_ws r0") auto
  have acc: "\<forall>x \<in> set (acc @ [v0]). json_value x" using "4.prems"(2) j0 by simp
  show ?case
  proof (cases "c = CHR '',''")
    case True
    with "4.prems"(1) p sk have "pelems n (acc @ [v0]) r' = Inr (v, r)" by simp
    with "4.IH"(2) [OF p refl sk True] acc show ?thesis by simp
  next
    case False
    with "4.prems"(1) p sk have "v = JArr (acc @ [v0])" by (simp split: if_split_asm)
    with acc show ?thesis by simp
  qed
next
  case (6 n ob s)
  from "6.prems"(1) obtain c r0 where s0: "skip_ws s = c # r0" by (cases "skip_ws s") auto
  from "6.prems"(1) s0 have q: "c = dquote" by (simp split: if_split_asm)
  from "6.prems"(1) s0 q obtain k r1 where pk: "pstr [] r0 = Inr (k, r1)" by (auto split: sum.split_asm)
  from "6.prems"(1) s0 q pk obtain d r2 where sk1: "skip_ws r1 = d # r2" by (cases "skip_ws r1") auto
  from "6.prems"(1) s0 q pk sk1 have colon: "d = CHR '':''" by (simp split: if_split_asm)
  from "6.prems"(1) s0 q pk sk1 colon obtain v0 r3 where pv: "pval n r2 = Inr (v0, r3)" by (auto split: sum.split_asm)
  from "6.prems"(1) s0 q pk sk1 colon pv obtain e r4 where sk3: "skip_ws r3 = e # r4" by (cases "skip_ws r3") auto
  have j0: "json_value v0" by (rule "6.IH"(1) [OF s0 _ pk refl sk1 _ pv]) (simp_all add: q colon)
  have ob: "json_value (JObj (obj_set k v0 ob))" by (rule json_value_obj_set [OF "6.prems"(2) j0])
  show ?case
  proof (cases "e = CHR '',''")
    case True
    with "6.prems"(1) s0 q pk sk1 colon pv sk3 have pm: "pmembers n (obj_set k v0 ob) r4 = Inr (v, r)" by simp
    show ?thesis
      by (rule "6.IH"(2) [OF s0 _ pk refl sk1 _ pv refl sk3 _ pm ob]) (simp_all add: q colon True)
  next
    case False
    with "6.prems"(1) s0 q pk sk1 colon pv sk3 have "v = JObj (obj_set k v0 ob)" by (simp split: if_split_asm)
    with ob show ?thesis by simp
  qed
qed simp_all

lemma json_value_filter: "\<forall>(k, v) \<in> set ps. json_value v \<Longrightarrow> filter (\<lambda>(k, v). v \<noteq> JUndef) ps = ps"
  by (induction ps) auto

lemma json_value_keys_ok: "json_value v \<Longrightarrow> keys_ok v"
  by (induction v rule: keys_ok.induct) (auto simp: json_value_filter)

lemma json_value_jnorm: "json_value v \<Longrightarrow> jnorm v = v"
proof (induction v rule: jnorm.induct)
  case (1 vs)
  have "map (\<lambda>v. if v = JUndef then JNull else jnorm v) vs = vs"
  proof (rule map_idI)
    fix v assume v: "v \<in> set vs"
    with "1.prems" have "json_value v" by simp
    with "1.IH" [OF v] show "(if v = JUndef then JNull else jnorm v) = v" by auto
  qed
  then show ?case by simp
next
  case (2 ps)
  have f: "filter (\<lambda>(k, v). v \<noteq> JUndef) ps = ps"
    by (rule json_value_filter) (use "2.prems" in simp)
  have "map (\<lambda>(k, v). (k, jnorm v)) ps = ps"
  proof (rule map_idI)
    fix x assume x: "x \<in> set ps"
    obtain k v where kv: "x = (k, v)" by (cases x)
    with x "2.prems" have j: "json_value v" by auto
    from x kv f have "(k, v) \<in> set (filter (\<lambda>(k, v). v \<noteq> JUndef) ps)" by simp
    then have "jnorm v = v" using j by (rule "2.IH" [OF _ refl])
    with kv show "(\<lambda>(k, v). (k, jnorm v)) x = x" by simp
  qed
  with f show ?case by simp
qed simp_all

lemma parse_with_Inr: "parse_with n s = Inr v \<Longrightarrow> \<exists>r. pval n s = Inr (v, r) \<and> skip_ws r = []"
  unfolding parse_with_def by (auto split: sum.split_asm prod.split_asm if_split_asm)

lemma parse_json_value_result: "parse_json s = Inr v \<Longrightarrow> json_value v"
  unfolding parse_json_def by (auto dest!: parse_with_Inr intro: parse_json_value(1) simp del: pval.simps)

lemma parse_stringify_parse:
  assumes "parse_json s = Inr v"
  shows "parse_json (the (stringify v)) = Inr v"
proof -
  have j: "json_value v" by (rule parse_json_value_result [OF assms])
  then have "v \<noteq> JUndef" by auto
  then obtain t where t: "stringify v = Some t" by (cases "stringify v") (simp_all add: stringify_def)
  have "parse_json t = Inr (jnorm v)" by (rule stringify_parse [OF t json_value_keys_ok [OF j]])
  with t json_value_jnorm [OF j] show ?thesis by simp
qed

end
