(* ===== verification/Yaml.thy ===== *)
theory Yaml
  imports JsonTyped GrayMatter
begin

text \<open>
  The engines gray-matter parses front matter with (\<open>lib/engines.js\<close>, looked up by
  \<open>lib/engine.js\<close>): \<open>yaml\<close> is js-yaml's \<open>safeLoad\<close>, \<open>json\<close> is \<open>JSON.parse\<close>,
  \<open>javascript\<close> evaluates the block; a language name is first looked up as written,
  then through gray-matter's aliases (\<open>yml\<close> for \<open>yaml\<close>, \<open>js\<close> for \<open>javascript\<close>,
  compared in lower case); any other name throws \<open>gray-matter engine "name" is not
  registered\<close>.

  js-yaml is modelled on the fragment of YAML front matter is written in: a block
  mapping of one line per key at column 0, a key of letters, digits, \<open>_\<close> and \<open>-\<close>
  starting with a letter or \<open>_\<close>, and a value that is empty, a plain scalar, or a
  single- or double-quoted scalar on the line, with blank lines and \<open># comments\<close>
  between. Plain scalars are resolved as the default safe schema resolves them:
  \<open>~\<close> and \<open>null\<close> in its three spellings to null, \<open>true\<close> and \<open>false\<close> in theirs to
  booleans, decimal and \<open>0x\<close> integers to numbers, anything else to a string. A
  repeated key throws js-yaml's \<open>duplicated mapping key\<close>. What the fragment leaves
  out (nesting, sequences, flow collections, block scalars, anchors and tags,
  escapes in double quotes, floats, timestamps, octal and binary integers, numbers
  beyond \<open>2^53\<close>, which a JavaScript number does not hold exactly) is reported as
  \<open>yaml_outside\<close> instead of parsed, as is evaluating a \<open>javascript\<close> block and a
  front matter whose data is not an object.
\<close>

definition yaml_dup_key :: string where
  "yaml_dup_key = ''duplicated mapping key''"

definition yaml_outside :: string where
  "yaml_outside = ''front matter outside the modelled YAML fragment''"

definition is_alpha :: "char \<Rightarrow> bool" where
  "is_alpha c \<longleftrightarrow> (CHR ''a'' \<le> c \<and> c \<le> CHR ''z'') \<or> (CHR ''A'' \<le> c \<and> c \<le> CHR ''Z'')"

definition yaml_key_char :: "char \<Rightarrow> bool" where
  "yaml_key_char c \<longleftrightarrow> is_alpha c \<or> is_digit c \<or> c = CHR ''_'' \<or> c = CHR ''-''"

text \<open>Characters that start something other than a plain scalar.\<close>

definition yaml_indicator :: "char \<Rightarrow> bool" where
  "yaml_indicator c \<longleftrightarrow> c \<in> set ''[]{}|>&*!%@`,?:#'' \<or> c = CHR 0x09"

text \<open>What may follow a quoted scalar on its line: spaces, then possibly a comment.\<close>

definition yaml_trailing_ok :: "string \<Rightarrow> bool" where
  "yaml_trailing_ok r \<longleftrightarrow>
     (let r' = dropWhile (\<lambda>c. c = CHR '' '') r in r' = [] \<or> (r' \<noteq> r \<and> hd r' = CHR ''#''))"

text \<open>The body of a single-quoted scalar; \<open>''\<close> stands for one quote.\<close>

fun yaml_squote :: "string \<Rightarrow> string \<Rightarrow> (string \<times> string) option" where
  "yaml_squote acc [] = None"
| "yaml_squote acc (c # cs) =
     (if c = CHR 0x27 then
        (if cs \<noteq> [] \<and> hd cs = CHR 0x27 then yaml_squote (c # acc) (tl cs) else Some (rev acc, cs))
      else yaml_squote (c # acc) cs)"

definition yaml_dec :: "string \<Rightarrow> int option" where
  "yaml_dec p =
     (let neg = (p \<noteq> [] \<and> hd p = CHR ''-'');
          ds = (if p \<noteq> [] \<and> (hd p = CHR ''-'' \<or> hd p = CHR ''+'') then tl p else p)
      in if ds = [] \<or> \<not> list_all is_digit ds \<or> (hd ds = CHR ''0'' \<and> length ds > 1) then None
         else Some (if neg then - int (digits_nat ds) else int (digits_nat ds)))"

definition yaml_hex :: "string \<Rightarrow> int option" where
  "yaml_hex p =
     (if length p > 2 \<and> take 2 p = ''0x'' \<and> list_all (\<lambda>c. hex_val c \<noteq> None) (drop 2 p)
      then Some (int (foldl (\<lambda>a c. 16 * a + the (hex_val c)) 0 (drop 2 p))) else None)"

text \<open>The resolution of a plain scalar by the default safe schema.\<close>

definition yaml_plain :: "string \<Rightarrow> string + jval" where
  "yaml_plain p =
     (if p \<in> {''~'', ''null'', ''Null'', ''NULL''} then Inr JNull
      else if p \<in> {''true'', ''True'', ''TRUE''} then Inr (JBool True)
      else if p \<in> {''false'', ''False'', ''FALSE''} then Inr (JBool False)
      else (case (case yaml_dec p of Some i \<Rightarrow> Some i | None \<Rightarrow> yaml_hex p) of
              Some i \<Rightarrow> if \<bar>i\<bar> < 2 ^ 53 then Inr (JNum i) else Inl yaml_outside
            | None \<Rightarrow>
                if is_digit (hd p) \<or> hd p \<in> set ''+-.'' \<or> p = ''<<'' then Inl yaml_outside
                else Inr (JStr p)))"

text \<open>The value after \<open>key:\<close>, spaces skipped.\<close>

definition yaml_value :: "string \<Rightarrow> string + jval" where
  "yaml_value v =
     (if v = [] then Inr JNull
      else if hd v = CHR 0x27 then
        (case yaml_squote [] (tl v) of
           Some (s, r) \<Rightarrow> if yaml_trailing_ok r then Inr (JStr s) else Inl yaml_outside
         | None \<Rightarrow> Inl yaml_outside)
      else if hd v = dquote then
        (let s = takeWhile (\<lambda>c. c \<noteq> dquote) (tl v); r = dropWhile (\<lambda>c. c \<noteq> dquote) (tl v)
         in if r \<noteq> [] \<and> backslash \<notin> set s \<and> yaml_trailing_ok (tl r) then Inr (JStr s) else Inl yaml_outside)
      else if yaml_indicator (hd v) \<or> (hd v = CHR ''-'' \<and> (tl v = [] \<or> hd (tl v) = CHR '' '')) then Inl yaml_outside
      else
        (let p = rev (dropWhile (\<lambda>c. c = CHR '' '') (rev
                   (case index_of v '' #'' of Some i \<Rightarrow> take i v | None \<Rightarrow> v)))
         in if index_of p '': '' \<noteq> None \<or> last p = CHR '':'' \<or> CHR 0x09 \<in> set p then Inl yaml_outside
            else yaml_plain p))"

text \<open>One line of the mapping: \<open>None\<close> for a blank or comment line.\<close>

definition yaml_line :: "string \<Rightarrow> string + (string \<times> jval) option" where
  "yaml_line l =
     (let l' = dropWhile (\<lambda>c. c = CHR '' '') l in
      if l' = [] \<or> hd l' = CHR ''#'' then Inr None
      else if l' \<noteq> l \<or> CHR 0x0D \<in> set l then Inl yaml_outside
      else
        (let k = takeWhile yaml_key_char l; r = dropWhile yaml_key_char l in
         if k = [] \<or> \<not> (is_alpha (hd k) \<or> hd k = CHR ''_'') \<or> k = ''__proto__'' \<or>
            r = [] \<or> hd r \<noteq> CHR '':'' \<or> (tl r \<noteq> [] \<and> hd (tl r) \<noteq> CHR '' '')
         then Inl yaml_outside
         else (case yaml_value (dropWhile (\<lambda>c. c = CHR '' '') (tl r)) of
                 Inl e \<Rightarrow> Inl e
               | Inr v \<Rightarrow> Inr (Some (k, v)))))"

text \<open>The lines in order; a key seen before throws.\<close>

fun yaml_lines :: "obj \<Rightarrow> string list \<Rightarrow> string + obj" where
  "yaml_lines acc [] = Inr acc"
| "yaml_lines acc (l # ls) =
     (case yaml_line l of
        Inl e \<Rightarrow> Inl e
      | Inr None \<Rightarrow> yaml_lines acc ls
      | Inr (Some (k, v)) \<Rightarrow>
          if k \<in> set (map fst acc) then Inl yaml_dup_key else yaml_lines (acc @ [(k, v)]) ls)"

text \<open>\<open>yaml.safeLoad(str)\<close> on a mapping document.\<close>

definition yaml_load :: "string \<Rightarrow> string + obj" where
  "yaml_load m = (case yaml_lines [] (split_on newline m) of
                    Inr [] \<Rightarrow> Inl yaml_outside
                  | r \<Rightarrow> r)"

definition lower_char :: "char \<Rightarrow> char" where
  "lower_char c = (if CHR ''A'' \<le> c \<and> c \<le> CHR ''Z'' then char_of (of_char c + (32::nat)) else c)"

text \<open>\<open>aliase(name)\<close> of \<open>lib/engine.js\<close>.\<close>

definition gm_aliase :: "string \<Rightarrow> string" where
  "gm_aliase name =
     (let l = map lower_char name in
      if l = ''js'' \<or> l = ''javascript'' then ''javascript''
      else if l = ''coffee'' \<or> l = ''coffeescript'' \<or> l = ''cson'' then ''coffee''
      else if l = ''yaml'' \<or> l = ''yml'' then ''yaml''
      else name)"

text \<open>The registered engines, and the lookup \<open>engines[name] || engines[aliase(name)]\<close>.\<close>

definition gm_registered :: "string \<Rightarrow> bool" where
  "gm_registered n \<longleftrightarrow> n \<in> {''yaml'', ''json'', ''javascript''}"

definition gm_engine :: engine where
  "gm_engine name m =
     (let n = (if gm_registered name then name else gm_aliase name) in
      if n = ''yaml'' then yaml_load m
      else if n = ''json'' then
        (case parse_json m of Inl e \<Rightarrow> Inl e | Inr (JObj d) \<Rightarrow> Inr d | Inr _ \<Rightarrow> Inl yaml_outside)
      else if n = ''javascript'' then Inl yaml_outside
      else Inl (''gray-matter engine '' @ [dquote] @ name @ [dquote] @ '' is not registered''))"

section \<open>The engines return JSON values\<close>

text \<open>Every scalar the fragment resolves is a JSON value: never \<open>undefined\<close>.\<close>

lemma yaml_plain_value: "yaml_plain p = Inr x \<Longrightarrow> json_value x"
  unfolding yaml_plain_def by (simp split: if_split_asm option.split_asm; metis json_value.simps(4-7))

lemma yaml_value_value:
  assumes "yaml_value v = Inr x"
  shows "json_value x"
proof -
  have "x = JNull \<or> (\<exists>s. x = JStr s) \<or> (\<exists>p. yaml_plain p = Inr x)"
    using assms unfolding yaml_value_def Let_def
    by (simp split: if_split_asm option.split_asm prod.split_asm; blast)
  then show ?thesis by (auto dest: yaml_plain_value)
qed

lemma yaml_line_value:
  assumes "yaml_line l = Inr (Some (k, x))"
  shows "json_value x"
proof -
  have "\<exists>v. yaml_value v = Inr x"
    using assms unfolding yaml_line_def Let_def by (simp split: if_split_asm sum.split_asm; blast)
  then show ?thesis by (blast intro: yaml_value_value)
qed

lemma yaml_lines_value: "yaml_lines acc ls = Inr d \<Longrightarrow> json_value (JObj acc) \<Longrightarrow> json_value (JObj d)"
proof (induction acc ls rule: yaml_lines.induct)
  case (2 acc l ls)
  show ?case
  proof (cases "yaml_line l")
    case (Inl e)
    with "2.prems"(1) show ?thesis by simp
  next
    case (Inr lo)
    show ?thesis
    proof (cases lo)
      case None
      with Inr "2.prems" "2.IH"(1) show ?thesis by simp
    next
      case (Some kv)
      obtain k x where kv: "kv = (k, x)" by (cases kv)
      have j: "json_value x" using Inr Some kv by (blast intro: yaml_line_value)
      show ?thesis
      proof (cases "k \<in> set (map fst acc)")
        case True
        with "2.prems"(1) Inr Some kv show ?thesis by simp
      next
        case False
        with "2.prems"(1) Inr Some kv have r: "yaml_lines (acc @ [(k, x)]) ls = Inr d" by simp
        have "json_value (JObj (acc @ [(k, x)]))" using "2.prems"(2) False j by auto
        from "2.IH"(2) [OF Inr Some kv [symmetric] False r this] show ?thesis .
      qed
    qed
  qed
qed simp

lemma yaml_load_value:
  assumes "yaml_load m = Inr d"
  shows "json_value (JObj d)"
proof -
  have "yaml_lines [] (split_on newline m) = Inr d"
    using assms by (auto simp: yaml_load_def split: sum.splits list.splits)
  then show ?thesis by (rule yaml_lines_value) simp
qed

lemma gm_engine_value:
  assumes "gm_engine lang m = Inr d"
  shows "json_value (JObj d)"
proof -
  let ?n = "if gm_registered lang then lang else gm_aliase lang"
  consider "?n = ''yaml''" "yaml_load m = Inr d" | "?n = ''json''" "parse_json m = Inr (JObj d)"
    using assms unfolding gm_engine_def Let_def
    by (auto split: if_splits sum.splits jval.splits)
  then show ?thesis
  proof cases
    case 1
    then show ?thesis by (blast intro: yaml_load_value)
  next
    case 2
    then show ?thesis by (blast intro: parse_json_value_result)
  qed
qed

end
