(* ===== verification/IndexReadBack.thy ===== *)
theory IndexReadBack
  imports RunFacts Yaml
begin

text \<open>
  What a consumer of \<open>index.json\<close> reads with \<open>JSON.parse\<close>. When the front-matter
  engines return JSON objects (gray-matter's do: a repeated YAML key throws) and
  the metrics come from \<open>JSON.parse\<close>, every value the script puts into the index
  has distinct keys, so the text it writes parses back to the entries, less the
  \<open>undefined\<close> metrics \<open>JSON.stringify\<close> leaves out.
\<close>

definition engine_json :: "engine \<Rightarrow> bool" where
  "engine_json eng \<longleftrightarrow> (\<forall>lang m d. eng lang m = Inr d \<longrightarrow> json_value (JObj d))"

definition heap_json :: "heap \<Rightarrow> bool" where
  "heap_json h \<longleftrightarrow> (\<forall>ob \<in> set h. json_value (JObj ob))"

definition metrics_typed :: "jval \<Rightarrow> bool" where
  "metrics_typed m \<longleftrightarrow> m = JUndef \<or> json_value m"

section \<open>The metadata objects\<close>

lemma gm_engine_json: "engine_json gm_engine"
  unfolding engine_json_def using gm_engine_value by blast

lemma parse_matter_json: "engine_json eng \<Longrightarrow> parse_matter eng c = Inr d \<Longrightarrow> json_value (JObj d)"
  by (auto simp: parse_matter_def engine_json_def Let_def split: if_splits)

lemma gray_matter_heap_json:
  assumes "gray_matter eng c st = Inr (a, st')" and "engine_json eng" and "heap_json (heap st)"
  shows "heap_json (heap st')"
proof (cases "c = []")
  case True
  with assms(1) have "heap st' = heap st @ [[]]" by (auto simp: gray_matter_def heap_alloc_def)
  with assms(3) show ?thesis by (simp add: heap_json_def)
next
  case False
  show ?thesis
  proof (cases "map_of (cache st) c")
    case (Some a')
    with False assms(1) have "st' = st" by (simp add: gray_matter_hit)
    with assms(3) show ?thesis by simp
  next
    case None
    with False assms(1) obtain d where p: "parse_matter eng c = Inr d" and h: "heap st' = heap st @ [d]"
      by (auto simp: gray_matter_def heap_alloc_def split: sum.splits)
    have "json_value (JObj d)" by (rule parse_matter_json [OF assms(2) p])
    with h assms(3) show ?thesis by (simp add: heap_json_def)
  qed
qed

lemma json_value_with_address:
  assumes "json_value (JObj md)"
  shows "json_value (JObj (with_address rel md))"
proof -
  have "json_value (JStr (dir_name rel))" by simp
  with assms have "json_value (JObj (obj_set ''address'' (JStr (dir_name rel)) md))" by (rule json_value_obj_set)
  with assms show ?thesis unfolding with_address_def Let_def by (simp del: json_value.simps)
qed

lemma heap_json_modify:
  "heap_json h \<Longrightarrow> heap_json (heap_modify a (with_address rel) h)"
proof -
  assume h: "heap_json h"
  have "set (h[a := with_address rel (h ! a)]) \<subseteq> insert (with_address rel (h ! a)) (set h)"
    by (rule set_update_subset_insert)
  moreover have "a < length h \<Longrightarrow> json_value (JObj (with_address rel (h ! a)))"
    using h by (intro json_value_with_address) (simp add: heap_json_def del: json_value.simps)
  ultimately show ?thesis using h unfolding heap_json_def heap_modify_def by (auto simp del: json_value.simps)
qed

section \<open>The metrics\<close>

lemma load_metrics_typed:
  "json_parse L = parse_json \<Longrightarrow> load_metrics L t folder ns rel = Inr (m, errs) \<Longrightarrow> metrics_typed m"
  by (auto simp: load_metrics_Inr metrics_typed_def dest: parse_json_value_result)

section \<open>The loop keeps them\<close>

definition index_json :: "run_state \<Rightarrow> bool" where
  "index_json st \<longleftrightarrow> heap_json (heap st) \<and> (\<forall>e \<in> set (index_data st). metrics_typed (e_metrics e))"

lemma process_file_index_json:
  assumes "process_file L t f st = Inr st'" and "engine_json (engine L)" and "json_parse L = parse_json"
    and "index_json st"
  shows "index_json st'"
  using assms(1)
proof (cases rule: process_file_Inr_E)
  case (1 content md st1 contents m errs)
  have h1: "heap_json (heap st1)"
    using gray_matter_heap_json [OF 1(2) assms(2)] assms(4) by (simp add: index_json_def)
  have f: "index_data st1 = index_data st" using gray_matter_run_fields [OF 1(2)] by simp
  have m: "metrics_typed m" by (rule load_metrics_typed [OF assms(3) 1(4)])
  show ?thesis using 1(5) heap_json_modify [OF h1] f m assms(4) by (simp add: index_json_def)
qed

lemma process_files_index_json:
  "process_files L t fs st = Inr st' \<Longrightarrow> engine_json (engine L) \<Longrightarrow> json_parse L = parse_json \<Longrightarrow>
   index_json st \<Longrightarrow> index_json st'"
  by (induction fs arbitrary: st) (auto split: sum.splits intro: process_file_index_json)

section \<open>The index\<close>

lemma keys_ok_entry_json:
  assumes "heap_json h" and "e_metadata e < length h" and "metrics_typed (e_metrics e)"
  shows "keys_ok (entry_json h e)"
proof -
  have "json_value (JObj (h ! e_metadata e))"
    using assms(1,2) unfolding heap_json_def by (simp del: json_value.simps)
  then have md: "keys_ok (JObj (h ! e_metadata e))" by (rule json_value_keys_ok)
  have "keys_ok (e_metrics e)" using assms(3) json_value_keys_ok by (auto simp: metrics_typed_def)
  with md show ?thesis by (auto simp: entry_json_def)
qed

lemma index_text_parse:
  assumes "index_text h es = Some txt" and "heap_json h"
    and "\<forall>e \<in> set es. e_metadata e < length h \<and> metrics_typed (e_metrics e)"
  shows "parse_json txt = Inr (jnorm (JArr (map (entry_json h) es)))"
proof -
  have "keys_ok (JArr (map (entry_json h) es))" using assms(2,3) by (auto intro: keys_ok_entry_json)
  then show ?thesis using assms(1) by (simp add: index_text_def stringify_parse)
qed

lemma set_sort_entries: "set (sort_entries L es) = set es"
  by (metis sort_entries_def mset_js_sort set_mset_mset)

lemma index_json_init: "index_json init_run"
  by (simp add: index_json_def heap_json_def init_run_def)

text \<open>The text the loop's entries are written as parses back to them.\<close>

lemma run_index_parse:
  assumes "process_files L t files init_run = Inr st" and "engine_json (engine L)" and "json_parse L = parse_json"
    and "index_text (heap st) (sort_entries L (index_data st)) = Some txt"
  shows "parse_json txt = Inr (jnorm (JArr (map (entry_json (heap st)) (sort_entries L (index_data st)))))"
proof -
  have j: "index_json st" by (rule process_files_index_json [OF assms(1-3) index_json_init])
  have i: "run_inv st" by (rule process_files_inv [OF assms(1) run_inv_init_run])
  have "\<forall>e \<in> set (sort_entries L (index_data st)). e_metadata e < length (heap st) \<and> metrics_typed (e_metrics e)"
    using j i by (simp add: set_sort_entries index_json_def run_inv_def)
  with assms(4) j show ?thesis by (intro index_text_parse) (simp_all add: index_json_def)
qed

end
