(* ===== verification/CacheRefine.thy ===== *)
theory CacheRefine
  imports RunFacts
begin

text \<open>
  gray-matter's cache as an optimisation of parsing every document afresh. The
  cache is valid when every content it holds maps to an object equal to what the
  engine makes of that content (the \<open>valid_memory\<close> invariant of memo tables).
  The script breaks that equality only through the \<open>address\<close> assignment, so when
  no enumerated document lies in a \<open>0x\<close> folder the cache cannot be observed: each
  entry serialises as its document alone would (\<open>doc_json\<close>). And the cache fixes
  the size of the heap: one object per empty document, one per distinct non-empty
  content.
\<close>

definition addr_free :: "string list \<Rightarrow> bool" where
  "addr_free fs \<longleftrightarrow> (\<forall>f \<in> set fs. \<not> starts_with (dir_name (path_join1 f)) ''0x'')"

definition valid_cache :: "engine \<Rightarrow> 'a gm_state_scheme \<Rightarrow> bool" where
  "valid_cache eng st \<longleftrightarrow>
     (\<forall>(c, a) \<in> set (cache st). a < length (heap st) \<and> matter_data eng c = Inr (heap st ! a))"

definition cache_keys :: "'a gm_state_scheme \<Rightarrow> string set" where
  "cache_keys st = fst ` set (cache st)"

text \<open>The non-empty contents of a list of documents.\<close>

definition doc_contents :: "node \<Rightarrow> string list \<Rightarrow> string set" where
  "doc_contents t fs = set (filter (\<lambda>c. c \<noteq> []) (map (content_of t) fs))"

section \<open>One call of matter\<close>

lemma gray_matter_valid:
  assumes "gray_matter eng c st = Inr (a, st1)" and "valid_cache eng st"
  shows "valid_cache eng st1 \<and> a < length (heap st1) \<and> matter_data eng c = Inr (heap st1 ! a) \<and>
         (\<exists>ext. heap st1 = heap st @ ext)"
proof (cases "c = []")
  case True
  with assms(1) have st1: "st1 = st\<lparr>heap := heap st @ [[]]\<rparr>" and a: "a = length (heap st)"
    by (auto simp: gray_matter_def heap_alloc_def)
  have "valid_cache eng st1" using assms(2) by (auto simp: valid_cache_def st1 nth_append)
  with True st1 a show ?thesis by simp
next
  case False
  show ?thesis
  proof (cases "map_of (cache st) c")
    case (Some a')
    with False assms(1) have "a = a'" "st1 = st" by (simp_all add: gray_matter_hit)
    moreover from Some have "(c, a') \<in> set (cache st)" by (rule map_of_SomeD)
    ultimately show ?thesis using assms(2) by (auto simp: valid_cache_def)
  next
    case None
    obtain d where p: "parse_matter eng c = Inr d"
      using assms(1) False None by (cases "parse_matter eng c") (simp_all add: gray_matter_def)
    from gray_matter_miss [OF False None p] assms(1)
    have st1: "st1 = st\<lparr>heap := heap st @ [d], cache := (c, length (heap st)) # cache st\<rparr>"
      and a: "a = length (heap st)" by simp_all
    have m: "matter_data eng c = Inr d" using p False by (simp add: matter_data_def)
    have "valid_cache eng st1" using assms(2) m by (auto simp: valid_cache_def st1 nth_append)
    with m st1 a show ?thesis by simp
  qed
qed

lemma with_address_plain:
  "\<not> starts_with (dir_name rel) ''0x'' \<Longrightarrow> with_address rel md = md"
  by (simp add: with_address_def Let_def)

lemma heap_modify_plain:
  "\<not> starts_with (dir_name rel) ''0x'' \<Longrightarrow> heap_modify a (with_address rel) h = h"
  by (simp add: heap_modify_def with_address_plain)

section \<open>The loop without address assignments\<close>

lemma process_file_plain:
  assumes "process_file L t f st = Inr st'" and "\<not> starts_with (dir_name (path_join1 f)) ''0x''"
    and "valid_cache (engine L) st" and "run_inv st"
  shows "valid_cache (engine L) st' \<and>
         map (entry_json (heap st')) (index_data st') = map (entry_json (heap st)) (index_data st) @ [doc_json L t f]"
  using assms(1)
proof (cases rule: process_file_Inr_E)
  case (1 content md st1 contents m errs)
  obtain v: "valid_cache (engine L) st1" and md: "md < length (heap st1)"
    and d: "matter_data (engine L) content = Inr (heap st1 ! md)" and ext: "\<exists>ext. heap st1 = heap st @ ext"
    using gray_matter_valid [OF 1(2) assms(3)] by blast
  have h: "heap st' = heap st1" using 1(5) heap_modify_plain [OF assms(2)] by simp
  have f: "index_data st1 = index_data st" using gray_matter_run_fields [OF 1(2)] by simp
  have o: "doc_outcome L t f = Inr (content, heap st1 ! md, m, errs)"
    using 1(1,3,4) d with_address_plain [OF assms(2)] by (simp add: doc_outcome_def Let_def)
  have old: "map (entry_json (heap st1)) (index_data st) = map (entry_json (heap st)) (index_data st)"
    using ext assms(4) entry_json_heap_extend by (auto simp: run_inv_def)
  have "valid_cache (engine L) st'" using v h 1(5) by (simp add: valid_cache_def)
  moreover have "map (entry_json (heap st')) (index_data st') =
                 map (entry_json (heap st)) (index_data st) @ [doc_json L t f]"
    using 1(5) h f old o by (simp add: entry_json_def doc_json_def)
  ultimately show ?thesis by blast
qed

lemma process_files_plain:
  "process_files L t fs st = Inr st' \<Longrightarrow> addr_free fs \<Longrightarrow> valid_cache (engine L) st \<Longrightarrow> run_inv st \<Longrightarrow>
   map (entry_json (heap st')) (index_data st') = map (entry_json (heap st)) (index_data st) @ map (doc_json L t) fs"
proof (induction fs arbitrary: st)
  case (Cons f fs)
  then obtain st1 where p: "process_file L t f st = Inr st1" and r: "process_files L t fs st1 = Inr st'"
    by (auto split: sum.splits)
  have a: "\<not> starts_with (dir_name (path_join1 f)) ''0x''" "addr_free fs"
    using Cons.prems(2) by (simp_all add: addr_free_def)
  note s = process_file_plain [OF p a(1) Cons.prems(3,4)]
  have i: "run_inv st1" by (rule process_file_inv [OF p Cons.prems(4)])
  from Cons.IH [OF r a(2) conjunct1 [OF s] i] conjunct2 [OF s] show ?case by simp
qed simp

lemma valid_cache_init: "valid_cache eng init_run"
  by (simp add: valid_cache_def init_run_def)

section \<open>The size of the heap\<close>

lemma gray_matter_count:
  assumes "gray_matter eng c st = Inr (a, st1)"
  shows "length (heap st1) = length (heap st) + (if c = [] \<or> c \<notin> cache_keys st then 1 else 0) \<and>
         cache_keys st1 = cache_keys st \<union> (if c = [] then {} else {c})"
proof (cases "c = []")
  case True
  with assms show ?thesis by (auto simp: gray_matter_def heap_alloc_def cache_keys_def)
next
  case False
  show ?thesis
  proof (cases "map_of (cache st) c")
    case (Some a')
    with False assms have "st1 = st" by (simp add: gray_matter_hit)
    moreover have "c \<in> cache_keys st" using Some by (force simp: cache_keys_def dest: map_of_SomeD)
    ultimately show ?thesis using False by auto
  next
    case None
    obtain d where p: "parse_matter eng c = Inr d"
      using assms False None by (cases "parse_matter eng c") (simp_all add: gray_matter_def)
    from gray_matter_miss [OF False None p] assms
    have st1: "st1 = st\<lparr>heap := heap st @ [d], cache := (c, length (heap st)) # cache st\<rparr>" by simp
    have "c \<notin> cache_keys st" using None by (auto simp: cache_keys_def map_of_eq_None_iff)
    with False st1 show ?thesis by (auto simp: cache_keys_def)
  qed
qed

lemma process_file_count:
  assumes "process_file L t f st = Inr st'"
  shows "length (heap st') = length (heap st) + (if content_of t f = [] \<or> content_of t f \<notin> cache_keys st then 1 else 0) \<and>
         cache_keys st' = cache_keys st \<union> (if content_of t f = [] then {} else {content_of t f})"
  using assms
proof (cases rule: process_file_Inr_E)
  case (1 content md st1 contents m errs)
  have c: "content_of t f = content" using 1(1) by (simp add: content_of_def)
  have "cache_keys st' = cache_keys st1" "length (heap st') = length (heap st1)"
    using 1(5) by (simp_all add: cache_keys_def)
  with gray_matter_count [OF 1(2)] c show ?thesis by simp
qed

lemma card_insert_diff:
  "finite A \<Longrightarrow> c \<notin> K \<Longrightarrow> card (insert c A - K) = Suc (card (A - insert c K))"
proof -
  assume "finite A" "c \<notin> K"
  then have "insert c A - K = insert c (A - insert c K)" by auto
  moreover have "finite (A - insert c K)" using \<open>finite A\<close> by simp
  ultimately show ?thesis by simp
qed

lemma process_files_count:
  "process_files L t fs st = Inr st' \<Longrightarrow>
   length (heap st') = length (heap st) + length (filter (\<lambda>f. content_of t f = []) fs) +
     card (doc_contents t fs - cache_keys st) \<and>
   cache_keys st' = cache_keys st \<union> doc_contents t fs"
proof (induction fs arbitrary: st)
  case Nil
  then show ?case by (simp add: doc_contents_def)
next
  case (Cons f fs)
  then obtain st1 where p: "process_file L t f st = Inr st1" and r: "process_files L t fs st1 = Inr st'"
    by (auto split: sum.splits)
  note s = process_file_count [OF p] and ih = Cons.IH [OF r]
  have fin: "finite (doc_contents t fs)" by (simp add: doc_contents_def)
  consider (e) "content_of t f = []" | (k) "content_of t f \<noteq> []" "content_of t f \<in> cache_keys st"
    | (n) "content_of t f \<noteq> []" "content_of t f \<notin> cache_keys st" by blast
  then show ?case
  proof cases
    case e
    then have "doc_contents t (f # fs) = doc_contents t fs" by (simp add: doc_contents_def)
    with e s ih show ?thesis by simp
  next
    case k
    then have "doc_contents t (f # fs) - cache_keys st = doc_contents t fs - cache_keys st"
      "cache_keys st1 = cache_keys st" using s by (auto simp: doc_contents_def)
    with k s ih show ?thesis by (auto simp: doc_contents_def)
  next
    case n
    then have dc: "doc_contents t (f # fs) = insert (content_of t f) (doc_contents t fs)"
      by (simp add: doc_contents_def)
    have ks: "cache_keys st1 = insert (content_of t f) (cache_keys st)" using s n by auto
    have "card (doc_contents t (f # fs) - cache_keys st) = Suc (card (doc_contents t fs - cache_keys st1))"
      using card_insert_diff [OF fin n(2)] dc ks by simp
    with n s ih ks dc show ?thesis by auto
  qed
qed

end
