(* ===== verification/Spec2Isabelle.thy ===== *)
theory Spec2Isabelle
  imports Rerun Interfaces LoopMachine IndexReadBack CacheRefine
begin

text \<open>
  Verification development of \<open>src/scripts/generate-delegates-index.ts\<close>, the script
  that walks the delegates directory, reads every delegate's Markdown document and
  optional \<open>metrics.json\<close>, and writes the sorted array of entries to \<open>index.json\<close>.

  \<^bold>\<open>The program and its model.\<close> The script is one function,
  \<open>generateDelegateIndex\<close> (lines 33--123), built from five parts that the theories
  model in the order of the code:
  \<^item> the directory guard (\<open>fs.existsSync\<close>, lines 36--41): the \<open>root\<close> of the
    \<open>world\<close> record (Generate) is \<open>None\<close> when the directory does not exist;
  \<^item> the enumerator (\<open>glob\<close>, lines 45--48): theory Glob, \<open>matches_md\<close>,
    \<open>ignored\<close>, \<open>selected\<close> and \<open>glob_result\<close>. glob does not promise an order, so the
    run is a function of the list \<open>files\<close> it returned, and the theorems quantify
    over every \<open>valid_enum\<close>eration (a duplicate-free list of exactly the matches);
  \<^item> the entry builder (the loop body, lines 60--108): theory Entry,
    \<open>process_file\<close> step by step (\<open>readFileSync\<close>, \<open>matter\<close>, \<open>readdirSync\<close>,
    \<open>path.join\<close>, \<open>load_metrics\<close> for lines 68--93, \<open>dir_name\<close> and \<open>with_address\<close>
    for lines 95--101, the push of lines 103--107), and \<open>process_files\<close> for the
    loop, which stops at the first throw and returns it with the state reached;
  \<^item> the assembler (lines 110--118): theory Generate, \<open>sort_entries\<close> (the
    \<open>localeCompare\<close> sort), \<open>entry_json\<close> and \<open>index_text\<close> (\<open>JSON.stringify\<close> with
    indent 2), \<open>finish\<close> (write and report);
  \<^item> the catch block (lines 119--122): \<open>fail\<close> prints the error and sets exit code 1.
  \<open>generate_delegate_index\<close> composes them as the source does.

  The libraries the script calls are modelled from their documented behaviour:
  the directory tree and \<open>fs\<close> calls with their POSIX errors (FileTree: a nested
  \<open>node\<close> datatype walked by \<open>resolve\<close>); \<open>path.dirname\<close>, \<open>path.basename\<close> and
  \<open>path.join\<close> (Paths); JavaScript values, objects on a heap so that aliasing is
  visible, and \<open>JSON.stringify\<close> (JsValue); gray-matter's \<open>matter\<close> with its
  content-keyed cache of parsed results (GrayMatter); \<open>Array.prototype.sort\<close> as the
  stable insertion sort and \<open>localeCompare\<close> as a comparison of ICU sort keys
  (JsSort). The state of a run is \<open>run_state\<close> (Entry): the heap and the cache of
  gray-matter, the \<open>indexData\<close> array, and the console lines logged by the loop.
  What the host provides is the record \<open>env\<close>: the directory path, the front-matter
  engine (js-yaml), \<open>JSON.parse\<close> and the collation key. Every theorem holds for
  every such host; the witnesses below run a small concrete one.

  \<^bold>\<open>What is proved.\<close> RunFacts lifts the loop to whole runs: with documents of
  distinct contents each document is processed on its own (\<open>doc_outcome\<close>), and
  the index is the sorted serialisation of the documents' entries, whatever the
  enumeration order (\<open>generate_fresh_outcome\<close>). Without that hypothesis gray-matter's
  cache hands the same data object to documents with the same text, and the
  \<open>address\<close> assignment of one delegate folder overwrites the other's
  (\<open>process_files_shared\<close>, \<open>last_document_address\<close>). The properties below state,
  in order: the index written by a successful run is the sorted permutation of the
  entries; the result does not depend on the enumeration order for distinct
  documents; for identical documents in two delegate folders it does, the first
  one enumerated carrying the other's address (a defect of the script); the
  address, metrics and error behaviour of each entry; the error paths of the run;
  the enumerator's exclusions; the console and exit code; then \<open>JSON.parse\<close> on
  the metrics (roundtrip and termination), the growth of the run state, the
  TypeScript interfaces, the front-matter engines and what a consumer reads back
  from \<open>index.json\<close>, and gray-matter's cache.

  \<^bold>\<open>The loop as a state machine.\<close> LoopMachine gives the \<open>for\<close> loop of
  lines 58--108 a small-step semantics (\<open>loop_state\<close>, \<open>loop_step\<close>) and shows it
  deterministic, terminating, and equal in outcome to \<open>process_files\<close>
  (\<open>loop_steps_process_files\<close>); the claims are stated over \<open>process_files\<close>.

  \<^bold>\<open>Front-matter engines.\<close> Yaml models gray-matter's engine lookup
  (\<open>gm_engine\<close>: \<open>yaml\<close>/\<open>yml\<close>, \<open>json\<close>, \<open>javascript\<close>/\<open>js\<close>, and the
  not-registered error) and js-yaml's \<open>safeLoad\<close> on the fragment front matter is
  written in (\<open>yaml_load\<close>: one \<open>key: value\<close> line per key, scalars resolved by the
  default safe schema, a repeated key throws). The demo host uses them. With
  them every value a run stores is a JSON value (\<open>run_values_are_json\<close>), so the
  \<open>index.json\<close> it writes parses back to its entries (\<open>index_json_read_back\<close>,
  IndexReadBack).

  \<^bold>\<open>The cache as an optimisation.\<close> CacheRefine compares gray-matter's cache with
  parsing every document afresh (\<open>doc_json\<close>). Its invariant \<open>valid_cache\<close> says
  every cached content maps to the object the engine makes of it; only the
  \<open>address\<close> assignment breaks it, so with no document in a \<open>0x\<close> folder the
  cache cannot be observed (\<open>cache_transparent_without_address\<close>, a refinement of
  the cache-free reference), which pins the order dependence of twin documents on
  the assignment. The cache also fixes the heap: one object per empty document
  and one per distinct non-empty content (\<open>heap_size_exact\<close>).

  \<^bold>\<open>JSON.parse.\<close> \<open>metrics.json\<close> goes through \<open>JSON.parse\<close> (line 80), modelled in
  JsonParse as a recursive-descent parser over the characters: \<open>pval\<close> for a value,
  \<open>pelems\<close> and \<open>pmembers\<close> for the rest of an array and an object, \<open>pstr\<close>,
  \<open>pint\<close> and \<open>pword\<close> for strings, numbers and literals, \<open>parse_json\<close> for the
  whole text; a \<open>SyntaxError\<close> is the value \<open>Inl syntax_error\<close>. JsonFuel proves it
  terminates: each call consumes input, more fuel never changes an answer that
  did not run out, and \<open>2 * length text + 1\<close>, the fuel \<open>parse_json\<close> gives, is
  always enough. JsonRoundtrip proves that it reads back the text
  \<open>JSON.stringify(v, null, 2)\<close> wrote (less the \<open>undefined\<close>s, \<open>jnorm\<close>), for
  values whose objects have distinct keys (\<open>keys_ok\<close>); JsonTyped that what it
  returns is a JSON value (\<open>json_value\<close>): no \<open>undefined\<close>, no key twice. The demo
  host uses this parser as its \<open>json_parse\<close>.

  \<^bold>\<open>Interfaces.\<close> \<open>DelegateMetadata\<close> and \<open>DelegateMetrics\<close> (lines 7--20) are
  erased by TypeScript; Interfaces states them as predicates, to show where the
  code makes them hold (\<open>with_address\<close> always writes a string address) and where
  it does not: an entry's metadata conforms exactly when the front matter's
  \<open>name\<close> and \<open>address\<close> do, the address of a \<open>0x\<close> folder excepted
  (\<open>entry_metadata_shape_iff\<close>), and metrics are attached whatever their shape.

  \<^bold>\<open>Bounds and termination.\<close> Every definition is total and executable: the
  loop is structural recursion on the file list and the tree walks are structural
  on the path. The one recursion that is not structural is the nesting of
  \<open>JSON.parse\<close>, bounded by fuel; twice the length of the text plus one is enough,
  because every second nested call consumes a character (JsonFuel), so
  \<open>parse_json\<close> never reports running out (\<open>metrics_parse_terminates\<close>). A run adds
  one entry, at most one log line and at most one heap object per document
  (\<open>run_state_bounds\<close>). The witnesses evaluate whole runs with \<open>code_simp\<close>.

  \<^bold>\<open>Not modelled.\<close> Every statement of the script is modelled (the lines the
  map leaves out are imports, comments and blank lines); what remains partial
  are the libraries it calls, each for a reason the model cannot remove. The
  values are \<open>jval\<close>: integers and 8-bit strings, which is what the script's own
  data needs; widening them to IEEE doubles and UTF-16 would change every
  theory, so JSON.parse and js-yaml report fractions, exponents and wide
  characters as outside the model instead of approximating them. Integers differ:
  js-yaml reports one beyond \<open>2^53\<close> as outside the model, but \<open>pint\<close> reads a
  \<open>JSON.parse\<close> integer of any size exactly and \<open>int_string\<close> prints one in full,
  where JavaScript rounds an integer literal beyond \<open>2^53\<close> to the nearest double
  and prints one of \<open>10^21\<close> or more in exponent form. The theorems about
  \<open>JSON.parse\<close> and \<open>JSON.stringify\<close> are therefore exact for the integers
  JavaScript represents and prints exactly, which include every integer YAML
  front matter yields; a \<open>metrics.json\<close> holding a larger one is read differently
  by the model than by Node. ICU collation is locale data, not an algorithm of
  the script, so it stays an arbitrary key into a linear order. The whole of
  js-yaml, a YAML 1.2 parser, is more than any claim about the script needs: the
  theorems about whole runs keep the engine a parameter (\<open>engine\<close>) and hold for
  any, except the two read-back theorems, which use gray-matter's engines; js-yaml
  is modelled only on the block-mapping fragment front matter uses: nesting,
  sequences, flow collections, block scalars, anchors, tags, escapes in double
  quotes, floats, timestamps, octal, binary and sexagesimal integers, integers
  beyond \<open>2^53\<close>, data that is not an object, and the \<open>javascript\<close> engine's
  \<open>eval\<close> are reported as \<open>yaml_outside\<close>, which the model throws, so a claim
  about a successful run never covers them; a language name inherited from
  \<open>Object.prototype\<close> is treated as unregistered, and js-yaml's error text is
  reduced to its first words. \<open>JSON.parse\<close> is modelled for the values \<open>jval\<close> can
  hold: a number with a fraction or an exponent, or a \<open>\u\<close> escape above
  \<open>00FF\<close>, is reported as outside the model, and the text of a \<open>SyntaxError\<close> is
  one fixed message (V8's names the token and position). gray-matter stores a new
  file object in its cache before parsing it, so a front matter that fails to
  parse leaves a cache entry behind; the model caches only after a successful
  parse, which no run can tell apart, because the failure ends the run. Strings
  are lists of 8-bit characters, so UTF-16 code units, the BOM that
  \<open>readFileSync\<close> keeps, and the ordering of integer-like keys that
  \<open>JSON.stringify\<close> applies to objects are not represented; the text of Node's
  error messages is reduced to the error code and path; \<open>__dirname\<close> and the
  location of \<open>index.json\<close> are fixed by \<open>dir_path\<close>, and \<open>index.json\<close> is
  written to the root of the modelled tree.
\<close>

section \<open>A concrete host for the witnesses\<close>

text \<open>The host the witnesses run: gray-matter's engines of Yaml, the \<open>JSON.parse\<close>
  model of JsonParse, and code-point order as the collation, which is the one test
  fixture here (ICU collation is not modelled).\<close>

definition demo_env :: "string env" where
  "demo_env = \<lparr>dir_path = ''/repo/delegates'', engine = gm_engine, json_parse = parse_json, collate = id\<rparr>"

definition demo_world :: "node option \<Rightarrow> world" where
  "demo_world r = \<lparr>root = r, console = [], exit_code = 0\<rparr>"

text \<open>A delegates directory with every case the enumerator distinguishes: a root
  \<open>README.md\<close>, the \<open>meta\<close> and \<open>templates\<close> folders, a delegate folder with front
  matter and a \<open>metrics.json\<close>, and a \<open>meta\<close> folder one level down.\<close>

definition demo_tree :: node where
  "demo_tree =
     Dir [(''README.md'', File ''# Delegates''),
          (''meta'', Dir [(''guide.md'', File ''g'')]),
          (''templates'', Dir [(''delegate.md'', File ''t'')]),
          (''0xABC123'', Dir [(''delegate.md'', File ''---\<newline>name: Alice\<newline>---\<newline>Bio''),
                              (''metrics.json'', File ''{}'')]),
          (''notes'', Dir [(''meta'', Dir [(''x.md'', File ''n'')])])]"

text \<open>The order in which the enumerator returns the two documents of \<open>demo_tree\<close>,
  two delegate folders whose documents are the same text, and a delegate folder
  whose \<open>metrics.json\<close> is not JSON.\<close>

definition demo_files :: "string list" where
  "demo_files = [''notes/meta/x.md'', ''0xABC123/delegate.md'']"

definition twin_tree :: node where
  "twin_tree =
     Dir [(''0xA'', Dir [(''delegate.md'', File ''---\<newline>name: Twin\<newline>---\<newline>Same'')]),
          (''0xB'', Dir [(''delegate.md'', File ''---\<newline>name: Twin\<newline>---\<newline>Same'')])]"

definition bad_metrics_tree :: node where
  "bad_metrics_tree =
     Dir [(''0xC'', Dir [(''delegate.md'', File ''---\<newline>name: Carol\<newline>---\<newline>''),
                         (''metrics.json'', File ''{oops'')])]"

definition dir_md_tree :: node where
  "dir_md_tree = Dir [(''0xA'', Dir [(''delegate.md'', File ''a'')]), (''notes.md'', Dir [(''x.txt'', File ''x'')])]"

definition bad_matter_tree :: node where
  "bad_matter_tree =
     Dir [(''0xD'', Dir [(''delegate.md'', File ''---toml\<newline>name = 1\<newline>---\<newline>'')]),
          (''0xE'', Dir [(''delegate.md'', File ''---\<newline>name: Eve\<newline>---\<newline>'')])]"

text \<open>A \<open>metrics.json\<close> text with a repeated key, and a value with \<open>undefined\<close>
  inside an array and as a property.\<close>

definition dup_key_text :: string where
  \<open>dup_key_text = ''{"a": [1, true], "b": null, "a": -20}''\<close>

definition undef_value :: jval where
  "undef_value = JObj [(''a'', JArr [JNum 1, JUndef]), (''b'', JUndef), (''c'', JStr ''x'')]"

text \<open>Two delegate folders whose \<open>metrics.json\<close> are the printed \<open>undef_value\<close> and
  \<open>dup_key_text\<close>.\<close>

definition json_tree :: node where
  "json_tree =
     Dir [(''0xF'', Dir [(''delegate.md'', File ''f''), (''metrics.json'', File (the (stringify undef_value)))]),
          (''0xG'', Dir [(''d.md'', File ''g''), (''metrics.json'', File dup_key_text)])]"

text \<open>A top-level document whose front matter has an unquoted year and hex number.\<close>

definition yaml_tree :: node where
  "yaml_tree = Dir [(''delegate.md'', File ''---\<newline>name: 2024\<newline>address: 0x2a\<newline>---\<newline>'')]"

text \<open>Two folders not named \<open>0x...\<close> holding the same document, and an empty one.\<close>

definition plain_twin_tree :: node where
  "plain_twin_tree =
     Dir [(''a'', Dir [(''d.md'', File ''---\<newline>name: Twin\<newline>---\<newline>'')]),
          (''b'', Dir [(''d.md'', File ''---\<newline>name: Twin\<newline>---\<newline>'')]),
          (''c'', Dir [(''e.md'', File [])])]"

definition plain_twin_files :: "string list" where
  "plain_twin_files = [''a/d.md'', ''b/d.md'', ''c/e.md'']"

section \<open>Properties\<close>

text \<open>C1: a run that ends normally wrote \<open>index.json\<close> once, holding the JSON array of
  the loop's entries sorted by the collation of their paths, one entry per
  enumerated document.\<close>

theorem index_sorted_permutation:
  assumes "root w = Some t" and "files \<noteq> []" and "exit_code w = 0"
    and "exit_code (generate_delegate_index L files w) = 0"
  shows "\<exists>st. process_files L t files init_run = Inr st \<and>
           index_content (generate_delegate_index L files w) =
             stringify (JArr (map (entry_json (heap st)) (sort_entries L (index_data st)))) \<and>
           sorted (map (\<lambda>e. collate L (e_path e)) (sort_entries L (index_data st))) \<and>
           mset (map e_path (sort_entries L (index_data st))) = mset (map path_join1 files)"
proof -
  obtain st text_out t' where run: "process_files L t files init_run = Inr st"
    and itx: "index_text (heap st) (sort_entries L (index_data st)) = Some text_out"
    and out: "index_content (generate_delegate_index L files w) = Some text_out"
    using assms by (rule generate_success_cases)
  have "sorted (map (\<lambda>e. collate L (e_path e)) (sort_entries L (index_data st)))"
    by (simp add: sort_entries_def sorted_js_sort)
  moreover have "mset (map e_path (sort_entries L (index_data st))) = mset (map e_path (index_data st))"
    by (simp only: sort_entries_def mset_map mset_js_sort)
  moreover have "map e_path (index_data st) = map path_join1 files"
    using process_files_paths [OF run] by (simp add: init_run_def)
  ultimately show ?thesis using run itx out by (auto simp: index_text_def)
qed

theorem index_sorted_permutation_witness:
  "exit_code (generate_delegate_index demo_env [''notes/meta/x.md'', ''0xABC123/delegate.md''] (demo_world (Some demo_tree))) = 0 \<and>
   (\<exists>st. process_files demo_env demo_tree [''notes/meta/x.md'', ''0xABC123/delegate.md''] init_run = Inr st \<and>
        sorted (map (\<lambda>e. collate demo_env (e_path e)) (sort_entries demo_env (index_data st))))"
proof -
  have h: "root (demo_world (Some demo_tree)) = Some demo_tree" "[''notes/meta/x.md'', ''0xABC123/delegate.md''] \<noteq> []"
    "exit_code (demo_world (Some demo_tree)) = 0"
    by (simp_all add: demo_world_def)
  have e: "exit_code (generate_delegate_index demo_env [''notes/meta/x.md'', ''0xABC123/delegate.md''] (demo_world (Some demo_tree))) = 0"
    by code_simp
  from index_sorted_permutation [OF h e] e show ?thesis by blast
qed

text \<open>C2: when the documents have distinct contents and no two of their paths
  tie under the collation, the tree the run leaves (so the content of
  \<open>index.json\<close>) and its exit code are the same for every order in which the
  enumerator may return the documents.\<close>

theorem index_independent_of_enumeration:
  assumes "root w = Some t" and "valid_enum t fs1" and "valid_enum t fs2"
    and "distinct_docs t fs1" and "inj_on (\<lambda>f. collate L (path_join1 f)) (set (glob_result t))"
  shows "root (generate_delegate_index L fs1 w) = root (generate_delegate_index L fs2 w) \<and>
         exit_code (generate_delegate_index L fs1 w) = exit_code (generate_delegate_index L fs2 w)"
proof (cases "fs1 = []")
  case True
  then show ?thesis using assms(2,3) by (simp add: valid_enum_def)
next
  case False
  have m: "mset fs1 = mset fs2" using assms(2,3) by (rule valid_enum_mset)
  then have s: "set fs1 = set fs2" by (rule mset_eq_setD)
  have ne2: "fs2 \<noteq> []" using False s by auto
  have d2: "distinct_docs t fs2" using assms(4) distinct_docs_mset [OF m] by simp
  have inj: "inj_on (\<lambda>f. collate L (path_join1 f)) (set fs1)"
    using assms(2,5) by (simp add: valid_enum_def)
  have "(root (generate_delegate_index L fs1 w), exit_code (generate_delegate_index L fs1 w)) =
        (root (generate_delegate_index L fs2 w), exit_code (generate_delegate_index L fs2 w))"
  proof (cases "\<forall>f \<in> set fs1. \<exists>r. doc_outcome L t f = Inr r")
    case True
    then have P2: "\<forall>f \<in> set fs2. \<exists>r. doc_outcome L t f = Inr r" using s by simp
    show ?thesis
      unfolding generate_fresh_outcome [OF assms(1) False assms(4)] generate_fresh_outcome [OF assms(1) ne2 d2]
        if_P [OF True] if_P [OF P2] doc_json_sort_perm [OF m True inj] ..
  next
    case F: False
    then have P2: "\<not> (\<forall>f \<in> set fs2. \<exists>r. doc_outcome L t f = Inr r)" using s by simp
    show ?thesis
      unfolding generate_fresh_outcome [OF assms(1) False assms(4)] generate_fresh_outcome [OF assms(1) ne2 d2]
        if_not_P [OF F] if_not_P [OF P2] ..
  qed
  then show ?thesis by simp
qed

theorem index_independent_of_enumeration_witness:
  "root (generate_delegate_index demo_env [''notes/meta/x.md'', ''0xABC123/delegate.md''] (demo_world (Some demo_tree))) =
   root (generate_delegate_index demo_env [''0xABC123/delegate.md'', ''notes/meta/x.md''] (demo_world (Some demo_tree))) \<and>
   exit_code (generate_delegate_index demo_env [''notes/meta/x.md'', ''0xABC123/delegate.md''] (demo_world (Some demo_tree))) =
   exit_code (generate_delegate_index demo_env [''0xABC123/delegate.md'', ''notes/meta/x.md''] (demo_world (Some demo_tree)))"
proof -
  have g: "glob_result demo_tree = [''0xABC123/delegate.md'', ''notes/meta/x.md'']" by code_simp
  have h: "root (demo_world (Some demo_tree)) = Some demo_tree" by (simp add: demo_world_def)
  have v1: "valid_enum demo_tree [''notes/meta/x.md'', ''0xABC123/delegate.md'']"
    by (simp add: valid_enum_def g insert_commute)
  have v2: "valid_enum demo_tree [''0xABC123/delegate.md'', ''notes/meta/x.md'']"
    by (simp add: valid_enum_def g)
  have d: "distinct_docs demo_tree [''notes/meta/x.md'', ''0xABC123/delegate.md'']" by code_simp
  have i: "inj_on (\<lambda>f. collate demo_env (path_join1 f)) (set (glob_result demo_tree))"
    by (simp add: g demo_env_def) code_simp
  show ?thesis by (rule index_independent_of_enumeration [OF h v1 v2 d i])
qed

text \<open>C11: when \<open>delegateDirectory\<close> does not exist the run prints one line and changes
  nothing else: no index is written and the exit code is the one it had.\<close>

theorem missing_directory_untouched:
  assumes "root w = None"
  shows "root (generate_delegate_index L files w) = None \<and>
         exit_code (generate_delegate_index L files w) = exit_code w \<and>
         console (generate_delegate_index L files w) =
           console w @ [Out (''Delegates directory not found: '' @ dir_path L @ ''. Skipping generation.'')]"
  using assms by (simp add: generate_no_root)

theorem missing_directory_untouched_witness:
  "root (demo_world None) = None \<and>
   root (generate_delegate_index demo_env [''a.md''] (demo_world None)) = None \<and>
   exit_code (generate_delegate_index demo_env [''a.md''] (demo_world None)) = 0"
proof -
  have "root (demo_world None) = None" by (simp add: demo_world_def)
  from missing_directory_untouched [OF this, of demo_env "[''a.md'']"] this show ?thesis
    by (simp add: demo_world_def)
qed

text \<open>C12: with no document found, the index written is exactly \<open>[]\<close> and the run
  ends normally.\<close>

theorem no_documents_empty_array:
  assumes "root w = Some (Dir es)" and "\<forall>es'. map_of es index_name \<noteq> Some (Dir es')"
  shows "index_content (generate_delegate_index L [] w) = Some ''[]'' \<and>
         exit_code (generate_delegate_index L [] w) = exit_code w"
proof -
  obtain t' where wr: "write_root_file (Dir es) index_name ''[]'' = Inr t'"
    using assms(2) write_root_file_Inr_iff [of "Dir es" index_name "''[]''"] by auto
  then have g: "root (generate_delegate_index L [] w) = Some t' \<and>
                exit_code (generate_delegate_index L [] w) = exit_code w"
    using assms(1) by (simp add: generate_no_files Let_def)
  with wr show ?thesis by (simp add: index_content_written)
qed

theorem no_documents_empty_array_witness:
  "root (demo_world (Some (Dir []))) = Some (Dir []) \<and> (\<forall>es'. map_of [] index_name \<noteq> Some (Dir es')) \<and>
   index_content (generate_delegate_index demo_env [] (demo_world (Some (Dir [])))) = Some ''[]''"
proof -
  have h1: "root (demo_world (Some (Dir []))) = Some (Dir [])" by (simp add: demo_world_def)
  have h2: "\<forall>es'. map_of ([] :: (string \<times> node) list) index_name \<noteq> Some (Dir es')" by simp
  from no_documents_empty_array [OF h1 h2, of demo_env] h1 h2 show ?thesis by simp
qed

text \<open>C6: no enumerated document is a \<open>README.md\<close>, and none lies under the top-level
  \<open>meta/\<close> or \<open>templates/\<close> directories.\<close>

theorem excluded_never_enumerated:
  assumes "wf_node t" and "valid_enum t files" and "f \<in> set files"
  shows "posix_basename f \<noteq> ''README.md'' \<and> \<not> starts_with f ''meta/'' \<and> \<not> starts_with f ''templates/''"
proof -
  obtain p where p: "p \<in> set (glob_matches t)" and f: "f = join_path p"
    using assms by (rule valid_enum_member)
  have segs: "p \<noteq> []" "\<forall>s \<in> set p. proper_seg s"
    using glob_match_segments [OF assms(1) p] by auto
  have sel: "\<not> ignored p" using p assms(1) by (simp add: set_glob_matches selected_def)
  have "posix_basename f = last p"
  proof -
    have "p = butlast p @ [last p]" using segs(1) by simp
    moreover have "\<forall>s \<in> set (butlast p). proper_seg s" "proper_seg (last p)"
      using segs by (auto dest: in_set_butlastD)
    ultimately show ?thesis using f by (metis basename_join_path_snoc)
  qed
  moreover have "hd p \<noteq> ''meta''" "hd p \<noteq> ''templates''" "last p \<noteq> ''README.md''"
    using sel segs(1) by (auto simp: ignored_def)
  moreover have "\<not> starts_with f ''meta/''"
    using join_path_starts_with_dir [OF segs(2) segs(1), of "''meta''"] f \<open>hd p \<noteq> ''meta''\<close> by auto
  moreover have "\<not> starts_with f ''templates/''"
    using join_path_starts_with_dir [OF segs(2) segs(1), of "''templates''"] f \<open>hd p \<noteq> ''templates''\<close> by auto
  ultimately show ?thesis by simp
qed

theorem excluded_never_enumerated_witness:
  "wf_node demo_tree \<and> valid_enum demo_tree [''notes/meta/x.md'', ''0xABC123/delegate.md''] \<and>
   posix_basename ''0xABC123/delegate.md'' \<noteq> ''README.md'' \<and> \<not> starts_with ''0xABC123/delegate.md'' ''meta/''"
proof -
  have h: "wf_node demo_tree" "valid_enum demo_tree [''notes/meta/x.md'', ''0xABC123/delegate.md'']"
    by code_simp+
  from excluded_never_enumerated [OF h, of "''0xABC123/delegate.md''"] h show ?thesis by simp
qed

text \<open>C16: the \<open>meta/**\<close> and \<open>templates/**\<close> ignore patterns are anchored at the
  root: a Markdown document inside a \<open>meta\<close> folder below the top level is
  enumerated like any other.\<close>

theorem nested_meta_enumerated:
  assumes "wf_node t" and "resolve t (d # ps @ [''meta'', f]) = Inr n"
    and "dot_free (d # ps @ [''meta'', f])" and "ends_with f ''.md''" and "f \<noteq> ''README.md''"
    and "d \<noteq> ''meta''" and "d \<noteq> ''templates''"
  shows "join_path (d # ps @ [''meta'', f]) \<in> set (glob_result t)"
proof -
  have "selected (d # ps @ [''meta'', f])"
    using assms(3-7) by (simp add: selected_def matches_md_def ignored_def)
  with assms(1,2) have "d # ps @ [''meta'', f] \<in> set (glob_matches t)"
    by (simp add: set_glob_matches)
  then show ?thesis by (simp add: glob_result_def)
qed

theorem nested_meta_enumerated_witness:
  "join_path [''notes'', ''meta'', ''x.md''] \<in> set (glob_result demo_tree)"
proof -
  have h: "wf_node demo_tree" "resolve demo_tree (''notes'' # [] @ [''meta'', ''x.md'']) = Inr (File ''n'')"
    "dot_free (''notes'' # [] @ [''meta'', ''x.md''])" "ends_with ''x.md'' ''.md''"
    by code_simp+
  have "''x.md'' \<noteq> ''README.md''" "''notes'' \<noteq> ''meta''" "''notes'' \<noteq> ''templates''" by simp_all
  from nested_meta_enumerated [OF h this] show ?thesis by simp
qed

text \<open>C17: an entry whose \<open>metrics\<close> is \<open>undefined\<close> is serialised without a
  \<open>metrics\<close> key, exactly as the object with only \<open>path\<close> and \<open>metadata\<close>.\<close>

theorem absent_metrics_not_serialised:
  assumes "e_metrics e = JUndef"
  shows "ser ind (entry_json h e) = ser ind (JObj [(''path'', JStr (e_path e)), (''metadata'', JObj (h ! e_metadata e))])"
proof -
  have "ser ind (entry_json h e) = ser ind (JObj (filter (\<lambda>(k, v). v \<noteq> JUndef)
          [(''path'', JStr (e_path e)), (''metadata'', JObj (h ! e_metadata e)), (''metrics'', e_metrics e)]))"
    unfolding entry_json_def by (rule ser_obj_filter_undef)
  also have "\<dots> = ser ind (JObj [(''path'', JStr (e_path e)), (''metadata'', JObj (h ! e_metadata e))])"
    using assms by simp
  finally show ?thesis .
qed

theorem absent_metrics_not_serialised_witness:
  "stringify (entry_json [[]] \<lparr>e_path = ''a/x.md'', e_metadata = 0, e_metrics = JUndef\<rparr>) =
   Some (''{'' @ newline # ''  '' @ json_quote ''path'' @ '': '' @ json_quote ''a/x.md'' @ '','' @ newline # ''  ''
         @ json_quote ''metadata'' @ '': {}'' @ newline # ''}'')"
proof -
  have "e_metrics \<lparr>e_path = ''a/x.md'', e_metadata = 0, e_metrics = JUndef\<rparr> = JUndef" by simp
  from absent_metrics_not_serialised [OF this, of "[]" "[[]]"] show ?thesis
    by (simp add: stringify_def wrap_members_def gap_def)
qed

text \<open>C5: in a run over documents of distinct contents, the entry of a document
  whose folder name starts with \<open>0x\<close> serialises metadata whose \<open>address\<close> is that
  folder name.\<close>

theorem address_from_delegate_folder:
  assumes "process_files L t fs init_run = Inr st" and "distinct_docs t fs" and "i < length fs"
    and "starts_with (dir_name (path_join1 (fs ! i))) ''0x''"
  shows "map_of (heap st ! e_metadata (index_data st ! i)) ''address'' = Some (JStr (dir_name (path_join1 (fs ! i))))"
proof -
  obtain c d where "heap st ! e_metadata (index_data st ! i) = with_address (path_join1 (fs ! i)) d"
    by (rule fresh_run_metadata [OF assms(1-3)])
  with with_address_string [OF assms(4)] show ?thesis by simp
qed

theorem address_from_delegate_folder_witness:
  "map_of (heap (projr (process_files demo_env demo_tree demo_files init_run)) !
      e_metadata (index_data (projr (process_files demo_env demo_tree demo_files init_run)) ! 1)) ''address'' =
   Some (JStr (dir_name (path_join1 (demo_files ! 1))))"
proof -
  have r: "process_files demo_env demo_tree demo_files init_run =
           Inr (projr (process_files demo_env demo_tree demo_files init_run))" by code_simp
  have d: "distinct_docs demo_tree demo_files" by code_simp
  have l: "1 < length demo_files" by (simp add: demo_files_def)
  have a: "starts_with (dir_name (path_join1 (demo_files ! 1))) ''0x''" by code_simp
  show ?thesis by (rule address_from_delegate_folder [OF r d l a])
qed

text \<open>C4: two documents of the same non-empty content get one metadata object: the
  two entries serialise the same \<open>metadata\<close>, so the \<open>address\<close> of one delegate
  folder is overwritten by the other's.\<close>

theorem identical_documents_share_metadata:
  assumes "process_files L t fs init_run = Inr st" and "i < j" and "j < length fs"
    and "content_of t (fs ! i) = content_of t (fs ! j)" and "content_of t (fs ! i) \<noteq> []"
  shows "entry_json (heap st) (index_data st ! i) =
           JObj [(''path'', JStr (path_join1 (fs ! i))), (''metadata'', JObj (heap st ! e_metadata (index_data st ! j))),
                 (''metrics'', e_metrics (index_data st ! i))]"
proof -
  have "e_metadata (index_data st ! i) = e_metadata (index_data st ! j)"
    by (rule process_files_shared [OF assms(1-3) refl assms(4) [symmetric] assms(5)])
  moreover have "map e_path (index_data st) = map path_join1 fs"
    using process_files_paths [OF assms(1)] by (simp add: init_run_def)
  then have "e_path (index_data st ! i) = path_join1 (fs ! i)"
    using assms(2,3) by (metis length_map less_trans nth_map)
  ultimately show ?thesis by (simp add: entry_json_def)
qed

theorem identical_documents_share_metadata_witness:
  "entry_json (heap (projr (process_files demo_env twin_tree [''0xA/delegate.md'', ''0xB/delegate.md''] init_run)))
     (index_data (projr (process_files demo_env twin_tree [''0xA/delegate.md'', ''0xB/delegate.md''] init_run)) ! 0) =
   JObj [(''path'', JStr (path_join1 ([''0xA/delegate.md'', ''0xB/delegate.md''] ! 0))),
         (''metadata'', JObj (heap (projr (process_files demo_env twin_tree [''0xA/delegate.md'', ''0xB/delegate.md''] init_run)) !
            e_metadata (index_data (projr (process_files demo_env twin_tree [''0xA/delegate.md'', ''0xB/delegate.md''] init_run)) ! 1))),
         (''metrics'', e_metrics (index_data (projr (process_files demo_env twin_tree [''0xA/delegate.md'', ''0xB/delegate.md''] init_run)) ! 0))]"
proof -
  have r: "process_files demo_env twin_tree [''0xA/delegate.md'', ''0xB/delegate.md''] init_run =
           Inr (projr (process_files demo_env twin_tree [''0xA/delegate.md'', ''0xB/delegate.md''] init_run))" by code_simp
  have c1: "content_of twin_tree ([''0xA/delegate.md'', ''0xB/delegate.md''] ! 0) =
            content_of twin_tree ([''0xA/delegate.md'', ''0xB/delegate.md''] ! 1)" by code_simp
  have c2: "content_of twin_tree ([''0xA/delegate.md'', ''0xB/delegate.md''] ! 0) \<noteq> []" by code_simp
  show ?thesis by (rule identical_documents_share_metadata [OF r _ _ c1 c2]) simp_all
qed

text \<open>C3: because of the shared object, the entry of a document depends on the order
  in which glob enumerates it: of two documents with the same non-empty content in
  two delegate folders, the one enumerated first carries the address of the other's
  folder, and the one enumerated last its own.\<close>

theorem twin_documents_order_dependent:
  assumes "process_files L t [f, g] init_run = Inr st" and "process_files L t [g, f] init_run = Inr st'"
    and "content_of t f = content_of t g" and "content_of t f \<noteq> []"
    and "starts_with (dir_name (path_join1 f)) ''0x''" and "starts_with (dir_name (path_join1 g)) ''0x''"
  shows "map_of (heap st ! e_metadata (index_data st ! 0)) ''address'' = Some (JStr (dir_name (path_join1 g))) \<and>
         map_of (heap st' ! e_metadata (index_data st' ! 1)) ''address'' = Some (JStr (dir_name (path_join1 f)))"
proof
  have c: "content_of t g \<noteq> []" using assms(3,4) by simp
  have "e_metadata (index_data st ! 0) = e_metadata (index_data st ! 1)"
    by (rule process_files_shared [OF assms(1), of 0 1 "content_of t g"]) (simp_all add: assms(3) c)
  moreover have "index_data st ! 1 = last (index_data st)"
    using process_files_growth [OF assms(1)] by (intro nth_last_length) (simp add: init_run_def)
  ultimately show "map_of (heap st ! e_metadata (index_data st ! 0)) ''address'' = Some (JStr (dir_name (path_join1 g)))"
    using last_document_address [OF assms(1)] assms(6) by simp
  have "index_data st' ! 1 = last (index_data st')"
    using process_files_growth [OF assms(2)] by (intro nth_last_length) (simp add: init_run_def)
  then show "map_of (heap st' ! e_metadata (index_data st' ! 1)) ''address'' = Some (JStr (dir_name (path_join1 f)))"
    using last_document_address [OF assms(2)] assms(5) by simp
qed

theorem twin_documents_order_dependent_witness:
  "map_of (heap (projr (process_files demo_env twin_tree [''0xA/delegate.md'', ''0xB/delegate.md''] init_run)) !
     e_metadata (index_data (projr (process_files demo_env twin_tree [''0xA/delegate.md'', ''0xB/delegate.md''] init_run)) ! 0)) ''address'' = Some (JStr ''0xB'') \<and>
   map_of (heap (projr (process_files demo_env twin_tree [''0xB/delegate.md'', ''0xA/delegate.md''] init_run)) !
     e_metadata (index_data (projr (process_files demo_env twin_tree [''0xB/delegate.md'', ''0xA/delegate.md''] init_run)) ! 1)) ''address'' = Some (JStr ''0xA'')"
proof -
  have r1: "process_files demo_env twin_tree [''0xA/delegate.md'', ''0xB/delegate.md''] init_run =
            Inr (projr (process_files demo_env twin_tree [''0xA/delegate.md'', ''0xB/delegate.md''] init_run))" by code_simp
  have r2: "process_files demo_env twin_tree [''0xB/delegate.md'', ''0xA/delegate.md''] init_run =
            Inr (projr (process_files demo_env twin_tree [''0xB/delegate.md'', ''0xA/delegate.md''] init_run))" by code_simp
  have c1: "content_of twin_tree ''0xA/delegate.md'' = content_of twin_tree ''0xB/delegate.md''" by code_simp
  have c2: "content_of twin_tree ''0xA/delegate.md'' \<noteq> []" by code_simp
  have a: "starts_with (dir_name (path_join1 ''0xA/delegate.md'')) ''0x''" by code_simp
  have b: "starts_with (dir_name (path_join1 ''0xB/delegate.md'')) ''0x''" by code_simp
  have da: "dir_name (path_join1 ''0xA/delegate.md'') = ''0xA''" by code_simp
  have db: "dir_name (path_join1 ''0xB/delegate.md'') = ''0xB''" by code_simp
  show ?thesis using twin_documents_order_dependent [OF r1 r2 c1 c2 a b] unfolding da db .
qed

text \<open>C8: a \<open>metrics.json\<close> that is not JSON does not stop the run: the entry is
  still pushed, with no metrics, and the parse error is logged with the
  document's path.\<close>

theorem metrics_parse_error_recovered:
  assumes "read_file_sync t (split_on CHR ''/'' f) = Inr c" and "gray_matter (engine L) c st = Inr (md, st1)"
    and "readdir_sync t (butlast (split_on CHR ''/'' f)) = Inr names"
    and "read_file_sync t (butlast (split_on CHR ''/'' f) @ [metrics_file_name]) = Inr mtext"
    and "json_parse L mtext = Inl msg"
  shows "\<exists>st'. process_file L t f st = Inr st' \<and> e_metrics (last (index_data st')) = JUndef \<and>
           e_path (last (index_data st')) = path_join1 f \<and>
           log st' = log st @ [Err (''Error parsing metrics file for '' @ path_join1 f @ '': '' @ msg)]"
proof -
  have "metrics_file_name \<in> set names"
    using assms(4) assms(3) by (intro readdir_sync_lists) (simp_all add: read_file_sync_Inr)
  then have "load_metrics L t (butlast (split_on CHR ''/'' f)) names (path_join1 f) =
               Inr (JUndef, [Err (''Error parsing metrics file for '' @ path_join1 f @ '': '' @ msg)])"
    using assms(4,5) by (simp add: load_metrics_def)
  then show ?thesis using assms(1-3) gray_matter_run_fields [OF assms(2)]
    by (simp add: process_file_def Let_def)
qed

theorem metrics_parse_error_recovered_witness:
  "\<exists>st'. process_file demo_env bad_metrics_tree ''0xC/delegate.md'' init_run = Inr st' \<and>
     e_metrics (last (index_data st')) = JUndef \<and> e_path (last (index_data st')) = path_join1 ''0xC/delegate.md'' \<and>
     log st' = log init_run @ [Err (''Error parsing metrics file for '' @ path_join1 ''0xC/delegate.md'' @ '': '' @ ''Unexpected token in JSON'')]"
proof -
  have a1: "read_file_sync bad_metrics_tree (split_on CHR ''/'' ''0xC/delegate.md'') = Inr ''---\<newline>name: Carol\<newline>---\<newline>''"
    by code_simp
  have a2: "gray_matter (engine demo_env) ''---\<newline>name: Carol\<newline>---\<newline>'' init_run =
      Inr (fst (projr (gray_matter (engine demo_env) ''---\<newline>name: Carol\<newline>---\<newline>'' init_run)),
           snd (projr (gray_matter (engine demo_env) ''---\<newline>name: Carol\<newline>---\<newline>'' init_run)))"
    by code_simp
  have a3: "readdir_sync bad_metrics_tree (butlast (split_on CHR ''/'' ''0xC/delegate.md'')) = Inr [''delegate.md'', ''metrics.json'']"
    by code_simp
  have a4: "read_file_sync bad_metrics_tree (butlast (split_on CHR ''/'' ''0xC/delegate.md'') @ [metrics_file_name]) = Inr ''{oops''"
    by code_simp
  have a5: "json_parse demo_env ''{oops'' = Inl ''Unexpected token in JSON''"
    by code_simp
  show ?thesis by (rule metrics_parse_error_recovered [OF a1 a2 a3 a4 a5])
qed

text \<open>C7: in a run over documents of distinct contents, the entry of a document
  whose folder holds a \<open>metrics.json\<close> that parses carries the parsed value.\<close>

theorem metrics_attached:
  assumes "process_files L t fs init_run = Inr st" and "distinct_docs t fs" and "i < length fs"
    and "read_file_sync t (butlast (split_on CHR ''/'' (fs ! i)) @ [metrics_file_name]) = Inr mtext"
    and "json_parse L mtext = Inr v"
  shows "e_metrics (index_data st ! i) = v"
  using fresh_run_metrics [OF assms(1-4)] assms(5) by simp

theorem metrics_attached_witness:
  "e_metrics (index_data (projr (process_files demo_env demo_tree demo_files init_run)) ! 1) = JObj []"
proof -
  have r: "process_files demo_env demo_tree demo_files init_run =
           Inr (projr (process_files demo_env demo_tree demo_files init_run))" by code_simp
  have d: "distinct_docs demo_tree demo_files" by code_simp
  have l: "1 < length demo_files" by (simp add: demo_files_def)
  have m: "read_file_sync demo_tree (butlast (split_on CHR ''/'' (demo_files ! 1)) @ [metrics_file_name]) = Inr ''{}''"
    by code_simp
  have j: "json_parse demo_env ''{}'' = Inr (JObj [])" by code_simp
  show ?thesis by (rule metrics_attached [OF r d l m j])
qed

text \<open>C9: a throw anywhere in the loop is caught: the run ends with exit code 1,
  prints the error last, and writes nothing.\<close>

theorem thrown_error_writes_nothing:
  assumes "root w = Some t" and "files \<noteq> []" and "process_files L t files init_run = Inl (e, st)"
  shows "root (generate_delegate_index L files w) = Some t \<and> exit_code (generate_delegate_index L files w) = 1 \<and>
         last (console (generate_delegate_index L files w)) = Err (''Error generating delegates index: '' @ show_exn e)"
  using generate_threw [OF assms] assms(1) by simp

theorem thrown_error_writes_nothing_witness:
  "root (generate_delegate_index demo_env [''notes.md''] (demo_world (Some dir_md_tree))) = Some dir_md_tree \<and>
   exit_code (generate_delegate_index demo_env [''notes.md''] (demo_world (Some dir_md_tree))) = 1 \<and>
   last (console (generate_delegate_index demo_env [''notes.md''] (demo_world (Some dir_md_tree)))) =
     Err (''Error generating delegates index: '' @ show_exn (FsExn (EISDIR [''notes.md''])))"
proof -
  have r: "root (demo_world (Some dir_md_tree)) = Some dir_md_tree" by (simp add: demo_world_def)
  have n: "[''notes.md''] \<noteq> []" by simp
  have p: "process_files demo_env dir_md_tree [''notes.md''] init_run = Inl (FsExn (EISDIR [''notes.md'']), init_run)"
    by code_simp
  show ?thesis by (rule thrown_error_writes_nothing [OF r n p])
qed

text \<open>C10: a directory whose name ends in \<open>.md\<close> is enumerated like a document;
  reading it throws \<open>EISDIR\<close>, so whatever the enumeration order, the run ends with
  exit code 1 and writes no index.\<close>

theorem directory_document_aborts:
  assumes "root w = Some t" and "f \<in> set files" and "resolve t (split_on CHR ''/'' f) = Inr (Dir es)"
  shows "root (generate_delegate_index L files w) = Some t \<and> exit_code (generate_delegate_index L files w) = 1"
proof -
  have ne: "files \<noteq> []" using assms(2) by auto
  have "\<not> (\<exists>st. process_files L t files init_run = Inr st)"
  proof
    assume "\<exists>st. process_files L t files init_run = Inr st"
    then obtain st where "process_files L t files init_run = Inr st" ..
    from process_files_Inr_reads [OF this assms(2)] assms(3) show False
      by (simp add: read_file_sync_def)
  qed
  then obtain e st where "process_files L t files init_run = Inl (e, st)"
    by (cases "process_files L t files init_run") auto
  from generate_threw [OF assms(1) ne this] assms(1) show ?thesis by simp
qed

theorem directory_document_aborts_witness:
  "glob_result dir_md_tree = [''0xA/delegate.md'', ''notes.md''] \<and>
   root (generate_delegate_index demo_env [''0xA/delegate.md'', ''notes.md''] (demo_world (Some dir_md_tree))) = Some dir_md_tree \<and>
   exit_code (generate_delegate_index demo_env [''0xA/delegate.md'', ''notes.md''] (demo_world (Some dir_md_tree))) = 1"
proof -
  have g: "glob_result dir_md_tree = [''0xA/delegate.md'', ''notes.md'']" by code_simp
  have r: "root (demo_world (Some dir_md_tree)) = Some dir_md_tree" by (simp add: demo_world_def)
  have f: "''notes.md'' \<in> set [''0xA/delegate.md'', ''notes.md'']" by simp
  have d: "resolve dir_md_tree (split_on CHR ''/'' ''notes.md'') = Inr (Dir [(''x.txt'', File ''x'')])" by code_simp
  show ?thesis using g directory_document_aborts [OF r f d] by simp
qed

text \<open>C14: the path of each entry is the path glob returned for its document,
  unchanged by \<open>path.join\<close>: the entries' paths are exactly the enumeration.\<close>

theorem entry_paths_are_enumerated_paths:
  assumes "wf_node t" and "valid_enum t files" and "process_files L t files init_run = Inr st"
  shows "map e_path (index_data st) = files"
  using process_files_paths [OF assms(3)] map_path_join1_enumerated [OF assms(1,2)]
  by (simp add: init_run_def)

theorem entry_paths_are_enumerated_paths_witness:
  "map e_path (index_data (projr (process_files demo_env demo_tree demo_files init_run))) = demo_files"
proof -
  have w: "wf_node demo_tree" by code_simp
  have v: "valid_enum demo_tree demo_files" by code_simp
  have r: "process_files demo_env demo_tree demo_files init_run =
           Inr (projr (process_files demo_env demo_tree demo_files init_run))" by code_simp
  show ?thesis by (rule entry_paths_are_enumerated_paths [OF w v r])
qed

text \<open>C15: the folder name tested for the \<open>0x\<close> prefix is the segment just before
  the file name, and \<open>.\<close> for a document at the top level, whose metadata is
  therefore never given an address.\<close>

theorem address_folder_is_parent:
  assumes "wf_node t" and "valid_enum t files" and "f \<in> set files"
  shows "dir_name f = (if length (split_on CHR ''/'' f) < 2 then ''.'' else last (butlast (split_on CHR ''/'' f))) \<and>
         (length (split_on CHR ''/'' f) < 2 \<longrightarrow> with_address f md = md)"
proof -
  obtain p where p: "p \<in> set (glob_matches t)" and f: "f = join_path p" and s: "split_on CHR ''/'' f = p"
    using assms by (rule valid_enum_member)
  have "p \<noteq> []" and "\<forall>s \<in> set p. proper_seg s" using glob_match_segments [OF assms(1) p] by blast+
  then have d: "dir_name f = (if length p < 2 then ''.'' else last (butlast p))"
    unfolding f by (rule dir_name_segments)
  then show ?thesis using s by (simp add: with_address_def starts_with_def)
qed

theorem address_folder_is_parent_witness:
  "dir_name ''top.md'' = ''.'' \<and> with_address ''top.md'' [(''address'', JStr ''0xF'')] = [(''address'', JStr ''0xF'')]"
proof -
  have w: "wf_node (Dir [(''top.md'', File ''t'')])" by code_simp
  have v: "valid_enum (Dir [(''top.md'', File ''t'')]) [''top.md'']" by code_simp
  have f: "''top.md'' \<in> set [''top.md'']" by simp
  have s: "split_on CHR ''/'' ''top.md'' = [''top.md'']" by code_simp
  from address_folder_is_parent [OF w v f, of "[(''address'', JStr ''0xF'')]"] s show ?thesis by simp
qed

text \<open>C13: a successful run is idempotent: the same enumeration is valid for the
  tree it left, and running the script again on that tree leaves it unchanged
  and ends normally.\<close>

theorem rerun_reproduces_index:
  assumes "wf_node t" and "root w = Some t" and "valid_enum t files"
    and "exit_code w = 0" and "exit_code (generate_delegate_index L files w) = 0"
    and "root (generate_delegate_index L files w) = Some t1"
  shows "valid_enum t1 files \<and>
         root (generate_delegate_index L files (generate_delegate_index L files w)) = Some t1 \<and>
         exit_code (generate_delegate_index L files (generate_delegate_index L files w)) = 0"
proof (cases "files = []")
  case True
  have wr: "write_root_file t index_name ''[]'' = Inr t1"
  proof (cases "write_root_file t index_name ''[]''")
    case (Inl e)
    with assms(2,5) True show ?thesis by (simp add: generate_no_files)
  next
    case (Inr t')
    with assms(2,6) True show ?thesis by (simp add: generate_no_files)
  qed
  have "generate_delegate_index L files (generate_delegate_index L files w) =
        (let w2 = say (say (generate_delegate_index L files w) [Out (''Searching for markdown files in: '' @ dir_path L)])
                    [Out ''No markdown files found in the delegates directory.''] in
         case write_root_file t1 index_name ''[]'' of Inl e \<Rightarrow> fail w2 (FsExn e) | Inr t' \<Rightarrow> w2\<lparr>root := Some t'\<rparr>)"
    using generate_no_files [OF assms(6)] True by simp
  then show ?thesis using write_root_file_twice [OF wr] valid_enum_write [OF wr] assms(3,5) by simp
next
  case False
  obtain st text_out t' where run: "process_files L t files init_run = Inr st"
    and itx: "index_text (heap st) (sort_entries L (index_data st)) = Some text_out"
    and wr: "write_root_file t index_name text_out = Inr t'"
    and r: "root (generate_delegate_index L files w) = Some t'"
    using generate_success_cases [OF assms(2) False assms(4,5)] by blast
  have t1: "t' = t1" using r assms(6) by simp
  have run1: "process_files L t1 files init_run = Inr st"
    using process_files_write_frame [OF assms(1,3) wr, of L init_run] run t1 by simp
  have "generate_delegate_index L files (generate_delegate_index L files w) =
        finish L t1 st (say (run_opening L files (generate_delegate_index L files w)) (log st))"
    by (rule generate_processed [OF assms(6) False run1])
  then show ?thesis using itx write_root_file_twice [OF wr] valid_enum_write [OF wr] assms(3,5) t1
    by (simp add: finish_def)
qed

theorem rerun_reproduces_index_witness:
  "root (generate_delegate_index demo_env demo_files
     (generate_delegate_index demo_env demo_files (demo_world (Some demo_tree)))) =
   root (generate_delegate_index demo_env demo_files (demo_world (Some demo_tree)))"
proof -
  have w: "wf_node demo_tree" by code_simp
  have r: "root (demo_world (Some demo_tree)) = Some demo_tree" by (simp add: demo_world_def)
  have v: "valid_enum demo_tree demo_files" by code_simp
  have e0: "exit_code (demo_world (Some demo_tree)) = 0" by (simp add: demo_world_def)
  have e1: "exit_code (generate_delegate_index demo_env demo_files (demo_world (Some demo_tree))) = 0" by code_simp
  have r1: "root (generate_delegate_index demo_env demo_files (demo_world (Some demo_tree))) =
            Some (the (root (generate_delegate_index demo_env demo_files (demo_world (Some demo_tree)))))"
    by code_simp
  from rerun_reproduces_index [OF w r v e0 e1 r1] r1 show ?thesis by simp
qed

text \<open>C18: a document whose front matter the engine rejects ends the run with exit
  code 1 and no index, wherever it comes in the enumeration: a failed parse is
  never cached, so no earlier document can hide it.\<close>

theorem front_matter_error_aborts:
  assumes "root w = Some t" and "f \<in> set files"
    and "read_file_sync t (split_on CHR ''/'' f) = Inr c" and "parse_matter (engine L) c = Inl m"
  shows "root (generate_delegate_index L files w) = Some t \<and> exit_code (generate_delegate_index L files w) = 1"
proof -
  have ne: "files \<noteq> []" using assms(2) by auto
  have "\<not> (\<exists>st. process_files L t files init_run = Inr st)"
  proof
    assume "\<exists>st. process_files L t files init_run = Inr st"
    then obtain st where run: "process_files L t files init_run = Inr st" ..
    have "cache_parses (engine L) init_run" by (simp add: cache_parses_def init_run_def)
    have "\<exists>s s'. cache_parses (engine L) s \<and> process_file L t f s = Inr s'"
      by (rule process_files_Inr_step [where P = "cache_parses (engine L)", OF run \<open>cache_parses (engine L) init_run\<close> _ assms(2)])
         (rule process_file_cache_parses)
    then obtain s s' where s: "cache_parses (engine L) s" and step: "process_file L t f s = Inr s'" by blast
    from gray_matter_parse_fail [OF s assms(4)] assms(3) step show False
      by (simp add: process_file_def Let_def)
  qed
  then obtain e st where "process_files L t files init_run = Inl (e, st)"
    by (cases "process_files L t files init_run") auto
  from generate_threw [OF assms(1) ne this] assms(1) show ?thesis by simp
qed

theorem front_matter_error_aborts_witness:
  "root (generate_delegate_index demo_env [''0xE/delegate.md'', ''0xD/delegate.md''] (demo_world (Some bad_matter_tree))) =
     Some bad_matter_tree \<and>
   exit_code (generate_delegate_index demo_env [''0xE/delegate.md'', ''0xD/delegate.md''] (demo_world (Some bad_matter_tree))) = 1"
proof -
  have r: "root (demo_world (Some bad_matter_tree)) = Some bad_matter_tree" by (simp add: demo_world_def)
  have f: "''0xD/delegate.md'' \<in> set [''0xE/delegate.md'', ''0xD/delegate.md'']" by simp
  have c: "read_file_sync bad_matter_tree (split_on CHR ''/'' ''0xD/delegate.md'') = Inr ''---toml\<newline>name = 1\<newline>---\<newline>''"
    by code_simp
  have p: "parse_matter (engine demo_env) ''---toml\<newline>name = 1\<newline>---\<newline>'' =
             Inl (''gray-matter engine '' @ [dquote] @ ''toml'' @ [dquote] @ '' is not registered'')"
    by code_simp
  show ?thesis by (rule front_matter_error_aborts [OF r f c p])
qed

text \<open>C19: when the directory exists, the run ends with exit code 0 exactly when
  every document is processed without a throw and \<open>index.json\<close> can be written
  (the empty array when no document was found).\<close>

theorem exit_code_zero_iff:
  assumes "root w = Some t" and "exit_code w = 0"
  shows "exit_code (generate_delegate_index L files w) = 0 \<longleftrightarrow>
    (if files = [] then (\<exists>t'. write_root_file t index_name ''[]'' = Inr t')
     else (\<exists>st. process_files L t files init_run = Inr st \<and>
             (\<exists>t'. write_root_file t index_name (the (index_text (heap st) (sort_entries L (index_data st)))) = Inr t')))"
proof (cases "files = []")
  case True
  then show ?thesis using assms by (simp add: generate_no_files Let_def split: sum.split)
next
  case ne: False
  show ?thesis
  proof (cases "process_files L t files init_run")
    case (Inl x)
    then obtain e st where r: "process_files L t files init_run = Inl (e, st)" by (cases x) auto
    from generate_threw [OF assms(1) ne r] ne r show ?thesis by simp
  next
    case (Inr st)
    obtain out where o: "index_text (heap st) (sort_entries L (index_data st)) = Some out"
      using index_text_defined by blast
    from generate_processed [OF assms(1) ne Inr] o ne Inr assms(2) show ?thesis
      by (simp add: finish_def split: sum.split)
  qed
qed

theorem exit_code_zero_iff_witness:
  "exit_code (generate_delegate_index demo_env [] (demo_world (Some demo_tree))) = 0 \<longleftrightarrow>
     (\<exists>t'. write_root_file demo_tree index_name ''[]'' = Inr t')"
proof -
  have r: "root (demo_world (Some demo_tree)) = Some demo_tree" by (simp add: demo_world_def)
  have e: "exit_code (demo_world (Some demo_tree)) = 0" by (simp add: demo_world_def)
  from exit_code_zero_iff [OF r e, of demo_env "[]"] show ?thesis by simp
qed

text \<open>C20: the console of a successful run: the search line, the count of
  documents found, the metrics errors logged by the loop in order, and the
  success line, after whatever was printed before.\<close>

theorem successful_run_console:
  assumes "root w = Some t" and "files \<noteq> []" and "exit_code w = 0"
    and "exit_code (generate_delegate_index L files w) = 0"
  shows "\<exists>st. process_files L t files init_run = Inr st \<and>
           console (generate_delegate_index L files w) =
             console w @ [Out (''Searching for markdown files in: '' @ dir_path L),
                          Out (''Found '' @ dec_string (length files) @ '' files. Processing...'')] @
             log st @ [Out (''Successfully generated delegates index file at: '' @ index_file_path L)]"
proof -
  obtain st text_out t' where run: "process_files L t files init_run = Inr st"
    and itx: "index_text (heap st) (sort_entries L (index_data st)) = Some text_out"
    and wr: "write_root_file t index_name text_out = Inr t'"
    using generate_success_cases [OF assms] by blast
  from generate_processed [OF assms(1,2) run] itx wr run show ?thesis
    by (simp add: finish_def)
qed

theorem successful_run_console_witness:
  "console (generate_delegate_index demo_env demo_files (demo_world (Some demo_tree))) =
     [Out ''Searching for markdown files in: /repo/delegates'', Out ''Found 2 files. Processing...'',
      Out ''Successfully generated delegates index file at: /repo/delegates/index.json'']"
proof -
  have r: "root (demo_world (Some demo_tree)) = Some demo_tree" by (simp add: demo_world_def)
  have n: "demo_files \<noteq> []" by (simp add: demo_files_def)
  have e0: "exit_code (demo_world (Some demo_tree)) = 0" by (simp add: demo_world_def)
  have e1: "exit_code (generate_delegate_index demo_env demo_files (demo_world (Some demo_tree))) = 0" by code_simp
  have l: "log (projr (process_files demo_env demo_tree demo_files init_run)) = []" by code_simp
  obtain st where "process_files demo_env demo_tree demo_files init_run = Inr st"
    and c: "console (generate_delegate_index demo_env demo_files (demo_world (Some demo_tree))) =
             console (demo_world (Some demo_tree)) @ [Out (''Searching for markdown files in: '' @ dir_path demo_env),
                          Out (''Found '' @ dec_string (length demo_files) @ '' files. Processing...'')] @
             log st @ [Out (''Successfully generated delegates index file at: '' @ index_file_path demo_env)]"
    using successful_run_console [OF r n e0 e1] by blast
  with l have "log st = []" by simp
  moreover have "dec_string (length demo_files) = ''2''" by code_simp
  ultimately show ?thesis using c
    by (simp add: demo_world_def demo_env_def index_file_path_def index_name_def)
qed

text \<open>C21: in a run over documents of distinct contents, a document without front
  matter gets empty metadata, apart from the address its folder may give it.\<close>

theorem plain_document_metadata:
  assumes "process_files L t fs init_run = Inr st" and "distinct_docs t fs" and "i < length fs"
    and "read_file_sync t (split_on CHR ''/'' (fs ! i)) = Inr c" and "\<not> starts_with c ''---''"
  shows "heap st ! e_metadata (index_data st ! i) = with_address (path_join1 (fs ! i)) []"
proof -
  obtain c' d where rd: "read_file_sync t (split_on CHR ''/'' (fs ! i)) = Inr c'"
    and md: "matter_data (engine L) c' = Inr d"
    and h: "heap st ! e_metadata (index_data st ! i) = with_address (path_join1 (fs ! i)) d"
    by (rule fresh_run_metadata [OF assms(1-3)])
  have "c' = c" using rd assms(4) by simp
  with md assms(5) have "d = []" by (simp add: matter_data_def fm_open_def split: if_splits)
  with h show ?thesis by simp
qed

theorem plain_document_metadata_witness:
  "heap (projr (process_files demo_env demo_tree demo_files init_run)) !
     e_metadata (index_data (projr (process_files demo_env demo_tree demo_files init_run)) ! 0) =
   with_address (path_join1 (demo_files ! 0)) []"
proof -
  have r: "process_files demo_env demo_tree demo_files init_run =
           Inr (projr (process_files demo_env demo_tree demo_files init_run))" by code_simp
  have d: "distinct_docs demo_tree demo_files" by code_simp
  have l: "0 < length demo_files" by (simp add: demo_files_def)
  have c: "read_file_sync demo_tree (split_on CHR ''/'' (demo_files ! 0)) = Inr ''n''" by code_simp
  have n: "\<not> starts_with ''n'' ''---''" by code_simp
  show ?thesis by (rule plain_document_metadata [OF r d l c n])
qed

text \<open>C22: with \<open>JSON.parse\<close> as the metrics parser, a \<open>metrics.json\<close> written by
  \<open>JSON.stringify(v, null, 2)\<close> from a value whose objects have distinct keys is read
  back as that value, less the \<open>undefined\<close>s printing drops, and nothing is logged.\<close>

theorem metrics_stringify_roundtrip:
  assumes "json_parse L = parse_json" and "metrics_file_name \<in> set ns"
    and "read_file_sync t (folder @ [metrics_file_name]) = Inr mtxt"
    and "stringify m = Some mtxt" and "keys_ok m"
  shows "load_metrics L t folder ns rel = Inr (jnorm m, [])"
  using stringify_parse [OF assms(4,5)] assms(1-3) by (simp add: load_metrics_def)

theorem metrics_stringify_roundtrip_witness:
  "load_metrics demo_env json_tree [''0xF''] [''delegate.md'', ''metrics.json''] ''0xF/delegate.md'' =
   Inr (JObj [(''a'', JArr [JNum 1, JNull]), (''c'', JStr ''x'')], [])"
proof -
  have j: "json_parse demo_env = parse_json" by (simp add: demo_env_def)
  have n: "metrics_file_name \<in> set [''delegate.md'', ''metrics.json'']" by (simp add: metrics_file_name_def)
  have r: "read_file_sync json_tree ([''0xF''] @ [metrics_file_name]) = Inr (the (stringify undef_value))" by code_simp
  have s: "stringify undef_value = Some (the (stringify undef_value))" by code_simp
  have k: "keys_ok undef_value" by (simp add: undef_value_def)
  have "load_metrics demo_env json_tree [''0xF''] [''delegate.md'', ''metrics.json''] ''0xF/delegate.md'' =
        Inr (jnorm undef_value, [])" by (rule metrics_stringify_roundtrip [OF j n r s k])
  then show ?thesis by (simp add: undef_value_def)
qed

text \<open>C23: the metrics parse terminates: the fuel the \<open>JSON.parse\<close> model gives itself
  is never exhausted, so no fuel error reaches the log, and any larger fuel gives
  the script the same outcome.\<close>

theorem metrics_parse_terminates:
  assumes "json_parse L = parse_json" and "read_file_sync t (folder @ [metrics_file_name]) = Inr mtxt"
    and "2 * length mtxt < n"
  shows "parse_json mtxt \<noteq> Inl fuel_error \<and>
         load_metrics (L\<lparr>json_parse := parse_with n\<rparr>) t folder ns rel = load_metrics L t folder ns rel"
  using parse_json_not_fuel [of mtxt] parse_with_enough [OF assms(3)] assms(1,2) by (simp add: load_metrics_def)

theorem metrics_parse_terminates_witness:
  "parse_json dup_key_text \<noteq> Inl fuel_error \<and>
   load_metrics (demo_env\<lparr>json_parse := parse_with 100\<rparr>) json_tree [''0xG''] [''metrics.json''] ''0xG/d.md'' =
   load_metrics demo_env json_tree [''0xG''] [''metrics.json''] ''0xG/d.md''"
proof -
  have j: "json_parse demo_env = parse_json" by (simp add: demo_env_def)
  have r: "read_file_sync json_tree ([''0xG''] @ [metrics_file_name]) = Inr dup_key_text" by code_simp
  have n: "2 * length dup_key_text < 100" by (simp add: dup_key_text_def)
  show ?thesis by (rule metrics_parse_terminates [OF j r n])
qed



text \<open>C25: a run that gets through the loop has one entry per document, at most one
  logged line per document, and at most one metadata object per document in the
  heap (fewer when gray-matter's cache shares one).\<close>

theorem run_state_bounds:
  assumes "process_files L t fs init_run = Inr st"
  shows "length (index_data st) = length fs \<and> length (log st) \<le> length fs \<and> length (heap st) \<le> length fs"
  using process_files_growth [OF assms] by (simp add: init_run_def)

theorem run_state_bounds_witness:
  "length (index_data (projr (process_files demo_env twin_tree [''0xA/delegate.md'', ''0xB/delegate.md''] init_run))) = 2 \<and>
   length (log (projr (process_files demo_env twin_tree [''0xA/delegate.md'', ''0xB/delegate.md''] init_run))) \<le> 2 \<and>
   length (heap (projr (process_files demo_env twin_tree [''0xA/delegate.md'', ''0xB/delegate.md''] init_run))) \<le> 2"
proof -
  have r: "process_files demo_env twin_tree [''0xA/delegate.md'', ''0xB/delegate.md''] init_run =
           Inr (projr (process_files demo_env twin_tree [''0xA/delegate.md'', ''0xB/delegate.md''] init_run))" by code_simp
  show ?thesis using run_state_bounds [OF r] by simp
qed



text \<open>C27: with gray-matter's engines and \<open>JSON.parse\<close>, every value a run stores is
  a JSON value: each metadata object in the heap has distinct keys (the YAML engine
  throws on a repeated key) and no \<open>undefined\<close>, and each entry's metrics are
  \<open>undefined\<close> or a JSON value.\<close>

theorem run_values_are_json:
  assumes "engine L = gm_engine" and "json_parse L = parse_json"
    and "process_files L t fs init_run = Inr st"
  shows "(\<forall>ob \<in> set (heap st). json_value (JObj ob)) \<and>
         (\<forall>e \<in> set (index_data st). e_metrics e = JUndef \<or> json_value (e_metrics e))"
proof -
  have "engine_json (engine L)" using assms(1) gm_engine_json by simp
  from process_files_index_json [OF assms(3) this assms(2) index_json_init]
  show ?thesis by (simp add: index_json_def heap_json_def metrics_typed_def del: json_value.simps)
qed

theorem run_values_are_json_witness:
  "list_all (\<lambda>ob. json_value (JObj ob)) (heap (projr (process_files demo_env demo_tree demo_files init_run))) \<and>
   list_all (\<lambda>e. e_metrics e = JUndef \<or> json_value (e_metrics e))
     (index_data (projr (process_files demo_env demo_tree demo_files init_run)))"
proof -
  have h: "engine demo_env = gm_engine" "json_parse demo_env = parse_json" by (simp_all add: demo_env_def)
  have r: "process_files demo_env demo_tree demo_files init_run =
           Inr (projr (process_files demo_env demo_tree demo_files init_run))" by code_simp
  show ?thesis using run_values_are_json [OF h r] by (simp only: list_all_iff)
qed

text \<open>C28: with gray-matter's engines and \<open>JSON.parse\<close> for the metrics, the
  \<open>index.json\<close> a successful run writes is read back by \<open>JSON.parse\<close> as the
  sorted entries, each an object of its path, its metadata and its metrics (the
  \<open>metrics\<close> property absent when they are \<open>undefined\<close>).\<close>

theorem index_json_read_back:
  assumes "engine L = gm_engine" and "json_parse L = parse_json"
    and "root w = Some t" and "files \<noteq> []" and "exit_code w = 0"
    and "exit_code (generate_delegate_index L files w) = 0"
  shows "\<exists>st txt. process_files L t files init_run = Inr st \<and>
           index_content (generate_delegate_index L files w) = Some txt \<and>
           parse_json txt = Inr (jnorm (JArr (map (entry_json (heap st)) (sort_entries L (index_data st)))))"
proof -
  obtain st text_out t' where run: "process_files L t files init_run = Inr st"
    and itx: "index_text (heap st) (sort_entries L (index_data st)) = Some text_out"
    and out: "index_content (generate_delegate_index L files w) = Some text_out"
    using assms(3-6) by (rule generate_success_cases)
  have "engine_json (engine L)" using assms(1) gm_engine_json by simp
  from run_index_parse [OF run this assms(2) itx] run out show ?thesis by blast
qed

theorem index_json_read_back_witness:
  "exit_code (generate_delegate_index demo_env demo_files (demo_world (Some demo_tree))) = 0 \<and>
   (\<exists>st txt. process_files demo_env demo_tree demo_files init_run = Inr st \<and>
      index_content (generate_delegate_index demo_env demo_files (demo_world (Some demo_tree))) = Some txt \<and>
      parse_json txt = Inr (jnorm (JArr (map (entry_json (heap st)) (sort_entries demo_env (index_data st))))))"
proof -
  have h: "engine demo_env = gm_engine" "json_parse demo_env = parse_json"
    "root (demo_world (Some demo_tree)) = Some demo_tree" "demo_files \<noteq> []"
    "exit_code (demo_world (Some demo_tree)) = 0"
    by (simp_all add: demo_env_def demo_world_def demo_files_def)
  have e: "exit_code (generate_delegate_index demo_env demo_files (demo_world (Some demo_tree))) = 0"
    by code_simp
  from index_json_read_back [OF h e] e show ?thesis by blast
qed

text \<open>C29: the cast of \<open>parsed.data\<close> to \<open>DelegateMetadata\<close> is not checked: in a
  run over documents of distinct contents, an entry's metadata conforms to the
  interface exactly when the front matter's \<open>name\<close> is absent or a string and its
  \<open>address\<close> is absent, a string, or overwritten by a \<open>0x\<close> folder. YAML types
  unquoted scalars, so \<open>name: 2024\<close> at the top level breaks the interface.\<close>

theorem entry_metadata_shape_iff:
  assumes "process_files L t fs init_run = Inr st" and "distinct_docs t fs" and "i < length fs"
    and "read_file_sync t (split_on CHR ''/'' (fs ! i)) = Inr c" and "matter_data (engine L) c = Inr d"
  shows "delegate_metadata_shape (heap st ! e_metadata (index_data st ! i)) \<longleftrightarrow>
           opt_string d ''name'' \<and> (starts_with (dir_name (path_join1 (fs ! i))) ''0x'' \<or> opt_string d ''address'')"
proof -
  obtain c' d' where r: "read_file_sync t (split_on CHR ''/'' (fs ! i)) = Inr c'"
    and m: "matter_data (engine L) c' = Inr d'"
    and h: "heap st ! e_metadata (index_data st ! i) = with_address (path_join1 (fs ! i)) d'"
    by (rule fresh_run_metadata [OF assms(1-3)])
  have "d' = d" using r m assms(4,5) by simp
  with h show ?thesis by (simp add: with_address_shape_iff)
qed

theorem entry_metadata_shape_iff_witness:
  "\<not> delegate_metadata_shape (heap (projr (process_files demo_env yaml_tree [''delegate.md''] init_run)) !
       e_metadata (index_data (projr (process_files demo_env yaml_tree [''delegate.md''] init_run)) ! 0))"
proof -
  have r: "process_files demo_env yaml_tree [''delegate.md''] init_run =
           Inr (projr (process_files demo_env yaml_tree [''delegate.md''] init_run))" by code_simp
  have d: "distinct_docs yaml_tree [''delegate.md'']" by code_simp
  have c: "read_file_sync yaml_tree (split_on CHR ''/'' ([''delegate.md''] ! 0)) =
           Inr ''---\<newline>name: 2024\<newline>address: 0x2a\<newline>---\<newline>''" by code_simp
  have m: "matter_data (engine demo_env) ''---\<newline>name: 2024\<newline>address: 0x2a\<newline>---\<newline>'' =
           Inr [(''name'', JNum 2024), (''address'', JNum 42)]" by code_simp
  have n: "\<not> opt_string [(''name'', JNum 2024), (''address'', JNum 42)] ''name''" by code_simp
  show ?thesis using entry_metadata_shape_iff [OF r d _ c m] n by simp
qed

text \<open>C30: gray-matter's cache refines parsing every document afresh as long as no
  \<open>address\<close> is assigned: when no enumerated document lies in a \<open>0x\<close> folder, every
  entry of a run serialises exactly as its document alone would, even when
  documents share their content and so their metadata object.\<close>

theorem cache_transparent_without_address:
  assumes "addr_free fs" and "process_files L t fs init_run = Inr st"
  shows "map (entry_json (heap st)) (index_data st) = map (doc_json L t) fs"
  using process_files_plain [OF assms(2,1) valid_cache_init run_inv_init_run] by (simp add: init_run_def)

theorem cache_transparent_without_address_witness:
  "addr_free plain_twin_files \<and>
   map (entry_json (heap (projr (process_files demo_env plain_twin_tree plain_twin_files init_run))))
       (index_data (projr (process_files demo_env plain_twin_tree plain_twin_files init_run))) =
   map (doc_json demo_env plain_twin_tree) plain_twin_files"
proof -
  have a: "addr_free plain_twin_files" by code_simp
  have r: "process_files demo_env plain_twin_tree plain_twin_files init_run =
           Inr (projr (process_files demo_env plain_twin_tree plain_twin_files init_run))" by code_simp
  show ?thesis using cache_transparent_without_address [OF a r] a by blast
qed

text \<open>C31: the heap of a run that gets through the loop holds exactly one metadata
  object per empty document (never cached) and one per distinct non-empty content
  (cached after its first parse).\<close>

theorem heap_size_exact:
  assumes "process_files L t fs init_run = Inr st"
  shows "length (heap st) = length (filter (\<lambda>f. content_of t f = []) fs) + card (doc_contents t fs)"
  using process_files_count [OF assms] by (simp add: init_run_def cache_keys_def)

theorem heap_size_exact_witness:
  "length (heap (projr (process_files demo_env plain_twin_tree plain_twin_files init_run))) = 2 \<and>
   length (filter (\<lambda>f. content_of plain_twin_tree f = []) plain_twin_files) + card (doc_contents plain_twin_tree plain_twin_files) = 2"
proof -
  have r: "process_files demo_env plain_twin_tree plain_twin_files init_run =
           Inr (projr (process_files demo_env plain_twin_tree plain_twin_files init_run))" by code_simp
  have n: "length (filter (\<lambda>f. content_of plain_twin_tree f = []) plain_twin_files) + card (doc_contents plain_twin_tree plain_twin_files) = 2"
    by code_simp
  show ?thesis using heap_size_exact [OF r] n by simp
qed

end
